(* ===== verification/Prelude.thy ===== *)
theory Prelude
  imports Main "HOL-Library.AList" "HOL-Library.Sublist"
begin

text \<open>
  What every component of the development shares: the names of the Go types the model uses
  most, the collections of rewrite rules the component proofs are run with, Go's
  \<^verbatim>\<open>map[string]string\<close> as an association list, and the generic facts on lists the
  components need.

  A Go \<^verbatim>\<open>string\<close> is a sequence of bytes, here \<^typ>\<open>string\<close> (a list of 8-bit
  characters). A Go \<^verbatim>\<open>error\<close> is \<open>None\<close> for \<open>nil\<close> and \<open>Some msg\<close>
  otherwise. Ranging over a Go map visits its entries in an order the language leaves open;
  an association list with distinct keys stands for the map together with one such order, so
  a statement for all lists is a statement for all orders.
\<close>

section \<open>Names and collections\<close>

type_synonym err = "string option"
type_synonym smap = "(string \<times> string) list"

named_theorems go_simps \<open>rewrite rules for the Go library functions\<close>
named_theorems store_simps \<open>what a store operation leaves in each table\<close>
named_theorems inv_intros \<open>preservation of the server's invariants\<close>

section \<open>Go maps from strings to strings\<close>

text \<open>\<^verbatim>\<open>m[k]\<close>: the zero value, the empty string, for a missing key.\<close>

definition smap_get :: "smap \<Rightarrow> string \<Rightarrow> string" where
  "smap_get m k = (case map_of m k of None \<Rightarrow> [] | Some v \<Rightarrow> v)"

text \<open>\<^verbatim>\<open>m[k] = v\<close>.\<close>

definition smap_set :: "string \<Rightarrow> string \<Rightarrow> smap \<Rightarrow> smap" where
  "smap_set k v m = AList.update k v m"

lemma smap_get_Nil [simp]: "smap_get [] k = []"
  by (simp add: smap_get_def)

lemma smap_get_Cons [simp]:
  "smap_get ((k', v) # m) k = (if k = k' then v else smap_get m k)"
  by (simp add: smap_get_def)

lemma map_of_smap_set: "map_of (smap_set k v m) = (map_of m)(k \<mapsto> v)"
  by (simp add: smap_set_def update_conv')

lemma smap_get_set [simp]:
  "smap_get (smap_set k v m) k' = (if k' = k then v else smap_get m k')"
  by (simp add: smap_get_def map_of_smap_set)

lemma distinct_smap_set [simp]:
  "distinct (map fst m) \<Longrightarrow> distinct (map fst (smap_set k v m))"
  by (simp add: smap_set_def distinct_update)

section \<open>Lists\<close>

text \<open>Membership of a found element, in the direction \<open>auto\<close> uses it.\<close>

lemma find_SomeD: "List.find P xs = Some x \<Longrightarrow> x \<in> set xs \<and> P x"
  by (auto simp: find_Some_iff)

lemma find_None_iff_all: "List.find P xs = None \<longleftrightarrow> (\<forall>x\<in>set xs. \<not> P x)"
  by (auto simp: find_None_iff)

lemma find_cong_on:
  "(\<And>x. x \<in> set xs \<Longrightarrow> P x = Q x) \<Longrightarrow> List.find P xs = List.find Q xs"
  by (induction xs) auto

lemma find_append: "List.find P (xs @ ys) =
  (case List.find P xs of None \<Rightarrow> List.find P ys | Some x \<Rightarrow> Some x)"
  by (induction xs) auto

lemma find_filter:
  "(\<And>x. x \<in> set xs \<Longrightarrow> P x \<Longrightarrow> Q x) \<Longrightarrow> List.find P (filter Q xs) = List.find P xs"
  by (induction xs) auto

lemma find_map_key:
  "(\<And>x. x \<in> set xs \<Longrightarrow> P (f x) = Q x) \<Longrightarrow>
   List.find P (map f xs) = map_option f (List.find Q xs)"
  by (induction xs) auto

text \<open>With distinct keys the element found for a key is the only one that has it.\<close>

lemma find_key_unique:
  "distinct (map key xs) \<Longrightarrow> x \<in> set xs \<Longrightarrow> List.find (\<lambda>y. key y = key x) xs = Some x"
  by (induction xs) (auto simp: image_iff)

lemma find_key_iff:
  "distinct (map key xs) \<Longrightarrow>
   List.find (\<lambda>y. key y = k) xs = Some x \<longleftrightarrow> x \<in> set xs \<and> key x = k"
  by (auto dest: find_SomeD find_key_unique)

lemma distinct_map_filter_key: "distinct (map key xs) \<Longrightarrow> distinct (map key (filter P xs))"
  by (rule distinct_map_filter)

section \<open>Invariants of transition systems\<close>

text \<open>
  A start state and a step relation with an invariant; the states of the system are those
  reached by steps.
\<close>

locale transition_system =
  fixes start :: "'s" and step :: "'s \<Rightarrow> 's \<Rightarrow> bool" and inv :: "'s \<Rightarrow> bool"
  assumes inv_start: "inv start"
    and inv_step: "step s s' \<Longrightarrow> inv s \<Longrightarrow> inv s'"
begin

lemma inv_reach: "step\<^sup>*\<^sup>* start s \<Longrightarrow> inv s"
  by (induction rule: rtranclp_induct) (auto intro: inv_start inv_step)

lemma inv_reach_step: "step\<^sup>*\<^sup>* start s \<Longrightarrow> step s s' \<Longrightarrow> inv s'"
  by (blast intro: inv_reach inv_step)

end

end
