(* ===== verification/Go_Strings.thy ===== *)
theory Go_Strings
  imports Prelude "HOL-Library.Word"
begin

text \<open>
  The functions of Go's packages \<^verbatim>\<open>strings\<close>, \<^verbatim>\<open>strconv\<close> and
  \<^verbatim>\<open>fmt\<close> that the sources call, on byte strings. \<^verbatim>\<open>strings.Index\<close> returns
  \<open>None\<close> where Go returns -1. \<open>Split\<close> is \<^verbatim>\<open>strings.Split\<close> at a separator of
  one byte, the only kind the sources use. \<open>TrimSpace\<close> knows the white space of
  \<^verbatim>\<open>unicode.IsSpace\<close> by its UTF-8 bytes. \<open>ToLower\<close>, \<open>EqualFold\<close> and \<open>Quote\<close> (the verb
  \<^verbatim>\<open>%q\<close>) treat the ASCII range as Go does and leave bytes above it as they are.
\<close>

section \<open>Prefixes, suffixes, searching\<close>

definition HasPrefix :: "string \<Rightarrow> string \<Rightarrow> bool" where
  "HasPrefix s p \<longleftrightarrow> take (length p) s = p"

definition HasSuffix :: "string \<Rightarrow> string \<Rightarrow> bool" where
  "HasSuffix s p \<longleftrightarrow> HasPrefix (rev s) (rev p)"

definition TrimPrefix :: "string \<Rightarrow> string \<Rightarrow> string" where
  "TrimPrefix s p = (if HasPrefix s p then drop (length p) s else s)"

definition TrimSuffix :: "string \<Rightarrow> string \<Rightarrow> string" where
  "TrimSuffix s p = (if HasSuffix s p then take (length s - length p) s else s)"

text \<open>\<^verbatim>\<open>strings.Index\<close>: the first position at which \<open>sub\<close> starts.\<close>

fun Index :: "string \<Rightarrow> string \<Rightarrow> nat option" where
  "Index [] sub = (if sub = [] then Some 0 else None)"
| "Index (c # s) sub = (if HasPrefix (c # s) sub then Some 0 else map_option Suc (Index s sub))"

definition Contains :: "string \<Rightarrow> string \<Rightarrow> bool" where
  "Contains s sub \<longleftrightarrow> Index s sub \<noteq> None"

lemma HasPrefix_iff: "HasPrefix s p \<longleftrightarrow> (\<exists>t. s = p @ t)"
  by (auto simp: HasPrefix_def) (metis append_take_drop_id)

lemma HasPrefix_append [simp]: "HasPrefix (p @ t) p"
  by (simp add: HasPrefix_def)

lemma HasPrefix_Nil [simp]: "HasPrefix s []"
  by (simp add: HasPrefix_def)

lemma HasPrefix_Nil_left [simp]: "HasPrefix [] p \<longleftrightarrow> p = []"
  by (auto simp: HasPrefix_def)

lemma HasPrefix_Cons [simp]:
  "HasPrefix (c # s) (d # p) \<longleftrightarrow> c = d \<and> HasPrefix s p"
  by (auto simp: HasPrefix_def)

lemma TrimPrefix_append [simp]: "TrimPrefix (p @ t) p = t"
  by (simp add: TrimPrefix_def)

text \<open>
  The specification of \<open>Index\<close>: the string splits at the result into a part, the
  substring and a rest, and no shorter part does.
\<close>

lemma Index_SomeD: "Index s sub = Some n \<Longrightarrow> n \<le> length s \<and> HasPrefix (drop n s) sub"
  by (induction s sub arbitrary: n rule: Index.induct) (auto split: if_splits)

lemma Index_length:
  assumes "Index s sub = Some n"
  shows "n + length sub \<le> length s"
proof -
  from Index_SomeD [OF assms] obtain t where "drop n s = sub @ t" "n \<le> length s"
    by (auto simp: HasPrefix_iff)
  then have "length s - n = length sub + length t" by (metis length_append length_drop)
  with \<open>n \<le> length s\<close> show ?thesis by linarith
qed

lemma Index_Some_decomp:
  assumes "Index s sub = Some n"
  shows "s = take n s @ sub @ drop (n + length sub) s"
proof -
  from Index_SomeD [OF assms] obtain t where "drop n s = sub @ t"
    by (auto simp: HasPrefix_iff)
  moreover from this have "drop (n + length sub) s = t"
    by (metis add.commute append_eq_conv_conj drop_drop)
  ultimately show ?thesis
    by (metis append_take_drop_id)
qed

lemma Index_None_iff: "Index s sub = None \<longleftrightarrow> (\<forall>a b. s \<noteq> a @ sub @ b)"
proof (induction s sub rule: Index.induct)
  case (1 sub)
  then show ?case by auto
next
  case (2 c s sub)
  show ?case
  proof (cases "HasPrefix (c # s) sub")
    case True
    then show ?thesis by (auto simp: HasPrefix_iff) (metis append_Nil)
  next
    case False
    have "(\<forall>a b. c # s \<noteq> a @ sub @ b) \<longleftrightarrow> (\<forall>a b. s \<noteq> a @ sub @ b)"
    proof (intro iffI allI notI)
      fix a b
      assume no: "\<forall>a b. c # s \<noteq> a @ sub @ b" and "s = a @ sub @ b"
      then have "c # s = (c # a) @ sub @ b" by simp
      with no show False by blast
    next
      fix a b
      assume no: "\<forall>a b. s \<noteq> a @ sub @ b" and eq: "c # s = a @ sub @ b"
      show False
      proof (cases a)
        case Nil
        with eq False show False by (auto simp: HasPrefix_iff)
      next
        case (Cons x a')
        with eq no show False by simp
      qed
    qed
    with False 2 show ?thesis by simp
  qed
qed

lemma Index_append_Some: "Index (a @ sub @ b) sub \<noteq> None"
  unfolding Index_None_iff by blast

lemma Index_least: "Index s sub = Some n \<Longrightarrow> m < n \<Longrightarrow> \<not> HasPrefix (drop m s) sub"
proof (induction s sub arbitrary: n m rule: Index.induct)
  case (1 sub)
  then show ?case by (auto split: if_splits)
next
  case (2 c s sub)
  then show ?case by (cases m) (auto split: if_splits)
qed

lemma Contains_iff: "Contains s sub \<longleftrightarrow> (\<exists>a b. s = a @ sub @ b)"
  by (auto simp: Contains_def Index_None_iff)

text \<open>
  When the character that starts the substring does not occur before it, \<open>Index\<close> finds it
  there: the case of a template whose next reference is the first one.
\<close>

lemma Index_skip:
  assumes "c \<notin> set a" and "sub = c # sub'"
  shows "Index (a @ sub @ b) sub = Some (length a)"
  using assms
proof (induction a)
  case Nil
  then show ?case by simp
next
  case (Cons x a)
  then show ?case by auto
qed

lemma Index_notin:
  assumes "c \<notin> set s" and "sub = c # sub'"
  shows "Index s sub = None"
  using assms by (auto simp: Index_None_iff)

section \<open>Splitting and trimming\<close>

fun Split :: "string \<Rightarrow> char \<Rightarrow> string list" where
  "Split [] c = [[]]"
| "Split (x # s) c =
     (if x = c then [] # Split s c
      else (case Split s c of [] \<Rightarrow> [[x]] | y # ys \<Rightarrow> (x # y) # ys))"

lemma Split_nonempty [simp]: "Split s c \<noteq> []"
  by (induction s) (auto split: list.splits)

text \<open>\<^verbatim>\<open>strings.SplitN(s, sep, 2)\<close>: at most one cut.\<close>

definition SplitN2 :: "string \<Rightarrow> char \<Rightarrow> string list" where
  "SplitN2 s c = (let a = takeWhile (\<lambda>x. x \<noteq> c) s; b = dropWhile (\<lambda>x. x \<noteq> c) s
                  in if b = [] then [a] else [a, tl b])"

fun Join :: "string list \<Rightarrow> string \<Rightarrow> string" where
  "Join [] sep = []"
| "Join [x] sep = x"
| "Join (x # y # xs) sep = x @ sep @ Join (y # xs) sep"

lemma Join_Cons: "xs \<noteq> [] \<Longrightarrow> Join (x # xs) sep = x @ sep @ Join xs sep"
  by (cases xs) auto

lemma Join_Split: "Join (Split s c) [c] = s"
proof (induction s)
  case Nil
  then show ?case by simp
next
  case (Cons x s)
  obtain y ys where sp: "Split s c = y # ys"
    by (meson Split_nonempty neq_Nil_conv)
  with Cons show ?case
    by (cases ys) (auto simp: Join_Cons)
qed

lemma Split_no_sep: "y \<in> set (Split s c) \<Longrightarrow> c \<notin> set y"
proof (induction s arbitrary: y)
  case Nil
  then show ?case by simp
next
  case (Cons x s)
  obtain z zs where sp: "Split s c = z # zs"
    by (meson Split_nonempty neq_Nil_conv)
  with Cons show ?case by (auto split: if_splits)
qed

text \<open>The UTF-8 encodings of the white space \<^verbatim>\<open>unicode.IsSpace\<close> accepts.\<close>

definition space_runes :: "string list" where
  "space_runes =
     [[CHR 0x09], [CHR 0x0A], [CHR 0x0B], [CHR 0x0C], [CHR 0x0D], [CHR 0x20],
      [CHR 0xC2, CHR 0x85], [CHR 0xC2, CHR 0xA0], [CHR 0xE1, CHR 0x9A, CHR 0x80],
      [CHR 0xE2, CHR 0x80, CHR 0x80], [CHR 0xE2, CHR 0x80, CHR 0x81],
      [CHR 0xE2, CHR 0x80, CHR 0x82], [CHR 0xE2, CHR 0x80, CHR 0x83],
      [CHR 0xE2, CHR 0x80, CHR 0x84], [CHR 0xE2, CHR 0x80, CHR 0x85],
      [CHR 0xE2, CHR 0x80, CHR 0x86], [CHR 0xE2, CHR 0x80, CHR 0x87],
      [CHR 0xE2, CHR 0x80, CHR 0x88], [CHR 0xE2, CHR 0x80, CHR 0x89],
      [CHR 0xE2, CHR 0x80, CHR 0x8A], [CHR 0xE2, CHR 0x80, CHR 0xA8],
      [CHR 0xE2, CHR 0x80, CHR 0xA9], [CHR 0xE2, CHR 0x80, CHR 0xAF],
      [CHR 0xE2, CHR 0x81, CHR 0x9F], [CHR 0xE3, CHR 0x80, CHR 0x80]]"

function strip :: "string list \<Rightarrow> string \<Rightarrow> string" where
  "strip ws s =
     (case List.find (\<lambda>w. w \<noteq> [] \<and> HasPrefix s w) ws of
        None \<Rightarrow> s
      | Some w \<Rightarrow> strip ws (drop (length w) s))"
  by pat_completeness auto
termination
proof (relation "measure (\<lambda>(ws, s). length s)", simp)
  fix ws s w
  assume "List.find (\<lambda>w. w \<noteq> [] \<and> HasPrefix s w) ws = Some w"
  then have "w \<noteq> []" and "HasPrefix s w"
    by (auto dest: find_SomeD)
  then show "((ws, drop (length w) s), (ws, s)) \<in> measure (\<lambda>(ws, s). length s)"
    by (auto simp: HasPrefix_iff)
qed

declare strip.simps [simp del]

definition TrimLeftSpace :: "string \<Rightarrow> string" where
  "TrimLeftSpace s = strip space_runes s"

definition TrimRightSpace :: "string \<Rightarrow> string" where
  "TrimRightSpace s = rev (strip (map rev space_runes) (rev s))"

definition TrimSpace :: "string \<Rightarrow> string" where
  "TrimSpace s = TrimRightSpace (TrimLeftSpace s)"

text \<open>\<^verbatim>\<open>strings.TrimRight(s, c)\<close> for a cutset of one byte.\<close>

definition TrimRight :: "string \<Rightarrow> char \<Rightarrow> string" where
  "TrimRight s c = rev (dropWhile (\<lambda>x. x = c) (rev s))"

text \<open>\<^verbatim>\<open>strings.Trim(s, cutset)\<close> for a cutset of ASCII characters.\<close>

definition Trim :: "string \<Rightarrow> string \<Rightarrow> string" where
  "Trim s cutset = rev (dropWhile (\<lambda>x. x \<in> set cutset) (rev (dropWhile (\<lambda>x. x \<in> set cutset) s)))"

text \<open>\<^verbatim>\<open>strings.Cut\<close> at a separator of one byte, \<open>None\<close> if there is none.\<close>

definition Cut :: "string \<Rightarrow> char \<Rightarrow> (string \<times> string) option" where
  "Cut s c = (let b = dropWhile (\<lambda>x. x \<noteq> c) s in if b = [] then None else Some (takeWhile (\<lambda>x. x \<noteq> c) s, tl b))"

lemma strip_Nil [simp]: "strip ws [] = []"
  by (subst strip.simps) (auto simp: find_None_iff_all split: option.splits dest: find_SomeD)

lemma TrimSpace_Nil [simp]: "TrimSpace [] = []"
  by (simp add: TrimSpace_def TrimLeftSpace_def TrimRightSpace_def)

lemma strip_id:
  "\<forall>w\<in>set ws. w \<noteq> [] \<longrightarrow> \<not> HasPrefix s w \<Longrightarrow> strip ws s = s"
  by (subst strip.simps) (auto split: option.splits dest: find_SomeD)

text \<open>Trimming changes nothing when the ends are not white space: here, plain ASCII graphs.\<close>

definition graph_char :: "char \<Rightarrow> bool" where
  "graph_char c \<longleftrightarrow> 0x21 \<le> (of_char c :: nat) \<and> (of_char c :: nat) \<le> 0x7E"

lemma TrimLeftSpace_graph: "s \<noteq> [] \<Longrightarrow> graph_char (hd s) \<Longrightarrow> TrimLeftSpace s = s"
  unfolding TrimLeftSpace_def
  by (rule strip_id) (cases s; auto simp: space_runes_def graph_char_def)

lemma TrimRightSpace_graph:
  assumes "s \<noteq> []" and "graph_char (last s)"
  shows "TrimRightSpace s = s"
proof -
  from assms obtain t c where "s = t @ [c]" and "graph_char c"
    by (metis append_butlast_last_id)
  then have "strip (map rev space_runes) (rev s) = rev s"
    by (intro strip_id) (auto simp: space_runes_def graph_char_def)
  then show ?thesis by (simp add: TrimRightSpace_def)
qed

lemma TrimSpace_graph:
  "s \<noteq> [] \<Longrightarrow> graph_char (hd s) \<Longrightarrow> graph_char (last s) \<Longrightarrow> TrimSpace s = s"
  by (simp add: TrimSpace_def TrimLeftSpace_graph TrimRightSpace_graph)

section \<open>Case, numbers, quoting\<close>

definition lower_char :: "char \<Rightarrow> char" where
  "lower_char c = (let n = (of_char c :: nat) in if 65 \<le> n \<and> n \<le> 90 then char_of (n + 32) else c)"

definition ToLower :: "string \<Rightarrow> string" where
  "ToLower s = map lower_char s"

text \<open>\<^verbatim>\<open>strings.EqualFold\<close>, on ASCII letters.\<close>

definition EqualFold :: "string \<Rightarrow> string \<Rightarrow> bool" where
  "EqualFold s t \<longleftrightarrow> ToLower s = ToLower t"

fun nat_digits :: "nat \<Rightarrow> string" where
  "nat_digits n = (if n < 10 then [char_of (48 + n)]
                   else nat_digits (n div 10) @ [char_of (48 + n mod 10)])"

declare nat_digits.simps [simp del]

definition Itoa :: "int \<Rightarrow> string" where
  "Itoa i = (if i < 0 then CHR ''-'' # nat_digits (nat (- i)) else nat_digits (nat i))"

definition hex_digit :: "nat \<Rightarrow> char" where
  "hex_digit n = ''0123456789abcdef'' ! (n mod 16)"

text \<open>\<^verbatim>\<open>hex.EncodeToString\<close>.\<close>

definition hexEncode :: "8 word list \<Rightarrow> string" where
  "hexEncode b = concat (map (\<lambda>x. [hex_digit (unat x div 16), hex_digit (unat x)]) b)"

lemma length_hexEncode [simp]: "length (hexEncode b) = 2 * length b"
  by (induction b) (simp_all add: hexEncode_def)

definition quote_char :: "char \<Rightarrow> string" where
  "quote_char c = (let n = (of_char c :: nat) in
     if c = CHR 0x22 then [CHR 0x5C, CHR 0x22]
     else if c = CHR 0x5C then [CHR 0x5C, CHR 0x5C]
     else if n = 7 then [CHR 0x5C, CHR ''a''] else if n = 8 then [CHR 0x5C, CHR ''b'']
     else if n = 9 then [CHR 0x5C, CHR ''t''] else if n = 10 then [CHR 0x5C, CHR ''n'']
     else if n = 11 then [CHR 0x5C, CHR ''v''] else if n = 12 then [CHR 0x5C, CHR ''f'']
     else if n = 13 then [CHR 0x5C, CHR ''r'']
     else if n < 32 \<or> n = 127 then [CHR 0x5C, CHR ''x'', hex_digit (n div 16), hex_digit n]
     else [c])"

text \<open>\<^verbatim>\<open>fmt.Sprintf("%q", s)\<close>.\<close>

definition Quote :: "string \<Rightarrow> string" where
  "Quote s = [CHR 0x22] @ concat (map quote_char s) @ [CHR 0x22]"

lemma Itoa_nonempty [simp]: "Itoa i \<noteq> []"
proof -
  have "nat_digits n \<noteq> []" for n by (subst nat_digits.simps) simp
  then show ?thesis by (simp add: Itoa_def)
qed

lemma Quote_nonempty [simp]: "Quote s \<noteq> []"
  by (simp add: Quote_def)

end
