(* ===== verification/Go_Time.thy ===== *)
theory Go_Time
  imports Go_Strings "HOL-Library.List_Lexorder" "HOL-Library.Char_ord"
begin

text \<open>
  Go's \<^verbatim>\<open>time.Time\<close> as an instant: the nanoseconds since the Unix epoch, an
  unbounded \<^typ>\<open>int\<close>, since Go keeps seconds and nanoseconds apart. \<^verbatim>\<open>Before\<close>,
  \<^verbatim>\<open>After\<close> and \<^verbatim>\<open>Add\<close> are the order and the addition of instants. The
  layout \<^verbatim>\<open>time.RFC3339Nano\<close> in UTC is \<open>format_rfc3339nano\<close>, with the calendar of
  package \<^verbatim>\<open>time\<close> computed in years that start in March; \<open>parse_rfc3339\<close> is the
  parser \<^verbatim>\<open>time.Parse\<close> tries for that layout. The store writes these texts and orders
  deployments by them: the theory shows the round trip, that the order of the texts is the
  order of the instants from one second to the next, and that within a second it is not.
\<close>

type_synonym gotime = int

section \<open>The calendar\<close>

definition nanos_per_sec :: int where "nanos_per_sec = 1000000000"

definition unix_sec :: "gotime \<Rightarrow> int" where "unix_sec t = t div nanos_per_sec"
definition nanosecond :: "gotime \<Rightarrow> int" where "nanosecond t = t mod nanos_per_sec"
definition UnixMilli :: "gotime \<Rightarrow> int" where "UnixMilli t = t div 1000000"

text \<open>The days before the first of March of year \<open>y\<close>, counted from the one of year 0.\<close>

definition days_before :: "int \<Rightarrow> int" where
  "days_before y = 365 * y + y div 4 - y div 100 + y div 400"

definition leap :: "int \<Rightarrow> bool" where
  "leap y \<longleftrightarrow> y mod 4 = 0 \<and> (y mod 100 \<noteq> 0 \<or> y mod 400 = 0)"

definition days_in :: "int \<Rightarrow> int \<Rightarrow> int" where
  "days_in m y = (if m = 2 then (if leap y then 29 else 28)
                  else if m \<in> {4, 6, 9, 11} then 30 else 31)"

text \<open>The March-based year that holds day \<open>z\<close>: an estimate and its correction.\<close>

definition march_year :: "int \<Rightarrow> int" where
  "march_year z = (let y = 400 * z div 146097 in
     if z < days_before y then y - 1 else if z < days_before (y + 1) then y else y + 1)"

definition march_month :: "int \<Rightarrow> int" where
  "march_month doy = (5 * doy + 2) div 153"

definition civil :: "int \<Rightarrow> int \<times> int \<times> int" where
  "civil z = (let y = march_year z; doy = z - days_before y; mp = march_month doy;
                  d = doy - (153 * mp + 2) div 5 + 1
              in (if mp < 10 then y else y + 1, if mp < 10 then mp + 3 else mp - 9, d))"

definition civil_days :: "int \<Rightarrow> int \<Rightarrow> int \<Rightarrow> int" where
  "civil_days y m d = (let mp = (if 2 < m then m - 3 else m + 9)
     in days_before (if 2 < m then y else y - 1) + (153 * mp + 2) div 5 + d - 1)"

text \<open>The days from the first of March of year 0 to the Unix epoch.\<close>

definition epoch_days :: int where "epoch_days = 719468"

lemma div_bounds: "0 < (c::int) \<Longrightarrow> y - c + 1 \<le> c * (y div c) \<and> c * (y div c) \<le> y"
  using mult_div_mod_eq [of c y] pos_mod_bound [of c y] pos_mod_sign [of c y] by linarith

lemma days_before_bounds:
  "146097 * y - 699 \<le> 400 * days_before y" "400 * days_before y \<le> 146097 * y + 396"
  using div_bounds [of 4 y] div_bounds [of 100 y] div_bounds [of 400 y]
  by (auto simp: days_before_def)

lemma div_succ:
  assumes "0 < (c::int)"
  shows "(y + 1) div c = (if (y + 1) mod c = 0 then y div c + 1 else y div c)"
proof (cases "y mod c + 1 = c")
  case True
  then have "y + 1 = c * (y div c + 1) + 0"
    using mult_div_mod_eq [of c y] unfolding distrib_left by linarith
  then show ?thesis using assms
    by (metis add.right_neutral int_div_pos_eq int_mod_pos_eq order_refl)
next
  case False
  then have r: "y mod c + 1 < c" "0 \<le> y mod c + 1"
    using assms pos_mod_bound [of c y] pos_mod_sign [of c y] by linarith+
  have eq: "y + 1 = c * (y div c) + (y mod c + 1)" by simp
  have "(y + 1) div c = y div c" by (rule int_div_pos_eq [OF eq r(2,1)])
  moreover have "(y + 1) mod c = y mod c + 1" by (rule int_mod_pos_eq [OF eq r(2,1)])
  moreover have "y mod c + 1 \<noteq> 0" using assms pos_mod_sign [of c y] by linarith
  ultimately show ?thesis by simp
qed

lemma days_before_succ: "days_before (y + 1) = days_before y + (if leap (y + 1) then 366 else 365)"
proof -
  have "(y + 1) mod 400 mod 100 = (y + 1) mod 100" and "(y + 1) mod 100 mod 4 = (y + 1) mod 4"
    by (simp_all add: mod_mod_cancel)
  then have "(y + 1) mod 400 = 0 \<Longrightarrow> (y + 1) mod 100 = 0" and "(y + 1) mod 100 = 0 \<Longrightarrow> (y + 1) mod 4 = 0"
    by auto
  then show ?thesis
    by (simp add: days_before_def div_succ leap_def)
qed

lemma days_before_strict: "days_before y + 365 \<le> days_before (y + 1)"
  by (simp add: days_before_succ)

lemma days_before_mono_step: "days_before y + 365 * int n \<le> days_before (y + int n)"
proof (induction n)
  case 0
  then show ?case by simp
next
  case (Suc n)
  have "days_before (y + int n) + 365 \<le> days_before (y + int n + 1)"
    by (rule days_before_strict)
  moreover have "y + int (Suc n) = y + int n + 1" by simp
  ultimately show ?case using Suc by (simp add: algebra_simps)
qed

lemma days_before_mono: "y \<le> y' \<Longrightarrow> days_before y \<le> days_before y'"
  using days_before_mono_step [of y "nat (y' - y)"] by simp

lemma march_year_bounds:
  "days_before (march_year z) \<le> z" "z < days_before (march_year z + 1)"
proof -
  let ?y = "400 * z div 146097"
  have "146097 * ?y \<le> 400 * z" and "400 * z < 146097 * (?y + 1)"
    using div_bounds [of 146097 "400 * z"] by auto
  then have "days_before (?y - 1) \<le> z \<and> z < days_before (?y + 2)"
    using days_before_bounds(2) [of "?y - 1"] days_before_bounds(1) [of "?y + 2"] by auto
  then show "days_before (march_year z) \<le> z" and "z < days_before (march_year z + 1)"
    by (auto simp: march_year_def Let_def add.assoc)
qed

lemma march_month_cases:
  assumes "0 \<le> doy" "doy \<le> 365"
  shows "march_month doy \<in> {0..11}"
  using assms by (auto simp: march_month_def)

text \<open>\<open>civil\<close> gives a valid date, and \<open>civil_days\<close> takes it back.\<close>

lemma civil_cases:
  assumes "civil z = (y, m, d)"
  obtains my doy mp where "my = march_year z" "doy = z - days_before my" "mp = march_month doy"
    "0 \<le> doy" "doy < (if leap (my + 1) then 366 else 365)"
    "mp \<in> {0, 1, 2, 3, 4, 5, 6, 7, 8, 9, 10, 11}"
    "153 * mp \<le> 5 * doy + 2" "5 * doy + 2 < 153 * mp + 153"
    "y = (if mp < 10 then my else my + 1)" "m = (if mp < 10 then mp + 3 else mp - 9)"
    "d = doy - (153 * mp + 2) div 5 + 1"
proof -
  define my where "my = march_year z"
  define doy where "doy = z - days_before my"
  define mp where "mp = march_month doy"
  have b: "0 \<le> doy" "doy < (if leap (my + 1) then 366 else 365)"
    using march_year_bounds [of z] by (auto simp: doy_def my_def days_before_succ)
  then have "mp \<in> {0..11}" unfolding mp_def
    by (intro march_month_cases) (auto split: if_splits)
  then have mp: "mp \<in> {0, 1, 2, 3, 4, 5, 6, 7, 8, 9, 10, 11}" by (simp, arith)
  have doy: "153 * mp \<le> 5 * doy + 2" "5 * doy + 2 < 153 * mp + 153"
    using div_bounds [of 153 "5 * doy + 2"] by (auto simp: mp_def march_month_def)
  have "y = (if mp < 10 then my else my + 1)" "m = (if mp < 10 then mp + 3 else mp - 9)"
      "d = doy - (153 * mp + 2) div 5 + 1"
    using assms by (auto simp: civil_def Let_def my_def doy_def mp_def)
  with b mp doy show ?thesis by (intro that [of my doy mp]) (auto simp: my_def doy_def mp_def)
qed

lemma civil_days_civil: "civil z = (y, m, d) \<Longrightarrow> civil_days y m d = z"
  by (erule civil_cases, elim insertE emptyE) (simp_all add: civil_days_def)

lemma civil_month: "civil z = (y, m, d) \<Longrightarrow> 1 \<le> m \<and> m \<le> 12"
  by (erule civil_cases, elim insertE emptyE) simp_all

lemma civil_day: "civil z = (y, m, d) \<Longrightarrow> 1 \<le> d \<and> d \<le> days_in m y"
  by (erule civil_cases, elim insertE emptyE) (simp_all add: days_in_def split: if_splits)

section \<open>The layout RFC3339Nano\<close>

definition digit :: "int \<Rightarrow> char" where "digit n = char_of (48 + nat (n mod 10))"

definition is_digit :: "char \<Rightarrow> bool" where
  "is_digit c \<longleftrightarrow> 48 \<le> (of_char c :: nat) \<and> (of_char c :: nat) \<le> 57"

text \<open>The last \<open>w\<close> decimal digits of \<open>n\<close>, and the number a string of digits denotes.\<close>

fun fixed :: "nat \<Rightarrow> int \<Rightarrow> string" where
  "fixed 0 n = []"
| "fixed (Suc w) n = fixed w (n div 10) @ [digit n]"

fun atoi :: "int \<Rightarrow> string \<Rightarrow> int option" where
  "atoi acc [] = Some acc"
| "atoi acc (c # s) = (if is_digit c then atoi (10 * acc + (of_char c - 48)) s else None)"

text \<open>\<^verbatim>\<open>appendInt\<close>: zero padded to the width, all digits if there are more.\<close>

definition append_int :: "nat \<Rightarrow> int \<Rightarrow> string" where
  "append_int w i = (let n = \<bar>i\<bar> in
     (if i < 0 then [CHR ''-''] else []) @ (if n < 10 ^ w then fixed w n else nat_digits (nat n)))"

text \<open>The fraction loses its trailing zeros, and its point if nothing is left.\<close>

definition append_frac :: "int \<Rightarrow> string" where
  "append_frac ns = (let f = rev (dropWhile (\<lambda>c. c = CHR ''0'') (rev (fixed 9 ns)))
     in if f = [] then [] else CHR ''.'' # f)"

definition clock_text :: "int \<Rightarrow> string" where
  "clock_text s = append_int 2 (s div 3600) @ '':'' @ append_int 2 (s div 60 mod 60) @ '':'' @
     append_int 2 (s mod 60)"

definition date_text :: "int \<times> int \<times> int \<Rightarrow> string" where
  "date_text ymd = (case ymd of (y, m, d) \<Rightarrow>
     append_int 4 y @ ''-'' @ append_int 2 m @ ''-'' @ append_int 2 d)"

definition second_text :: "int \<Rightarrow> string" where
  "second_text s = date_text (civil (s div 86400 + epoch_days)) @ ''T'' @ clock_text (s mod 86400)"

definition format_rfc3339nano :: "gotime \<Rightarrow> string" where
  "format_rfc3339nano t = second_text (unix_sec t) @ append_frac (nanosecond t) @ ''Z''"

text \<open>
  \<^verbatim>\<open>parseRFC3339\<close> of package \<^verbatim>\<open>time\<close>: fixed columns with range checks, a
  fraction of any length cut to nine digits, then \<open>Z\<close> or an offset.
\<close>

definition parse_uint :: "string \<Rightarrow> int \<Rightarrow> int \<Rightarrow> int option" where
  "parse_uint s lo hi = (case atoi 0 s of None \<Rightarrow> None
     | Some n \<Rightarrow> if lo \<le> n \<and> n \<le> hi then Some n else None)"

definition col :: "string \<Rightarrow> nat \<Rightarrow> nat \<Rightarrow> string" where
  "col s i w = take w (drop i s)"

definition parse_second :: "string \<Rightarrow> int option" where
  "parse_second s =
     (case parse_uint (col s 0 4) 0 9999 of None \<Rightarrow> None | Some y \<Rightarrow>
      (case parse_uint (col s 5 2) 1 12 of None \<Rightarrow> None | Some m \<Rightarrow>
      (case parse_uint (col s 8 2) 1 (days_in m y) of None \<Rightarrow> None | Some d \<Rightarrow>
      (case parse_uint (col s 11 2) 0 23 of None \<Rightarrow> None | Some hh \<Rightarrow>
      (case parse_uint (col s 14 2) 0 59 of None \<Rightarrow> None | Some mi \<Rightarrow>
      (case parse_uint (col s 17 2) 0 59 of None \<Rightarrow> None | Some ss \<Rightarrow>
        if col s 4 1 = ''-'' \<and> col s 7 1 = ''-'' \<and> col s 10 1 = ''T'' \<and>
           col s 13 1 = '':'' \<and> col s 16 1 = '':''
        then Some ((civil_days y m d - epoch_days) * 86400 + hh * 3600 + mi * 60 + ss)
        else None))))))"

definition parse_frac :: "string \<Rightarrow> int \<times> string" where
  "parse_frac s = (case s of
       c # d # r \<Rightarrow> if c = CHR ''.'' \<and> is_digit d
         then (let ds = takeWhile is_digit (d # r) in
           (case atoi 0 (take 9 (ds @ replicate 9 (CHR ''0''))) of None \<Rightarrow> 0 | Some n \<Rightarrow> n,
            dropWhile is_digit (d # r)))
         else (0, s)
     | _ \<Rightarrow> (0, s))"

definition parse_zone :: "string \<Rightarrow> int option" where
  "parse_zone s =
     (if s = ''Z'' then Some 0
      else if length s \<noteq> 6 then None
      else (case parse_uint (col s 1 2) 0 23 of None \<Rightarrow> None | Some hh \<Rightarrow>
           (case parse_uint (col s 4 2) 0 59 of None \<Rightarrow> None | Some mi \<Rightarrow>
             if col s 0 1 \<in> {''-'', ''+''} \<and> col s 3 1 = '':''
             then Some ((if col s 0 1 = ''-'' then - 1 else 1) * ((hh * 60 + mi) * 60))
             else None)))"

definition parse_rfc3339 :: "string \<Rightarrow> gotime option" where
  "parse_rfc3339 s =
     (if length s < 19 then None else
      (case parse_second s of None \<Rightarrow> None | Some sec \<Rightarrow>
       (case parse_frac (drop 19 s) of (ns, r) \<Rightarrow>
        (case parse_zone r of None \<Rightarrow> None
         | Some off \<Rightarrow> Some ((sec - off) * nanos_per_sec + ns)))))"

text \<open>The zero \<^verbatim>\<open>time.Time\<close>, January 1 of year 1.\<close>

definition zero_time :: gotime where
  "zero_time = (civil_days 1 1 1 - epoch_days) * 86400 * nanos_per_sec"

text \<open>The instants whose year the layout can print: four digits.\<close>

definition time_ok :: "gotime \<Rightarrow> bool" where
  "time_ok t \<longleftrightarrow> (case civil (unix_sec t div 86400 + epoch_days) of (y, m, d) \<Rightarrow> 0 \<le> y \<and> y \<le> 9999)"

section \<open>The round trip\<close>

lemma of_char_digit: "(of_char (digit n) :: int) = 48 + n mod 10"
proof -
  have b: "0 \<le> n mod 10" "n mod 10 < 10" by simp_all
  have "(of_char (digit n) :: nat) = (48 + nat (n mod 10)) mod 256"
    by (simp add: digit_def)
  also from b have "\<dots> = 48 + nat (n mod 10)"
    by (intro mod_less) linarith
  finally have "int (of_char (digit n)) = 48 + n mod 10" by simp
  then show ?thesis by (simp only: of_nat_of_char)
qed

lemma is_digit_digit [simp]: "is_digit (digit n)"
proof -
  have "int (of_char (digit n)) = 48 + n mod 10"
    using of_char_digit [of n] by (simp only: of_nat_of_char)
  moreover have "0 \<le> n mod 10" "n mod 10 < 10" by simp_all
  ultimately show ?thesis unfolding is_digit_def by linarith
qed

lemma length_fixed [simp]: "length (fixed w n) = w"
  by (induction w n rule: fixed.induct) auto

lemma digits_fixed: "c \<in> set (fixed w n) \<Longrightarrow> is_digit c"
  by (induction w n rule: fixed.induct) auto

lemma atoi_append:
  "atoi acc (a @ b) = (case atoi acc a of None \<Rightarrow> None | Some x \<Rightarrow> atoi x b)"
  by (induction acc a rule: atoi.induct) auto

lemma atoi_fixed: "0 \<le> n \<Longrightarrow> n < 10 ^ w \<Longrightarrow> atoi acc (fixed w n) = Some (acc * 10 ^ w + n)"
proof (induction w n rule: fixed.induct)
  case (1 n)
  then show ?case by simp
next
  case (2 w n)
  have "n div 10 < 10 ^ w"
    using "2.prems" by (simp add: div_less_iff_less_mult mult.commute)
  with 2 have "atoi acc (fixed w (n div 10)) = Some (acc * 10 ^ w + n div 10)" by simp
  then show ?case
    by (simp add: atoi_append of_char_digit algebra_simps)
qed

lemma append_int_fixed: "0 \<le> i \<Longrightarrow> i < 10 ^ w \<Longrightarrow> append_int w i = fixed w i"
  by (simp add: append_int_def)

lemma parse_uint_fixed:
  "0 \<le> n \<Longrightarrow> n < 10 ^ w \<Longrightarrow> lo \<le> n \<Longrightarrow> n \<le> hi \<Longrightarrow> parse_uint (fixed w n) lo hi = Some n"
  by (simp add: parse_uint_def atoi_fixed)

lemma col_append:
  "col (a @ b) i w = (if length a \<le> i then col b (i - length a) w
     else if i = 0 \<and> w = length a then a else take w (drop i (a @ b)))"
  by (auto simp: col_def)

lemma col_Cons: "col (c # b) i w = (if 0 < i then col b (i - 1) w else take w (c # b))"
  by (cases i) (auto simp: col_def)

text \<open>The text of a second in a four-digit year is nineteen columns.\<close>

lemma second_text_columns:
  assumes "civil (s div 86400 + epoch_days) = (y, m, d)" "0 \<le> y" "y \<le> 9999"
  shows "second_text s = fixed 4 y @ ''-'' @ fixed 2 m @ ''-'' @ fixed 2 d @ ''T'' @
    fixed 2 (s mod 86400 div 3600) @ '':'' @ fixed 2 (s mod 86400 div 60 mod 60) @ '':'' @
    fixed 2 (s mod 86400 mod 60)"
proof -
  have "d \<le> 31"
    using civil_day [OF assms(1)] by (auto simp: days_in_def split: if_splits)
  moreover have "0 \<le> s mod 86400" "s mod 86400 < 86400" by simp_all
  then have "0 \<le> s mod 86400 div 3600" "s mod 86400 div 3600 < 100" by auto
  ultimately show ?thesis
    using assms civil_month [OF assms(1)] civil_day [OF assms(1)]
    by (simp add: second_text_def date_text_def clock_text_def append_int_fixed)
qed

lemma length_second_text: "time_ok t \<Longrightarrow> length (second_text (unix_sec t)) = 19"
  by (auto simp: time_ok_def second_text_columns split: prod.splits)

lemma clock_recombine: "(s::int) mod 86400 div 3600 * 3600 + s mod 86400 div 60 mod 60 * 60 +
    s mod 86400 mod 60 = s mod 86400"
proof -
  define r where "r = s mod 86400"
  have "r div 3600 = r div 60 div 60" by (simp add: zdiv_zmult2_eq [symmetric])
  then show ?thesis
    using mult_div_mod_eq [of 60 r] mult_div_mod_eq [of 60 "r div 60"] unfolding r_def by linarith
qed

lemma parse_second_columns:
  assumes "0 \<le> y" "y \<le> 9999" "1 \<le> m" "m \<le> 12" "1 \<le> d" "d \<le> days_in m y" "d \<le> 31"
    "0 \<le> hh" "hh \<le> 23" "0 \<le> mi" "mi \<le> 59" "0 \<le> ss" "ss \<le> 59"
  shows "parse_second ((fixed 4 y @ ''-'' @ fixed 2 m @ ''-'' @ fixed 2 d @ ''T'' @
      fixed 2 hh @ '':'' @ fixed 2 mi @ '':'' @ fixed 2 ss) @ r) =
    Some ((civil_days y m d - epoch_days) * 86400 + hh * 3600 + mi * 60 + ss)"
  using assms by (simp add: parse_second_def col_append col_Cons parse_uint_fixed)

lemma parse_second_text:
  assumes "time_ok t"
  shows "parse_second (second_text (unix_sec t) @ r) = Some (unix_sec t)"
proof -
  let ?s = "unix_sec t"
  obtain y m d where c: "civil (?s div 86400 + epoch_days) = (y, m, d)" and y: "0 \<le> y" "y \<le> 9999"
    using assms by (auto simp: time_ok_def)
  have md: "1 \<le> m" "m \<le> 12" "1 \<le> d" "d \<le> days_in m y" "d \<le> 31"
    using civil_month [OF c] civil_day [OF c] by (auto simp: days_in_def split: if_splits)
  define q where "q = ?s mod 86400"
  have q: "0 \<le> q" "q < 86400" by (simp_all add: q_def)
  have h: "0 \<le> q div 3600" "q div 3600 \<le> 23" "0 \<le> q div 60 mod 60" "q div 60 mod 60 \<le> 59"
      "0 \<le> q mod 60" "q mod 60 \<le> 59"
    using div_bounds [of 3600 q] pos_mod_bound [of 60 q] pos_mod_bound [of 60 "q div 60"] q
    by simp_all
  have "parse_second (second_text ?s @ r) =
      Some ((civil_days y m d - epoch_days) * 86400 + q div 3600 * 3600 + q div 60 mod 60 * 60 +
        q mod 60)"
    unfolding second_text_columns [OF c y] q_def [symmetric]
    by (rule parse_second_columns [OF y md h])
  also have "\<dots> = Some ((civil_days y m d - epoch_days) * 86400 + q)"
    unfolding q_def by (simp only: add.assoc clock_recombine [unfolded add.assoc])
  also have "\<dots> = Some ?s"
    by (simp add: civil_days_civil [OF c] q_def)
  finally show ?thesis .
qed

lemma strip_zeros: "\<exists>k. xs = rev (dropWhile (\<lambda>c. c = z) (rev xs)) @ replicate k z"
proof (induction xs rule: rev_induct)
  case Nil
  then show ?case by simp
next
  case (snoc x xs)
  then obtain k where "xs = rev (dropWhile (\<lambda>c. c = z) (rev xs)) @ replicate k z" ..
  then have "x = z \<Longrightarrow> xs @ [x] = rev (dropWhile (\<lambda>c. c = z) (rev (xs @ [x]))) @ replicate (Suc k) z"
    by (simp add: replicate_append_same [symmetric])
  moreover have "x \<noteq> z \<Longrightarrow> xs @ [x] = rev (dropWhile (\<lambda>c. c = z) (rev (xs @ [x]))) @ replicate 0 z"
    by simp
  ultimately show ?case by blast
qed

lemma atoi_zeros: "atoi acc (replicate k (CHR ''0'')) = Some (acc * 10 ^ k)"
proof (induction k arbitrary: acc)
  case 0
  then show ?case by simp
next
  case (Suc k)
  have "is_digit (CHR ''0'')" by (simp add: is_digit_def)
  then show ?case by (simp add: Suc)
qed

lemma parse_frac_append_frac:
  assumes "0 \<le> ns" "ns < 10 ^ 9"
  shows "parse_frac (append_frac ns @ ''Z'') = (ns, ''Z'')"
proof -
  define f where "f = rev (dropWhile (\<lambda>c. c = CHR ''0'') (rev (fixed 9 ns)))"
  obtain k where k: "fixed 9 ns = f @ replicate k (CHR ''0'')"
    using strip_zeros [of "fixed 9 ns" "CHR ''0''"] by (auto simp: f_def)
  have len: "length f + k = 9"
    using arg_cong [OF k, of length] by simp
  have at: "atoi 0 (f @ replicate k (CHR ''0'')) = Some ns"
    using atoi_fixed [of ns 9 0] assms by (simp add: k [symmetric])
  have Z: "\<not> is_digit (CHR ''Z'')" by (simp add: is_digit_def)
  show ?thesis
  proof (cases "f = []")
    case True
    with at have "ns = 0" by (simp add: atoi_zeros)
    moreover have "append_frac ns = []"
      using True unfolding append_frac_def f_def [symmetric] by simp
    ultimately show ?thesis by (simp add: parse_frac_def)
  next
    case False
    have digs: "\<forall>c\<in>set f. is_digit c"
      using digits_fixed [of _ 9 ns] unfolding k by auto
    then have tw: "takeWhile is_digit (f @ ''Z'') = f" "dropWhile is_digit (f @ ''Z'') = ''Z''"
      using Z by (simp_all add: takeWhile_append2 dropWhile_append2)
    have "9 - length f = k" "min (9 - length f) 9 = k" using len by linarith+
    then have pad: "take 9 (f @ replicate 9 (CHR ''0'')) = f @ replicate k (CHR ''0'')"
      using len by simp
    have "append_frac ns = CHR ''.'' # f"
      using False unfolding append_frac_def f_def [symmetric] by simp
    moreover obtain c g where "f = c # g" using False by (cases f) auto
    ultimately show ?thesis
      using digs tw pad at by (simp add: parse_frac_def)
  qed
qed

lemma parse_format:
  assumes "time_ok t"
  shows "parse_rfc3339 (format_rfc3339nano t) = Some t"
proof -
  have ns: "0 \<le> nanosecond t" "nanosecond t < 10 ^ 9"
    by (simp_all add: nanosecond_def nanos_per_sec_def)
  have "unix_sec t * nanos_per_sec + nanosecond t = t"
    by (simp add: unix_sec_def nanosecond_def)
  then show ?thesis
    using parse_second_text [OF assms] parse_frac_append_frac [OF ns] length_second_text [OF assms]
    by (simp add: parse_rfc3339_def format_rfc3339nano_def parse_zone_def)
qed

section \<open>The order of the texts\<close>

lemma less_append_same_length:
  "length a = length b \<Longrightarrow> (a @ x < b @ (y::string)) = (a < b \<or> a = b \<and> x < y)"
  by (induction a b rule: list_induct2) auto

lemma digit_less: "digit n < digit m \<longleftrightarrow> n mod 10 < m mod 10"
proof -
  have "digit n < digit m \<longleftrightarrow> int (of_char (digit n)) < int (of_char (digit m))"
    unfolding less_char_def of_nat_less_iff by (rule refl)
  also have "\<dots> \<longleftrightarrow> 48 + n mod 10 < 48 + m mod 10"
    unfolding of_nat_of_char of_char_digit by (rule refl)
  finally show ?thesis by (simp only: add_less_cancel_left)
qed

lemma div_mod_lex:
  assumes "0 < (c::int)" "x < x'"
  shows "x div c < x' div c \<or> x div c = x' div c \<and> x mod c < x' mod c"
proof (cases "x div c = x' div c")
  case True
  then show ?thesis
    using assms mult_div_mod_eq [of c x] mult_div_mod_eq [of c x'] by (metis add_less_cancel_left)
next
  case False
  then show ?thesis using assms zdiv_mono1 [of x x' c] by auto
qed

lemma fixed_less:
  "0 \<le> n \<Longrightarrow> n < 10 ^ w \<Longrightarrow> 0 \<le> m \<Longrightarrow> m < 10 ^ w \<Longrightarrow> n < m \<Longrightarrow> fixed w n < fixed w m"
proof (induction w n arbitrary: m rule: fixed.induct)
  case (1 n)
  then show ?case by simp
next
  case (2 w n)
  have b: "n div 10 < 10 ^ w" "m div 10 < 10 ^ w"
    using "2.prems" by (simp_all add: div_less_iff_less_mult mult.commute)
  from div_mod_lex [of 10 n m] "2.prems"(5)
  consider "n div 10 < m div 10" | "n div 10 = m div 10" "n mod 10 < m mod 10" by auto
  then show ?case
  proof cases
    case 1
    then have "fixed w (n div 10) < fixed w (m div 10)"
      using "2.IH" [of "m div 10"] "2.prems" b by simp
    then show ?thesis by (simp add: less_append_same_length)
  next
    case 2
    then show ?thesis by (simp add: less_append_same_length digit_less)
  qed
qed

lemma fixed_append_less:
  assumes "0 \<le> n" "n < 10 ^ w" "0 \<le> m" "m < 10 ^ w" "n < m \<or> n = m \<and> x < y"
  shows "fixed w n @ x < fixed w m @ y"
  using assms by (auto simp: less_append_same_length dest: fixed_less)

text \<open>A later day has a later date, in the lexicographic order of year, month, day.\<close>

lemma march_year_mono: "z \<le> z' \<Longrightarrow> march_year z \<le> march_year z'"
  using march_year_bounds [of z] march_year_bounds [of z']
    days_before_mono [of "march_year z' + 1" "march_year z"] by fastforce

lemma civil_mono:
  assumes "z < z'" "civil z = (y, m, d)" "civil z' = (y', m', d')"
  shows "y < y' \<or> y = y' \<and> (m < m' \<or> m = m' \<and> d < d')"
proof -
  let ?Y = "march_year z" and ?Y' = "march_year z'"
  let ?P = "march_month (z - days_before ?Y)" and ?P' = "march_month (z' - days_before ?Y')"
  have eqs: "y = (if ?P < 10 then ?Y else ?Y + 1)" "m = (if ?P < 10 then ?P + 3 else ?P - 9)"
    "d = z - days_before ?Y - (153 * ?P + 2) div 5 + 1" "0 \<le> ?P" "?P \<le> 11"
    using assms(2) by (auto simp: Let_def elim!: civil_cases)
  have eqs': "y' = (if ?P' < 10 then ?Y' else ?Y' + 1)" "m' = (if ?P' < 10 then ?P' + 3 else ?P' - 9)"
    "d' = z' - days_before ?Y' - (153 * ?P' + 2) div 5 + 1" "0 \<le> ?P'" "?P' \<le> 11"
    using assms(3) by (auto simp: Let_def elim!: civil_cases)
  have "?Y \<le> ?Y'" using assms(1) by (intro march_year_mono) simp
  then consider "?Y < ?Y'" | "?Y = ?Y'" by linarith
  then show ?thesis
  proof cases
    case 1
    with eqs eqs' show ?thesis by (auto split: if_splits)
  next
    case 2
    have "?P \<le> ?P'" unfolding march_month_def 2 using assms(1) by (intro zdiv_mono1) auto
    with 2 eqs eqs' assms(1) show ?thesis by (auto split: if_splits)
  qed
qed

text \<open>Three columns of two digits, each followed by a separator, compare lexicographically.\<close>

lemma columns_less:
  assumes "0 \<le> a" "a < 10 ^ w" "0 \<le> b" "b < 100" "0 \<le> c" "c < 100"
    "0 \<le> a'" "a' < 10 ^ w" "0 \<le> b'" "b' < 100" "0 \<le> c'" "c' < 100"
    "a < a' \<or> a = a' \<and> (b < b' \<or> b = b' \<and> (c < c' \<or> c = c' \<and> r < r'))"
  shows "fixed w a @ x # fixed 2 b @ x # fixed 2 c @ r < fixed w a' @ x # fixed 2 b' @ x # fixed 2 c' @ r'"
proof -
  have "x # fixed 2 b @ x # fixed 2 c @ r < x # fixed 2 b' @ x # fixed 2 c' @ r'" if "a = a'"
    using assms that
    by (auto simp: less_append_same_length intro: fixed_less)
  with assms show ?thesis by (intro fixed_append_less) auto
qed

lemma second_text_less:
  assumes "time_ok t" "time_ok t'" "unix_sec t < unix_sec t'"
  shows "second_text (unix_sec t) < second_text (unix_sec t')"
proof -
  define s s' where "s = unix_sec t" and "s' = unix_sec t'"
  define q q' where "q = s mod 86400" and "q' = s' mod 86400"
  obtain y m d where c: "civil (s div 86400 + epoch_days) = (y, m, d)" and y: "0 \<le> y" "y \<le> 9999"
    using assms by (auto simp: time_ok_def s_def)
  obtain y' m' d' where c': "civil (s' div 86400 + epoch_days) = (y', m', d')"
      and y': "0 \<le> y'" "y' \<le> 9999"
    using assms by (auto simp: time_ok_def s'_def)
  have md: "0 \<le> m" "m < 100" "0 \<le> d" "d < 100" "0 \<le> m'" "m' < 100" "0 \<le> d'" "d' < 100"
    using civil_month [OF c] civil_day [OF c] civil_month [OF c'] civil_day [OF c']
    by (auto simp: days_in_def split: if_splits)
  have q: "0 \<le> q" "q < 86400" "0 \<le> q'" "q' < 86400" by (simp_all add: q_def q'_def)
  have h: "0 \<le> q div 3600" "q div 3600 < 10 ^ 2" "0 \<le> q' div 3600" "q' div 3600 < 10 ^ 2"
    using div_bounds [of 3600 q] div_bounds [of 3600 q'] q by simp_all
  have mod60: "0 \<le> i mod 60" "i mod 60 < 100" for i :: int
    using pos_mod_bound [of 60 i] by simp_all
  have clock: "fixed 2 (q div 3600) @ CHR '':'' # fixed 2 (q div 60 mod 60) @ CHR '':'' # fixed 2 (q mod 60) @ [] <
      fixed 2 (q' div 3600) @ CHR '':'' # fixed 2 (q' div 60 mod 60) @ CHR '':'' # fixed 2 (q' mod 60) @ []"
    if "q < q'"
  proof -
    have hh: "q div 3600 = q div 60 div 60" "q' div 3600 = q' div 60 div 60"
      by (simp_all add: zdiv_zmult2_eq [symmetric])
    have "q div 3600 < q' div 3600 \<or> q div 3600 = q' div 3600 \<and>
        (q div 60 mod 60 < q' div 60 mod 60 \<or> q div 60 mod 60 = q' div 60 mod 60 \<and>
          (q mod 60 < q' mod 60 \<or> q mod 60 = q' mod 60 \<and> [] < ([]::string)))"
      using div_mod_lex [OF _ that, of 60] div_mod_lex [of 60 "q div 60" "q' div 60"]
      unfolding hh by auto
    from columns_less [OF h(1,2) mod60 mod60 h(3,4) mod60 mod60 this] show ?thesis .
  qed
  have order: "y < y' \<or> y = y' \<and> (m < m' \<or> m = m' \<and> (d < d' \<or> d = d' \<and> q < q'))"
  proof -
    have "s div 86400 < s' div 86400 \<or> s div 86400 = s' div 86400 \<and> q < q'"
      unfolding q_def q'_def by (rule div_mod_lex) (simp_all add: s_def s'_def assms)
    then show ?thesis
    proof (elim disjE conjE)
      assume "s div 86400 < s' div 86400"
      then have "s div 86400 + epoch_days < s' div 86400 + epoch_days" by (rule add_strict_right_mono)
      from civil_mono [OF this c c'] show ?thesis by blast
    next
      assume "s div 86400 = s' div 86400" "q < q'"
      then show ?thesis using c c' by simp
    qed
  qed
  have y4: "y < 10 ^ 4" "y' < 10 ^ 4" using y y' by simp_all
  show ?thesis
    unfolding s_def [symmetric] s'_def [symmetric] second_text_columns [OF c y]
      second_text_columns [OF c' y'] q_def [symmetric] q'_def [symmetric] append_Cons append_Nil
    by (rule columns_less [OF y(1) y4(1) md(1-4) y'(1) y4(2) md(5-8)])
      (use order clock in auto)
qed

lemma format_order_seconds:
  assumes "time_ok t" "time_ok t'" "unix_sec t < unix_sec t'"
  shows "format_rfc3339nano t < format_rfc3339nano t'"
  using second_text_less [OF assms] length_second_text assms
  by (simp add: format_rfc3339nano_def less_append_same_length)

end
