(* ===== verification/Common_Types.thy ===== *)
theory Common_Types
  imports Go_Time
begin

text \<open>
  The shared data of \<^verbatim>\<open>internal/common/types.go\<close> and the playbook record of the store:
  one \<^theory_text>\<open>record\<close> per Go struct, with the fields of the source behind a prefix that
  keeps the selectors apart. The Go string types for a platform, a status, a log level and an
  access policy stay strings, since requests and database rows carry arbitrary ones. A struct
  that is stored has its time fields of a type variable: \<^typ>\<open>gotime\<close> in memory, text in
  a table row. \<open>FlattenPlaybook\<close> gives the execution order of a playbook, and its global
  indices are the resume points the rest of the system is about.
\<close>

section \<open>Playbooks\<close>

record step =
  sName :: string
  sRun :: string
  sShell :: string
  sUses :: string
  sWith :: smap
  sEnv :: smap
  sContinueOnError :: bool
  sTimeoutMinutes :: int

record job =
  jName :: string
  jSteps :: "step list"

record playbook =
  pbName :: string
  pbEnv :: smap
  pbJobs :: "job list"

record ordered_step =
  osStep :: step
  osJobName :: string
  osJobIndex :: int
  osStepIndex :: int
  osGlobalIndex :: int

text \<open>The inner and the outer loop of \<^verbatim>\<open>FlattenPlaybook\<close>, with its counters.\<close>

fun flattenSteps :: "string \<Rightarrow> int \<Rightarrow> int \<Rightarrow> int \<Rightarrow> step list \<Rightarrow> ordered_step list" where
  "flattenSteps jn ji si global [] = []"
| "flattenSteps jn ji si global (s # ss) =
     \<lparr>osStep = s, osJobName = jn, osJobIndex = ji, osStepIndex = si, osGlobalIndex = global\<rparr>
     # flattenSteps jn ji (si + 1) (global + 1) ss"

fun flattenJobs :: "int \<Rightarrow> int \<Rightarrow> job list \<Rightarrow> ordered_step list" where
  "flattenJobs ji global [] = []"
| "flattenJobs ji global (j # js) =
     flattenSteps (jName j) ji 0 global (jSteps j)
     @ flattenJobs (ji + 1) (global + int (length (jSteps j))) js"

definition FlattenPlaybook :: "playbook \<Rightarrow> ordered_step list" where
  "FlattenPlaybook pb = flattenJobs 0 0 (pbJobs pb)"

section \<open>Agents, deployments, logs, artifacts, tokens\<close>

abbreviation PlatformLinux :: string where "PlatformLinux \<equiv> ''linux''"
abbreviation PlatformMac :: string where "PlatformMac \<equiv> ''mac''"
abbreviation PlatformWindows :: string where "PlatformWindows \<equiv> ''windows''"

abbreviation AgentStatusRegistered :: string where "AgentStatusRegistered \<equiv> ''registered''"
abbreviation AgentStatusConnected :: string where "AgentStatusConnected \<equiv> ''connected''"
abbreviation AgentStatusDeploying :: string where "AgentStatusDeploying \<equiv> ''deploying''"
abbreviation AgentStatusCompleted :: string where "AgentStatusCompleted \<equiv> ''completed''"
abbreviation AgentStatusFailed :: string where "AgentStatusFailed \<equiv> ''failed''"
abbreviation AgentStatusOffline :: string where "AgentStatusOffline \<equiv> ''offline''"

abbreviation DeploymentStatusPending :: string where "DeploymentStatusPending \<equiv> ''pending''"
abbreviation DeploymentStatusRunning :: string where "DeploymentStatusRunning \<equiv> ''running''"
abbreviation DeploymentStatusRebooting :: string where "DeploymentStatusRebooting \<equiv> ''rebooting''"
abbreviation DeploymentStatusCompleted :: string where "DeploymentStatusCompleted \<equiv> ''completed''"
abbreviation DeploymentStatusFailed :: string where "DeploymentStatusFailed \<equiv> ''failed''"

abbreviation LogLevelInfo :: string where "LogLevelInfo \<equiv> ''info''"
abbreviation LogLevelWarn :: string where "LogLevelWarn \<equiv> ''warn''"
abbreviation LogLevelError :: string where "LogLevelError \<equiv> ''error''"

abbreviation AccessPublic :: string where "AccessPublic \<equiv> ''public''"
abbreviation AccessAuthenticated :: string where "AccessAuthenticated \<equiv> ''authenticated''"
abbreviation AccessRestricted :: string where "AccessRestricted \<equiv> ''restricted''"

record registration_request =
  rqPlatform :: string
  rqHostname :: string
  rqModel :: string
  rqVendor :: string
  rqRegistrationSecret :: string
  rqMetadata :: smap
  rqShells :: "string list"

record 't agent =
  aID :: string
  aHostname :: string
  aPlatform :: string
  aOS :: string
  aModel :: string
  aVendor :: string
  aIPAddress :: string
  aMetadata :: smap
  aShells :: "string list"
  aStatus :: string
  aPlaybookID :: string
  aRegisteredAt :: 't
  aLastActivityAt :: 't

text \<open>
  \<^verbatim>\<open>DeploymentState\<close>: the stored columns first, then the two fields a read derives from
  the agents and the playbooks.
\<close>

record 't deployment_row =
  dID :: string
  dAgentID :: string
  dPlaybookID :: string
  dStatus :: string
  dResumeStepIndex :: int
  dStartedAt :: 't
  dUpdatedAt :: 't
  dFinishedAt :: "'t option"
  dErrorDetail :: string

record deployment_state = "gotime deployment_row" +
  dHostname :: string
  dPlaybookName :: string

record 't log_entry =
  lgDeploymentID :: string
  lgJobName :: string
  lgStepIndex :: int
  lgLevel :: string
  lgMessage :: string
  lgTimestamp :: 't

record 't artifact =
  arID :: string
  arName :: string
  arFileName :: string
  arSize :: int
  arContentType :: string
  arAccessPolicy :: string
  arAllowedAgents :: "string list"
  arUploadedAt :: 't

record 't playbook_record =
  prID :: string
  prName :: string
  prDescription :: string
  prPlaybook :: "playbook option"
  prCreatedAt :: 't
  prUpdatedAt :: 't

record 't agent_token =
  tkID :: string
  tkAgentID :: string
  tkTokenHash :: string
  tkCreatedAt :: 't
  tkExpiresAt :: "'t option"
  tkRevokedAt :: "'t option"

section \<open>WebSocket messages\<close>

record ws_playbook_data =
  wpDeploymentID :: string
  wpPlaybook :: "playbook option"
  wpResumeStepIndex :: int
  wpSecrets :: smap
  wpArtifactsBaseURL :: string

record ws_log_data =
  wlDeploymentID :: string
  wlJobName :: string
  wlStepIndex :: int
  wlLevel :: string
  wlMessage :: string

record ws_step_data =
  wsDeploymentID :: string
  wsJobName :: string
  wsStepName :: string
  wsStepIndex :: int
  wsError :: string

record ws_reboot_data =
  wrDeploymentID :: string
  wrResumeStepIndex :: int
  wrReason :: string

record ws_command_data =
  wcCmdID :: string
  wcCommand :: string
  wcShell :: string

record ws_command_chunk =
  wkCmdID :: string
  wkOutput :: string

record ws_command_status =
  wtCmdID :: string
  wtExitCode :: int
  wtError :: string

text \<open>Server to agent: the envelope's time stamp and its payload.\<close>

datatype server_msg =
    MsgPlaybook gotime ws_playbook_data
  | MsgCommand gotime ws_command_data

text \<open>
  Agent to server: the messages of the protocol, one constructor per type the agent sends
  with the payload the sources give it.
\<close>

datatype agent_msg =
    MsgLog ws_log_data
  | MsgStepStart ws_step_data
  | MsgStepComplete ws_step_data
  | MsgReboot ws_reboot_data
  | MsgDeployDone ws_step_data
  | MsgDeployFailed ws_step_data
  | MsgCommandStream ws_command_chunk
  | MsgCommandCompleted ws_command_status

text \<open>
  What the server receives is JSON of unknown origin. The envelope has a type and raw data;
  \<open>raw_data\<close> is what \<^verbatim>\<open>json.Unmarshal\<close> makes of the data for each payload struct,
  \<open>None\<close> for an error.
\<close>

record raw_data =
  asLog :: "ws_log_data option"
  asStep :: "ws_step_data option"
  asReboot :: "ws_reboot_data option"
  asChunk :: "ws_command_chunk option"
  asStatus :: "ws_command_status option"

record envelope =
  evType :: string
  evData :: raw_data

section \<open>What flattening gives\<close>

lemma length_flattenSteps [simp]: "length (flattenSteps jn ji si g ss) = length ss"
  by (induction jn ji si g ss rule: flattenSteps.induct) auto

lemma flattenSteps_steps: "map osStep (flattenSteps jn ji si g ss) = ss"
  by (induction jn ji si g ss rule: flattenSteps.induct) auto

lemma flattenSteps_jobs: "map osJobName (flattenSteps jn ji si g ss) = replicate (length ss) jn"
  by (induction jn ji si g ss rule: flattenSteps.induct) auto

lemma upto_Cons: "i \<le> j \<Longrightarrow> i # [i + 1 .. j] = [i .. j]"
  by (simp add: upto_rec1)

lemma upto_shift_append:
  "[g .. g + int n - 1] @ [g + int n .. g + int n + int m - 1] = [g .. g + int (n + m) - 1]"
  using upto_split1 [of g "g + int n" "g + int n + int m - 1"]
  by (cases "m = 0") (simp_all add: add.assoc [symmetric])

lemma flattenSteps_global:
  "map osGlobalIndex (flattenSteps jn ji si g ss) = [g .. g + int (length ss) - 1]"
  by (induction jn ji si g ss rule: flattenSteps.induct) (simp_all add: upto_Cons)

lemma flattenJobs_steps: "map osStep (flattenJobs ji g js) = concat (map jSteps js)"
  by (induction ji g js rule: flattenJobs.induct) (auto simp: flattenSteps_steps)

lemma flattenJobs_jobs:
  "map osJobName (flattenJobs ji g js) = concat (map (\<lambda>j. replicate (length (jSteps j)) (jName j)) js)"
  by (induction ji g js rule: flattenJobs.induct) (auto simp: flattenSteps_jobs)

lemma length_flattenJobs: "length (flattenJobs ji g js) = length (concat (map jSteps js))"
  using arg_cong [OF flattenJobs_steps, of length] by simp

lemma flattenJobs_global:
  "map osGlobalIndex (flattenJobs ji g js) = [g .. g + int (length (concat (map jSteps js))) - 1]"
proof (induction ji g js rule: flattenJobs.induct)
  case (1 ji g)
  then show ?case by simp
next
  case (2 ji g j js)
  then show ?case
    using upto_shift_append [of g "length (jSteps j)" "length (concat (map jSteps js))"]
    by (simp add: flattenSteps_global)
qed

lemma FlattenPlaybook_global:
  "map osGlobalIndex (FlattenPlaybook pb) = [0 .. int (length (FlattenPlaybook pb)) - 1]"
  by (simp add: FlattenPlaybook_def flattenJobs_global length_flattenJobs)

lemma FlattenPlaybook_nth:
  assumes "k < length (FlattenPlaybook pb)"
  shows "osGlobalIndex (FlattenPlaybook pb ! k) = int k"
proof -
  have "map osGlobalIndex (FlattenPlaybook pb) ! k = [0 .. int (length (FlattenPlaybook pb)) - 1] ! k"
    by (simp only: FlattenPlaybook_global)
  with assms show ?thesis by simp
qed

lemma FlattenPlaybook_steps: "map osStep (FlattenPlaybook pb) = concat (map jSteps (pbJobs pb))"
  by (simp add: FlattenPlaybook_def flattenJobs_steps)

text \<open>
  The playbooks in which the nested counters are exact: the position of a step inside its
  job, and the job it belongs to.
\<close>

lemma flattenSteps_mem:
  assumes "x \<in> set (flattenSteps jn ji si g ss)"
  shows "osJobIndex x = ji \<and> osJobName x = jn \<and> si \<le> osStepIndex x \<and>
    osStepIndex x < si + int (length ss) \<and> osStep x = ss ! nat (osStepIndex x - si)"
  using assms
proof (induction jn ji si g ss rule: flattenSteps.induct)
  case (1 jn ji si g)
  then show ?case by simp
next
  case (2 jn ji si g s ss)
  show ?case
  proof (cases "x \<in> set (flattenSteps jn ji (si + 1) (g + 1) ss)")
    case True
    with 2 have IH: "osJobIndex x = ji" "osJobName x = jn" "si + 1 \<le> osStepIndex x"
      "osStepIndex x < si + 1 + int (length ss)" "osStep x = ss ! nat (osStepIndex x - (si + 1))" by auto
    then have "nat (osStepIndex x - si) = Suc (nat (osStepIndex x - (si + 1)))" by linarith
    with IH show ?thesis by simp
  next
    case False
    with 2 show ?thesis by auto
  qed
qed

lemma flattenJobs_mem:
  assumes "x \<in> set (flattenJobs ji g js)"
  shows "ji \<le> osJobIndex x \<and> osJobIndex x < ji + int (length js) \<and>
    (let j = js ! nat (osJobIndex x - ji) in osJobName x = jName j \<and> 0 \<le> osStepIndex x \<and>
       osStepIndex x < int (length (jSteps j)) \<and> osStep x = jSteps j ! nat (osStepIndex x))"
  using assms
proof (induction ji g js rule: flattenJobs.induct)
  case (1 ji g)
  then show ?case by simp
next
  case (2 ji g j js)
  show ?case
  proof (cases "x \<in> set (flattenJobs (ji + 1) (g + int (length (jSteps j))) js)")
    case True
    note IH = "2.IH" [OF True]
    then have "nat (osJobIndex x - ji) = Suc (nat (osJobIndex x - (ji + 1)))" by linarith
    with IH show ?thesis by simp
  next
    case False
    with 2 have "x \<in> set (flattenSteps (jName j) ji 0 g (jSteps j))" by simp
    from flattenSteps_mem [OF this] show ?thesis by simp
  qed
qed

section \<open>Properties\<close>

text \<open>
  C34. \<open>FlattenPlaybook\<close> lists every step of every job once, in the order of the playbook; the
  global indices count from 0 without a gap, and the job index, the job name and the step index
  of an entry lead back to its step.
\<close>

theorem flatten_order:
  "map osStep (FlattenPlaybook pb) = concat (map jSteps (pbJobs pb)) \<and>
   map osGlobalIndex (FlattenPlaybook pb) = [0 .. int (length (FlattenPlaybook pb)) - 1] \<and>
   list_all (\<lambda>x. 0 \<le> osJobIndex x \<and> osJobIndex x < int (length (pbJobs pb)) \<and>
     (let j = pbJobs pb ! nat (osJobIndex x) in osJobName x = jName j \<and> 0 \<le> osStepIndex x \<and>
       osStepIndex x < int (length (jSteps j)) \<and> osStep x = jSteps j ! nat (osStepIndex x)))
     (FlattenPlaybook pb)"
  using FlattenPlaybook_steps [of pb] FlattenPlaybook_global [of pb] flattenJobs_mem [of _ 0 0 "pbJobs pb"]
  unfolding list_all_iff FlattenPlaybook_def by simp

end
