(* ===== verification/Tables.thy ===== *)
theory Tables
  imports Common_Types
begin

text \<open>
  Tables and what the server's components rely on when they keep entities in one. A table is
  the list of its rows in the order of their row ids. \<open>upsert\<close> is
  \<^verbatim>\<open>INSERT ... ON CONFLICT DO UPDATE\<close>: a row with the same key is merged in place, a
  new key goes to the end. The locale \<open>table\<close> has what follows from the law that a merge
  keeps the key; the locale \<open>entity_store\<close> is the contract between a store of entities and
  its clients, errors included, and the consequences the clients use.
\<close>

section \<open>Rows under a key\<close>

fun upsert :: "('r \<Rightarrow> string) \<Rightarrow> ('r \<Rightarrow> 'r \<Rightarrow> 'r) \<Rightarrow> 'r \<Rightarrow> 'r list \<Rightarrow> 'r list" where
  "upsert key merge r [] = [r]"
| "upsert key merge r (x # xs) =
     (if key x = key r then merge x r # xs else x # upsert key merge r xs)"

definition row :: "('r \<Rightarrow> string) \<Rightarrow> string \<Rightarrow> 'r list \<Rightarrow> 'r option" where
  "row key k xs = List.find (\<lambda>x. key x = k) xs"

definition without :: "('r \<Rightarrow> string) \<Rightarrow> string \<Rightarrow> 'r list \<Rightarrow> 'r list" where
  "without key k xs = filter (\<lambda>x. key x \<noteq> k) xs"

lemma row_Nil [simp]: "row key k [] = None"
  by (simp add: row_def)

lemma row_Cons: "row key k (x # xs) = (if key x = k then Some x else row key k xs)"
  by (simp add: row_def)

lemma row_SomeD: "row key k xs = Some x \<Longrightarrow> x \<in> set xs \<and> key x = k"
  unfolding row_def by (drule find_SomeD) simp

lemma row_None_iff: "row key k xs = None \<longleftrightarrow> k \<notin> key ` set xs"
  by (auto simp: row_def find_None_iff)

lemma row_iff: "distinct (map key xs) \<Longrightarrow> row key k xs = Some x \<longleftrightarrow> x \<in> set xs \<and> key x = k"
  unfolding row_def by (rule find_key_iff)

lemma row_without [store_simps]:
  "row key k (without key k' xs) = (if k = k' then None else row key k xs)"
  by (induction xs) (auto simp: row_def without_def)

lemma distinct_without [inv_intros]: "distinct (map key xs) \<Longrightarrow> distinct (map f xs) \<Longrightarrow>
  distinct (map f (without key k xs))"
  unfolding without_def by (rule distinct_map_filter)

lemma set_without: "set (without key k xs) = {x \<in> set xs. key x \<noteq> k}"
  by (simp add: without_def)

lemma without_absent: "k \<notin> key ` set xs \<Longrightarrow> without key k xs = xs"
  unfolding without_def by (rule filter_True) auto

locale table =
  fixes key :: "'r \<Rightarrow> string" and merge :: "'r \<Rightarrow> 'r \<Rightarrow> 'r"
  assumes key_merge: "key x = key r \<Longrightarrow> key (merge x r) = key r"
begin

lemma keys_upsert: "map key (upsert key merge r xs) =
  (if key r \<in> set (map key xs) then map key xs else map key xs @ [key r])"
  by (induction xs) (auto simp: key_merge)

lemma distinct_upsert: "distinct (map key xs) \<Longrightarrow> distinct (map key (upsert key merge r xs))"
  unfolding keys_upsert by simp

lemma key_image_upsert: "key ` set (upsert key merge r xs) = insert (key r) (key ` set xs)"
  using arg_cong [OF keys_upsert [of r xs], of set] by (auto split: if_splits)

lemma row_upsert: "row key k (upsert key merge r xs) =
  (if k = key r then Some (case row key k xs of None \<Rightarrow> r | Some x \<Rightarrow> merge x r) else row key k xs)"
  by (induction xs) (auto simp: row_Cons key_merge)

lemma length_upsert: "length (upsert key merge r xs) =
  (if key r \<in> key ` set xs then length xs else Suc (length xs))"
  by (induction xs) auto

end

section \<open>The contract of an entity store\<close>

text \<open>
  \<open>get\<close> reads an entity, \<open>save\<close> and \<open>delete\<close> return Go's error and the next database.
  \<open>keep old e\<close> is what a read returns after \<open>e\<close> was saved over \<open>old\<close>: the store keeps the
  moment of creation, \<open>birth\<close>, of the first save. \<open>good\<close> says that an entity survives its
  encoding.
\<close>

locale entity_store =
  fixes get :: "'db \<Rightarrow> string \<Rightarrow> 'e option"
    and save :: "'e \<Rightarrow> 'db \<Rightarrow> err \<times> 'db"
    and delete :: "string \<Rightarrow> 'db \<Rightarrow> err \<times> 'db"
    and ident :: "'e \<Rightarrow> string"
    and birth :: "'e \<Rightarrow> 'b"
    and keep :: "'e option \<Rightarrow> 'e \<Rightarrow> 'e"
    and good :: "'e \<Rightarrow> bool"
  assumes save_failed: "fst (save e db) \<noteq> None \<Longrightarrow> snd (save e db) = db"
    and save_done: "fst (save e db) = None \<Longrightarrow> good e \<Longrightarrow>
      get (snd (save e db)) k = (if k = ident e then Some (keep (get db k) e) else get db k)"
    and delete_failed: "fst (delete i db) \<noteq> None \<Longrightarrow> snd (delete i db) = db"
    and delete_done: "fst (delete i db) = None \<Longrightarrow>
      get (snd (delete i db)) k = (if k = i then None else get db k)"
    and keep_new: "keep None e = e"
    and ident_keep: "ident (keep x e) = ident e"
    and birth_keep: "birth (keep (Some e0) e) = birth e0"
begin

text \<open>The effect of a sequence of saves, whatever their outcomes.\<close>

fun saves :: "'e list \<Rightarrow> 'db \<Rightarrow> 'db" where
  "saves [] db = db"
| "saves (e # es) db = saves es (snd (save e db))"

lemma get_save_other: "good e \<Longrightarrow> k \<noteq> ident e \<Longrightarrow> get (snd (save e db)) k = get db k"
  using save_done save_failed by (cases "fst (save e db)") auto

lemma get_delete_other: "k \<noteq> i \<Longrightarrow> get (snd (delete i db)) k = get db k"
  using delete_done delete_failed by (cases "fst (delete i db)") auto

lemma get_save_new:
  "fst (save e db) = None \<Longrightarrow> good e \<Longrightarrow> get db (ident e) = None \<Longrightarrow>
   get (snd (save e db)) (ident e) = Some e"
  by (simp add: save_done keep_new)

lemma save_keeps_birth:
  "good e \<Longrightarrow> get db k = Some x \<Longrightarrow> \<exists>y. get (snd (save e db)) k = Some y \<and> birth y = birth x"
  using save_done save_failed birth_keep by (cases "fst (save e db)") auto

lemma saves_keep_birth:
  "list_all good es \<Longrightarrow> get db k = Some x \<Longrightarrow> \<exists>y. get (saves es db) k = Some y \<and> birth y = birth x"
proof (induction es arbitrary: db x)
  case Nil
  then show ?case by simp
next
  case (Cons e es)
  then obtain y where "get (snd (save e db)) k = Some y" "birth y = birth x"
    using save_keeps_birth by (metis list.pred_inject(2))
  with Cons show ?case by fastforce
qed

lemma delete_after_save:
  assumes "good e" "fst (save e db) = None" "fst (delete (ident e) (snd (save e db))) = None"
  shows "get (snd (delete (ident e) (snd (save e db)))) k = (if k = ident e then None else get db k)"
  using assms by (simp add: delete_done save_done)

end

end
