(* ===== verification/Store.thy ===== *)
theory Store
  imports Tables
begin

text \<open>
  The persistence layer: \<^verbatim>\<open>internal/server/store/store.go\<close>. The database is a record of
  tables; a time column holds text in the layout of \<open>format_rfc3339nano\<close>, a JSON column holds
  the value it encodes. A statement is what its SQL text says: upserts that leave the creation
  columns alone, the cascade from agents to tokens, the uniqueness and foreign key constraints
  of tokens, \<^verbatim>\<open>ORDER BY\<close> and \<^verbatim>\<open>LIMIT\<close>; without \<^verbatim>\<open>ORDER BY\<close> the rows come
  in row id order. Whether the SQLite driver carries a statement out is up to the driver, a
  parameter of every operation: it may fail a statement with an error, depending on the state
  of the database. A failed statement changes nothing and a transaction that is not committed
  is rolled back.
\<close>

section \<open>The database and its driver\<close>

record db =
  tAgents :: "string agent list"
  tDeployments :: "string deployment_row list"
  tPlaybooks :: "string playbook_record list"
  tArtifacts :: "string artifact list"
  tSecrets :: "(string \<times> string) list"
  tLogs :: "string log_entry list"
  tTokens :: "string agent_token list"

definition emptyDB :: db where
  "emptyDB = \<lparr>tAgents = [], tDeployments = [], tPlaybooks = [], tArtifacts = [], tSecrets = [],
              tLogs = [], tTokens = []\<rparr>"

text \<open>The statements the store prepares, each with the key it is run for.\<close>

datatype stmt =
    PragmaForeignKeys | ApplySchema | MigrateAgentStatus | MigrateDeploymentStatus
  | UpsertAgent string | SelectAgent string | SelectAgents | DeleteAgentRow string
  | UpsertDeployment string | SelectDeployment string | SelectActive string | SelectDeployments
  | DeleteDeploymentRow string | DeleteDeploymentLogs string
  | SelectHostname string | SelectPlaybookName string
  | UpsertPlaybook string | SelectPlaybook string | SelectPlaybooks | DeletePlaybookRow string
  | UpsertArtifact string | SelectArtifact string | SelectArtifactByName string | SelectArtifacts
  | DeleteArtifactRow string
  | UpsertSecret string | SelectSecret string | SelectSecretNames | SelectSecrets | DeleteSecretRow string
  | PrepareInsertLog | InsertLog string | SelectLogs string | SelectAgentLogs string
  | InsertToken string | SelectToken string | RevokeToken string | RevokeTokens string
  | BeginTx | CommitTx

type_synonym driver = "db \<Rightarrow> stmt \<Rightarrow> err"

text \<open>A driver that carries out every statement.\<close>

definition okDrv :: driver where "okDrv db st = None"

text \<open>\<^verbatim>\<open>db.Exec\<close> of one statement that has the effect \<open>f\<close>.\<close>

definition exec :: "driver \<Rightarrow> stmt \<Rightarrow> (db \<Rightarrow> db) \<Rightarrow> db \<Rightarrow> err \<times> db" where
  "exec drv st f db = (case drv db st of Some e \<Rightarrow> (Some e, db) | None \<Rightarrow> (None, f db))"

text \<open>\<^verbatim>\<open>db.QueryRow\<close> and its \<^verbatim>\<open>Scan\<close>: no row is an error as well.\<close>

definition queryRow :: "driver \<Rightarrow> stmt \<Rightarrow> (db \<Rightarrow> 'r option) \<Rightarrow> db \<Rightarrow> 'r option" where
  "queryRow drv st q db = (case drv db st of Some e \<Rightarrow> None | None \<Rightarrow> q db)"

text \<open>\<^verbatim>\<open>db.Query\<close> and the loop over its rows; an error is the nil slice.\<close>

definition query :: "driver \<Rightarrow> stmt \<Rightarrow> (db \<Rightarrow> 'r list) \<Rightarrow> db \<Rightarrow> 'r list" where
  "query drv st q db = (case drv db st of Some e \<Rightarrow> [] | None \<Rightarrow> q db)"

text \<open>Between \<^verbatim>\<open>Begin\<close> and \<^verbatim>\<open>Commit\<close>: the body's error or the commit's rolls back.\<close>

definition transaction :: "driver \<Rightarrow> (db \<Rightarrow> err \<times> db) \<Rightarrow> db \<Rightarrow> err \<times> db" where
  "transaction drv body db =
     (case drv db BeginTx of Some e \<Rightarrow> (Some e, db)
      | None \<Rightarrow> (case body db of (Some e, _) \<Rightarrow> (Some e, db)
                | (None, db') \<Rightarrow> (case drv db' CommitTx of Some e \<Rightarrow> (Some e, db)
                                  | None \<Rightarrow> (None, db'))))"

section \<open>Opening the store\<close>

text \<open>
  \<^verbatim>\<open>New\<close> on the database \<open>db\<close> the file holds, with the results of creating the directory
  and of opening the file. The schema only adds what is missing.
\<close>

definition New :: "driver \<Rightarrow> err \<Rightarrow> err \<Rightarrow> db \<Rightarrow> string + db" where
  "New drv mkdirErr openErr db =
     (case mkdirErr of Some e \<Rightarrow> Inl (''creating store dir: '' @ e)
      | None \<Rightarrow>
     (case openErr of Some e \<Rightarrow> Inl (''opening sqlite: '' @ e)
      | None \<Rightarrow>
     (case drv db PragmaForeignKeys of Some e \<Rightarrow> Inl (''enabling foreign keys: '' @ e)
      | None \<Rightarrow>
     (case drv db ApplySchema of Some e \<Rightarrow> Inl (''applying schema: '' @ e)
      | None \<Rightarrow>
       (let migrate = (\<lambda>s. if s = ''done'' then ''completed'' else s);
            (_, db1) = exec drv MigrateAgentStatus
              (\<lambda>d. d\<lparr>tAgents := map (\<lambda>a. a\<lparr>aStatus := migrate (aStatus a)\<rparr>) (tAgents d)\<rparr>) db;
            (_, db2) = exec drv MigrateDeploymentStatus
              (\<lambda>d. d\<lparr>tDeployments := map (\<lambda>r. r\<lparr>dStatus := migrate (dStatus r)\<rparr>) (tDeployments d)\<rparr>) db1
        in Inr db2)))))"

section \<open>Time helpers\<close>

definition encodeTime :: "gotime \<Rightarrow> string" where
  "encodeTime t = format_rfc3339nano t"

definition decodeTime :: "string \<Rightarrow> gotime" where
  "decodeTime s = (case parse_rfc3339 s of None \<Rightarrow> zero_time | Some t \<Rightarrow> t)"

definition encodeTimePtr :: "gotime option \<Rightarrow> string option" where
  "encodeTimePtr t = (case t of None \<Rightarrow> None | Some t \<Rightarrow> Some (encodeTime t))"

definition decodeTimePtr :: "string option \<Rightarrow> gotime option" where
  "decodeTimePtr ns = (case ns of None \<Rightarrow> None | Some s \<Rightarrow> Some (decodeTime s))"

section \<open>Agents\<close>

definition agentRow :: "gotime agent \<Rightarrow> string agent" where
  "agentRow a = \<lparr>aID = aID a, aHostname = aHostname a, aPlatform = aPlatform a, aOS = aOS a,
     aModel = aModel a, aVendor = aVendor a, aIPAddress = aIPAddress a, aMetadata = aMetadata a,
     aShells = aShells a, aStatus = aStatus a, aPlaybookID = aPlaybookID a,
     aRegisteredAt = encodeTime (aRegisteredAt a), aLastActivityAt = encodeTime (aLastActivityAt a)\<rparr>"

text \<open>\<^verbatim>\<open>DO UPDATE SET\<close>: every column but the key and \<^verbatim>\<open>registered_at\<close>.\<close>

definition mergeAgent :: "string agent \<Rightarrow> string agent \<Rightarrow> string agent" where
  "mergeAgent old excluded = excluded\<lparr>aID := aID old, aRegisteredAt := aRegisteredAt old\<rparr>"

definition SaveAgent :: "driver \<Rightarrow> gotime agent \<Rightarrow> db \<Rightarrow> err \<times> db" where
  "SaveAgent drv a = exec drv (UpsertAgent (aID a))
     (\<lambda>d. d\<lparr>tAgents := upsert aID mergeAgent (agentRow a) (tAgents d)\<rparr>)"

definition scanAgent :: "string agent \<Rightarrow> gotime agent" where
  "scanAgent r = \<lparr>aID = aID r, aHostname = aHostname r, aPlatform = aPlatform r, aOS = aOS r,
     aModel = aModel r, aVendor = aVendor r, aIPAddress = aIPAddress r, aMetadata = aMetadata r,
     aShells = aShells r, aStatus = aStatus r, aPlaybookID = aPlaybookID r,
     aRegisteredAt = decodeTime (aRegisteredAt r), aLastActivityAt = decodeTime (aLastActivityAt r)\<rparr>"

definition GetAgent :: "driver \<Rightarrow> db \<Rightarrow> string \<Rightarrow> gotime agent option" where
  "GetAgent drv db k =
     queryRow drv (SelectAgent k) (\<lambda>d. map_option scanAgent (row aID k (tAgents d))) db"

text \<open>SQLite's \<^verbatim>\<open>TRIM\<close> removes spaces, its \<^verbatim>\<open>LOWER\<close> maps the ASCII letters.\<close>

definition sqlTrim :: "string \<Rightarrow> string" where
  "sqlTrim s = rev (dropWhile (\<lambda>c. c = CHR '' '') (rev (dropWhile (\<lambda>c. c = CHR '' '') s)))"

definition agentOrder :: "string agent \<Rightarrow> string list" where
  "agentOrder a = [if sqlTrim (aHostname a) = [] then ''1'' else ''0'',
                   map lower_char (sqlTrim (aHostname a)), aID a]"

definition ListAgents :: "driver \<Rightarrow> db \<Rightarrow> gotime agent list" where
  "ListAgents drv db = query drv SelectAgents (\<lambda>d. map scanAgent (sort_key agentOrder (tAgents d))) db"

text \<open>The tokens of a deleted agent go with it.\<close>

definition DeleteAgent :: "driver \<Rightarrow> string \<Rightarrow> db \<Rightarrow> err \<times> db" where
  "DeleteAgent drv k = exec drv (DeleteAgentRow k)
     (\<lambda>d. d\<lparr>tAgents := without aID k (tAgents d), tTokens := without tkAgentID k (tTokens d)\<rparr>)"

section \<open>Deployments\<close>

definition deploymentRow :: "deployment_state \<Rightarrow> string deployment_row" where
  "deploymentRow d = \<lparr>dID = dID d, dAgentID = dAgentID d, dPlaybookID = dPlaybookID d,
     dStatus = dStatus d, dResumeStepIndex = dResumeStepIndex d,
     dStartedAt = encodeTime (dStartedAt d), dUpdatedAt = encodeTime (dUpdatedAt d),
     dFinishedAt = encodeTimePtr (dFinishedAt d), dErrorDetail = dErrorDetail d\<rparr>"

definition mergeDeployment :: "string deployment_row \<Rightarrow> string deployment_row \<Rightarrow> string deployment_row" where
  "mergeDeployment old excluded = excluded\<lparr>dID := dID old, dStartedAt := dStartedAt old\<rparr>"

definition SaveDeployment :: "driver \<Rightarrow> deployment_state \<Rightarrow> db \<Rightarrow> err \<times> db" where
  "SaveDeployment drv d = exec drv (UpsertDeployment (dID d))
     (\<lambda>b. b\<lparr>tDeployments := upsert dID mergeDeployment (deploymentRow d) (tDeployments b)\<rparr>)"

definition scanDeployment :: "string deployment_row \<Rightarrow> deployment_state" where
  "scanDeployment r = \<lparr>dID = dID r, dAgentID = dAgentID r, dPlaybookID = dPlaybookID r,
     dStatus = dStatus r, dResumeStepIndex = dResumeStepIndex r,
     dStartedAt = decodeTime (dStartedAt r), dUpdatedAt = decodeTime (dUpdatedAt r),
     dFinishedAt = decodeTimePtr (dFinishedAt r), dErrorDetail = dErrorDetail r,
     dHostname = [], dPlaybookName = []\<rparr>"

definition enrichDeployment :: "driver \<Rightarrow> db \<Rightarrow> deployment_state \<Rightarrow> deployment_state" where
  "enrichDeployment drv db d = d\<lparr>
     dHostname := (case queryRow drv (SelectHostname (dAgentID d))
         (\<lambda>b. map_option aHostname (row aID (dAgentID d) (tAgents b))) db of
       None \<Rightarrow> ''Deleted Agent'' | Some h \<Rightarrow> h),
     dPlaybookName := (case queryRow drv (SelectPlaybookName (dPlaybookID d))
         (\<lambda>b. map_option prName (row prID (dPlaybookID d) (tPlaybooks b))) db of
       None \<Rightarrow> ''Deleted Playbook'' | Some n \<Rightarrow> n)\<rparr>"

definition GetDeployment :: "driver \<Rightarrow> db \<Rightarrow> string \<Rightarrow> deployment_state option" where
  "GetDeployment drv db k = map_option (enrichDeployment drv db)
     (queryRow drv (SelectDeployment k) (\<lambda>b. map_option scanDeployment (row dID k (tDeployments b))) db)"

text \<open>
  \<^verbatim>\<open>ORDER BY started_at DESC LIMIT 1\<close>: texts are compared byte by byte, and among equal
  ones the index delivers the row with the smallest row id first.
\<close>

fun latest :: "string deployment_row list \<Rightarrow> string deployment_row option" where
  "latest [] = None"
| "latest (r # rs) = (case latest rs of None \<Rightarrow> Some r
     | Some s \<Rightarrow> if dStartedAt r < dStartedAt s then Some s else Some r)"

definition GetActiveDeploymentForAgent :: "driver \<Rightarrow> db \<Rightarrow> string \<Rightarrow> deployment_state option" where
  "GetActiveDeploymentForAgent drv db agentID = map_option (enrichDeployment drv db)
     (queryRow drv (SelectActive agentID)
       (\<lambda>b. map_option scanDeployment (latest (filter (\<lambda>r. dAgentID r = agentID) (tDeployments b)))) db)"

definition ListDeployments :: "driver \<Rightarrow> db \<Rightarrow> deployment_state list" where
  "ListDeployments drv db = map (enrichDeployment drv db)
     (query drv SelectDeployments (\<lambda>b. map scanDeployment (tDeployments b)) db)"

definition DeleteDeployment :: "driver \<Rightarrow> string \<Rightarrow> db \<Rightarrow> err \<times> db" where
  "DeleteDeployment drv k = transaction drv (\<lambda>d.
     case exec drv (DeleteDeploymentRow k) (\<lambda>b. b\<lparr>tDeployments := without dID k (tDeployments b)\<rparr>) d of
       (Some e, d1) \<Rightarrow> (Some e, d1)
     | (None, d1) \<Rightarrow> exec drv (DeleteDeploymentLogs k) (\<lambda>b. b\<lparr>tLogs := without lgDeploymentID k (tLogs b)\<rparr>) d1)"

section \<open>Playbooks\<close>

text \<open>A playbook that is not there is stored as \<^verbatim>\<open>null\<close> and read as the empty playbook.\<close>

definition emptyPlaybook :: playbook where
  "emptyPlaybook = \<lparr>pbName = [], pbEnv = [], pbJobs = []\<rparr>"

definition playbookRow :: "gotime playbook_record \<Rightarrow> string playbook_record" where
  "playbookRow p = \<lparr>prID = prID p, prName = prName p, prDescription = prDescription p,
     prPlaybook = prPlaybook p, prCreatedAt = encodeTime (prCreatedAt p),
     prUpdatedAt = encodeTime (prUpdatedAt p)\<rparr>"

definition mergePlaybook :: "string playbook_record \<Rightarrow> string playbook_record \<Rightarrow> string playbook_record" where
  "mergePlaybook old excluded = excluded\<lparr>prID := prID old, prCreatedAt := prCreatedAt old\<rparr>"

definition SavePlaybook :: "driver \<Rightarrow> gotime playbook_record \<Rightarrow> db \<Rightarrow> err \<times> db" where
  "SavePlaybook drv p = exec drv (UpsertPlaybook (prID p))
     (\<lambda>d. d\<lparr>tPlaybooks := upsert prID mergePlaybook (playbookRow p) (tPlaybooks d)\<rparr>)"

definition scanPlaybook :: "string playbook_record \<Rightarrow> gotime playbook_record" where
  "scanPlaybook r = \<lparr>prID = prID r, prName = prName r, prDescription = prDescription r,
     prPlaybook = Some (case prPlaybook r of None \<Rightarrow> emptyPlaybook | Some pb \<Rightarrow> pb),
     prCreatedAt = decodeTime (prCreatedAt r), prUpdatedAt = decodeTime (prUpdatedAt r)\<rparr>"

definition GetPlaybook :: "driver \<Rightarrow> db \<Rightarrow> string \<Rightarrow> gotime playbook_record option" where
  "GetPlaybook drv db k =
     queryRow drv (SelectPlaybook k) (\<lambda>d. map_option scanPlaybook (row prID k (tPlaybooks d))) db"

definition ListPlaybooks :: "driver \<Rightarrow> db \<Rightarrow> gotime playbook_record list" where
  "ListPlaybooks drv db = query drv SelectPlaybooks (\<lambda>d. map scanPlaybook (tPlaybooks d)) db"

definition DeletePlaybook :: "driver \<Rightarrow> string \<Rightarrow> db \<Rightarrow> err \<times> db" where
  "DeletePlaybook drv k = exec drv (DeletePlaybookRow k)
     (\<lambda>d. d\<lparr>tPlaybooks := without prID k (tPlaybooks d)\<rparr>)"

section \<open>Artifacts\<close>

definition artifactRow :: "gotime artifact \<Rightarrow> string artifact" where
  "artifactRow a = \<lparr>arID = arID a, arName = arName a, arFileName = arFileName a, arSize = arSize a,
     arContentType = arContentType a, arAccessPolicy = arAccessPolicy a,
     arAllowedAgents = arAllowedAgents a, arUploadedAt = encodeTime (arUploadedAt a)\<rparr>"

definition mergeArtifact :: "string artifact \<Rightarrow> string artifact \<Rightarrow> string artifact" where
  "mergeArtifact old excluded = excluded\<lparr>arID := arID old, arUploadedAt := arUploadedAt old\<rparr>"

definition SaveArtifact :: "driver \<Rightarrow> gotime artifact \<Rightarrow> db \<Rightarrow> err \<times> db" where
  "SaveArtifact drv a = exec drv (UpsertArtifact (arID a))
     (\<lambda>d. d\<lparr>tArtifacts := upsert arID mergeArtifact (artifactRow a) (tArtifacts d)\<rparr>)"

definition scanArtifact :: "string artifact \<Rightarrow> gotime artifact" where
  "scanArtifact r = \<lparr>arID = arID r, arName = arName r, arFileName = arFileName r, arSize = arSize r,
     arContentType = arContentType r, arAccessPolicy = arAccessPolicy r,
     arAllowedAgents = arAllowedAgents r, arUploadedAt = decodeTime (arUploadedAt r)\<rparr>"

definition GetArtifact :: "driver \<Rightarrow> db \<Rightarrow> string \<Rightarrow> gotime artifact option" where
  "GetArtifact drv db k =
     queryRow drv (SelectArtifact k) (\<lambda>d. map_option scanArtifact (row arID k (tArtifacts d))) db"

definition GetArtifactByName :: "driver \<Rightarrow> db \<Rightarrow> string \<Rightarrow> gotime artifact option" where
  "GetArtifactByName drv db n =
     queryRow drv (SelectArtifactByName n) (\<lambda>d. map_option scanArtifact (row arName n (tArtifacts d))) db"

definition ListArtifacts :: "driver \<Rightarrow> db \<Rightarrow> gotime artifact list" where
  "ListArtifacts drv db = query drv SelectArtifacts (\<lambda>d. map scanArtifact (tArtifacts d)) db"

definition DeleteArtifact :: "driver \<Rightarrow> string \<Rightarrow> db \<Rightarrow> err \<times> db" where
  "DeleteArtifact drv k = exec drv (DeleteArtifactRow k)
     (\<lambda>d. d\<lparr>tArtifacts := without arID k (tArtifacts d)\<rparr>)"

section \<open>Secrets\<close>

definition mergeSecret :: "string \<times> string \<Rightarrow> string \<times> string \<Rightarrow> string \<times> string" where
  "mergeSecret old excluded = (fst old, snd excluded)"

definition SetSecret :: "driver \<Rightarrow> string \<Rightarrow> string \<Rightarrow> db \<Rightarrow> err \<times> db" where
  "SetSecret drv k v = exec drv (UpsertSecret k)
     (\<lambda>d. d\<lparr>tSecrets := upsert fst mergeSecret (k, v) (tSecrets d)\<rparr>)"

definition GetSecret :: "driver \<Rightarrow> db \<Rightarrow> string \<Rightarrow> string option" where
  "GetSecret drv db k = queryRow drv (SelectSecret k) (\<lambda>d. map_option snd (row fst k (tSecrets d))) db"

definition ListSecretNames :: "driver \<Rightarrow> db \<Rightarrow> string list" where
  "ListSecretNames drv db = query drv SelectSecretNames (\<lambda>d. sort (map fst (tSecrets d))) db"

definition DeleteSecret :: "driver \<Rightarrow> string \<Rightarrow> db \<Rightarrow> err \<times> db" where
  "DeleteSecret drv k = exec drv (DeleteSecretRow k) (\<lambda>d. d\<lparr>tSecrets := without fst k (tSecrets d)\<rparr>)"

text \<open>The loop inside the transaction stops at the first statement that fails.\<close>

fun mergeLoop :: "driver \<Rightarrow> smap \<Rightarrow> db \<Rightarrow> err \<times> db" where
  "mergeLoop drv [] db = (None, db)"
| "mergeLoop drv ((k, v) # m) db = (case SetSecret drv k v db of
      (Some e, db') \<Rightarrow> (Some e, db')
    | (None, db') \<Rightarrow> mergeLoop drv m db')"

definition MergeSecrets :: "driver \<Rightarrow> smap \<Rightarrow> db \<Rightarrow> err \<times> db" where
  "MergeSecrets drv m = transaction drv (mergeLoop drv m)"

definition AllSecrets :: "driver \<Rightarrow> db \<Rightarrow> smap" where
  "AllSecrets drv db = query drv SelectSecrets (\<lambda>d. tSecrets d) db"

section \<open>Logs\<close>

definition logRow :: "gotime log_entry \<Rightarrow> string log_entry" where
  "logRow e = \<lparr>lgDeploymentID = lgDeploymentID e, lgJobName = lgJobName e, lgStepIndex = lgStepIndex e,
     lgLevel = lgLevel e, lgMessage = lgMessage e, lgTimestamp = encodeTime (lgTimestamp e)\<rparr>"

definition scanLog :: "string log_entry \<Rightarrow> gotime log_entry" where
  "scanLog r = \<lparr>lgDeploymentID = lgDeploymentID r, lgJobName = lgJobName r, lgStepIndex = lgStepIndex r,
     lgLevel = lgLevel r, lgMessage = lgMessage r, lgTimestamp = decodeTime (lgTimestamp r)\<rparr>"

fun insertLogs :: "driver \<Rightarrow> gotime log_entry list \<Rightarrow> db \<Rightarrow> err \<times> db" where
  "insertLogs drv [] db = (None, db)"
| "insertLogs drv (e # es) db =
     (case exec drv (InsertLog (lgDeploymentID e)) (\<lambda>d. d\<lparr>tLogs := tLogs d @ [logRow e]\<rparr>) db of
        (Some msg, db') \<Rightarrow> (Some msg, db')
      | (None, db') \<Rightarrow> insertLogs drv es db')"

definition AppendLogs :: "driver \<Rightarrow> gotime log_entry list \<Rightarrow> db \<Rightarrow> err \<times> db" where
  "AppendLogs drv entries = transaction drv (\<lambda>d.
     case drv d PrepareInsertLog of Some e \<Rightarrow> (Some e, d) | None \<Rightarrow> insertLogs drv entries d)"

definition GetLogsForDeployment :: "driver \<Rightarrow> db \<Rightarrow> string \<Rightarrow> gotime log_entry list" where
  "GetLogsForDeployment drv db k = query drv (SelectLogs k)
     (\<lambda>d. map scanLog (filter (\<lambda>l. lgDeploymentID l = k) (tLogs d))) db"

text \<open>The join repeats a log row once per deployment row it meets.\<close>

definition GetLogsForAgent :: "driver \<Rightarrow> db \<Rightarrow> string \<Rightarrow> gotime log_entry list" where
  "GetLogsForAgent drv db agentID = query drv (SelectAgentLogs agentID)
     (\<lambda>d. map scanLog (concat (map (\<lambda>l. map (\<lambda>_. l)
        (filter (\<lambda>r. dID r = lgDeploymentID l \<and> dAgentID r = agentID) (tDeployments d))) (tLogs d)))) db"

section \<open>Agent tokens\<close>

definition tokenRow :: "gotime agent_token \<Rightarrow> string agent_token" where
  "tokenRow t = \<lparr>tkID = tkID t, tkAgentID = tkAgentID t, tkTokenHash = tkTokenHash t,
     tkCreatedAt = encodeTime (tkCreatedAt t), tkExpiresAt = encodeTimePtr (tkExpiresAt t),
     tkRevokedAt = encodeTimePtr (tkRevokedAt t)\<rparr>"

definition scanToken :: "string agent_token \<Rightarrow> gotime agent_token" where
  "scanToken r = \<lparr>tkID = tkID r, tkAgentID = tkAgentID r, tkTokenHash = tkTokenHash r,
     tkCreatedAt = decodeTime (tkCreatedAt r), tkExpiresAt = decodeTimePtr (tkExpiresAt r),
     tkRevokedAt = decodeTimePtr (tkRevokedAt r)\<rparr>"

text \<open>
  The constraints of the table: \<^verbatim>\<open>PRIMARY KEY\<close> and \<^verbatim>\<open>UNIQUE\<close>, and the reference to
  an agent, which is checked for every connection with \<^verbatim>\<open>foreign_keys\<close> on.
\<close>

definition tokenConstraint :: "gotime agent_token \<Rightarrow> db \<Rightarrow> err" where
  "tokenConstraint t db =
     (if tkID t \<in> set (map tkID (tTokens db)) then Some ''UNIQUE constraint failed: agent_tokens.id''
      else if tkTokenHash t \<in> set (map tkTokenHash (tTokens db))
        then Some ''UNIQUE constraint failed: agent_tokens.token_hash''
      else if tkAgentID t \<notin> set (map aID (tAgents db)) then Some ''FOREIGN KEY constraint failed''
      else None)"

definition CreateAgentToken :: "driver \<Rightarrow> gotime agent_token \<Rightarrow> db \<Rightarrow> err \<times> db" where
  "CreateAgentToken drv t db = (case tokenConstraint t db of
      Some e \<Rightarrow> (case drv db (InsertToken (tkID t)) of Some e' \<Rightarrow> (Some e', db) | None \<Rightarrow> (Some e, db))
    | None \<Rightarrow> exec drv (InsertToken (tkID t)) (\<lambda>d. d\<lparr>tTokens := tTokens d @ [tokenRow t]\<rparr>) db)"

definition GetAgentTokenByHash :: "driver \<Rightarrow> db \<Rightarrow> string \<Rightarrow> gotime agent_token option" where
  "GetAgentTokenByHash drv db h =
     queryRow drv (SelectToken h) (\<lambda>d. map_option scanToken (row tkTokenHash h (tTokens d))) db"

definition RevokeAgentToken :: "driver \<Rightarrow> gotime \<Rightarrow> string \<Rightarrow> db \<Rightarrow> err \<times> db" where
  "RevokeAgentToken drv now k = exec drv (RevokeToken k)
     (\<lambda>d. d\<lparr>tTokens := map (\<lambda>t. if tkID t = k then t\<lparr>tkRevokedAt := Some (encodeTime now)\<rparr> else t)
        (tTokens d)\<rparr>)"

definition RevokeAllAgentTokens :: "driver \<Rightarrow> gotime \<Rightarrow> string \<Rightarrow> db \<Rightarrow> err \<times> db" where
  "RevokeAllAgentTokens drv now agentID = exec drv (RevokeTokens agentID)
     (\<lambda>d. d\<lparr>tTokens := map (\<lambda>t. if tkAgentID t = agentID \<and> tkRevokedAt t = None
        then t\<lparr>tkRevokedAt := Some (encodeTime now)\<rparr> else t) (tTokens d)\<rparr>)"

section \<open>Rules for the driver\<close>

lemma exec_cases:
  "fst (exec drv st f db) = None \<and> snd (exec drv st f db) = f db \<or>
   fst (exec drv st f db) \<noteq> None \<and> snd (exec drv st f db) = db"
  by (auto simp: exec_def split: option.splits)

lemma exec_None [store_simps]: "fst (exec drv st f db) = None \<Longrightarrow> snd (exec drv st f db) = f db"
  by (auto simp: exec_def split: option.splits)

lemma exec_Some [store_simps]: "fst (exec drv st f db) \<noteq> None \<Longrightarrow> snd (exec drv st f db) = db"
  by (auto simp: exec_def split: option.splits)

lemma exec_inv: "P db \<Longrightarrow> P (f db) \<Longrightarrow> P (snd (exec drv st f db))"
  by (auto simp: exec_def split: option.splits)

lemma exec_okDrv [simp]: "exec okDrv st f db = (None, f db)"
  by (simp add: exec_def okDrv_def)

lemma queryRow_okDrv [simp]: "queryRow okDrv st q db = q db"
  by (simp add: queryRow_def okDrv_def)

lemma query_okDrv [simp]: "query okDrv st q db = q db"
  by (simp add: query_def okDrv_def)

lemma queryRow_SomeD: "queryRow drv st q db = Some x \<Longrightarrow> q db = Some x"
  by (simp add: queryRow_def split: option.splits)

lemma transaction_failed: "fst (transaction drv body db) \<noteq> None \<Longrightarrow> snd (transaction drv body db) = db"
  by (auto simp: transaction_def split: option.splits prod.splits)

lemma transaction_done: "fst (transaction drv body db) = None \<Longrightarrow> body db = (None, snd (transaction drv body db))"
  by (auto simp: transaction_def split: option.splits prod.splits)

lemma transaction_inv:
  "P db \<Longrightarrow> (fst (body db) = None \<Longrightarrow> P (snd (body db))) \<Longrightarrow> P (snd (transaction drv body db))"
  by (auto simp: transaction_def split: option.splits prod.splits)

section \<open>Encoding and decoding\<close>

lemma decode_encode [simp]: "time_ok t \<Longrightarrow> decodeTime (encodeTime t) = t"
  by (simp add: decodeTime_def encodeTime_def parse_format)

definition time_ptr_ok :: "gotime option \<Rightarrow> bool" where
  "time_ptr_ok t = (case t of None \<Rightarrow> True | Some t \<Rightarrow> time_ok t)"

lemma decode_encode_ptr [simp]: "time_ptr_ok t \<Longrightarrow> decodeTimePtr (encodeTimePtr t) = t"
  by (cases t) (simp_all add: decodeTimePtr_def encodeTimePtr_def time_ptr_ok_def)

definition agent_ok :: "gotime agent \<Rightarrow> bool" where
  "agent_ok a \<longleftrightarrow> time_ok (aRegisteredAt a) \<and> time_ok (aLastActivityAt a)"

definition deployment_ok :: "deployment_state \<Rightarrow> bool" where
  "deployment_ok d \<longleftrightarrow> time_ok (dStartedAt d) \<and> time_ok (dUpdatedAt d) \<and> time_ptr_ok (dFinishedAt d)"

definition playbook_ok :: "gotime playbook_record \<Rightarrow> bool" where
  "playbook_ok p \<longleftrightarrow> prPlaybook p \<noteq> None \<and> time_ok (prCreatedAt p) \<and> time_ok (prUpdatedAt p)"

definition artifact_ok :: "gotime artifact \<Rightarrow> bool" where
  "artifact_ok a \<longleftrightarrow> time_ok (arUploadedAt a)"

definition token_ok :: "gotime agent_token \<Rightarrow> bool" where
  "token_ok t \<longleftrightarrow> time_ok (tkCreatedAt t) \<and> time_ptr_ok (tkExpiresAt t) \<and> time_ptr_ok (tkRevokedAt t)"

lemma scan_agentRow [simp]: "agent_ok a \<Longrightarrow> scanAgent (agentRow a) = a"
  by (simp add: scanAgent_def agentRow_def agent_ok_def)

lemma scan_playbookRow [simp]: "playbook_ok p \<Longrightarrow> scanPlaybook (playbookRow p) = p"
  by (auto simp: scanPlaybook_def playbookRow_def playbook_ok_def)

lemma scan_artifactRow [simp]: "artifact_ok a \<Longrightarrow> scanArtifact (artifactRow a) = a"
  by (simp add: scanArtifact_def artifactRow_def artifact_ok_def)

lemma scan_tokenRow [simp]: "token_ok t \<Longrightarrow> scanToken (tokenRow t) = t"
  by (simp add: scanToken_def tokenRow_def token_ok_def)

lemma scan_logRow [simp]: "time_ok (lgTimestamp e) \<Longrightarrow> scanLog (logRow e) = e"
  by (simp add: scanLog_def logRow_def)

lemma scan_deploymentRow [simp]:
  "deployment_ok d \<Longrightarrow> scanDeployment (deploymentRow d) = d\<lparr>dHostname := [], dPlaybookName := []\<rparr>"
  by (simp add: scanDeployment_def deploymentRow_def deployment_ok_def)

section \<open>The tables\<close>

interpretation agents: table aID mergeAgent
  by unfold_locales (simp add: mergeAgent_def)

interpretation deployments: table dID mergeDeployment
  by unfold_locales (simp add: mergeDeployment_def)

interpretation playbooks: table prID mergePlaybook
  by unfold_locales (simp add: mergePlaybook_def)

interpretation artifacts: table arID mergeArtifact
  by unfold_locales (simp add: mergeArtifact_def)

interpretation secrets: table fst mergeSecret
  by unfold_locales (simp add: mergeSecret_def)

lemma row_keys [simp]: "aID (agentRow a) = aID a" "dID (deploymentRow d) = dID d" "prID (playbookRow p) = prID p"
    "arID (artifactRow f) = arID f" "tkID (tokenRow t) = tkID t" "tkTokenHash (tokenRow t) = tkTokenHash t"
    "tkAgentID (tokenRow t) = tkAgentID t" "lgDeploymentID (logRow e) = lgDeploymentID e"
  by (simp_all add: agentRow_def deploymentRow_def playbookRow_def artifactRow_def tokenRow_def logRow_def)

section \<open>The entity stores\<close>

text \<open>What a read returns after a save: the entity, with the creation time of the first save.\<close>

definition keepAgent :: "gotime agent option \<Rightarrow> gotime agent \<Rightarrow> gotime agent" where
  "keepAgent old a = (case old of None \<Rightarrow> a | Some o' \<Rightarrow> a\<lparr>aRegisteredAt := aRegisteredAt o'\<rparr>)"

definition keepPlaybook :: "gotime playbook_record option \<Rightarrow> gotime playbook_record \<Rightarrow> gotime playbook_record" where
  "keepPlaybook old p = (case old of None \<Rightarrow> p | Some o' \<Rightarrow> p\<lparr>prCreatedAt := prCreatedAt o'\<rparr>)"

definition keepArtifact :: "gotime artifact option \<Rightarrow> gotime artifact \<Rightarrow> gotime artifact" where
  "keepArtifact old a = (case old of None \<Rightarrow> a | Some o' \<Rightarrow> a\<lparr>arUploadedAt := arUploadedAt o'\<rparr>)"

definition keepDeployment :: "deployment_state option \<Rightarrow> deployment_state \<Rightarrow> deployment_state" where
  "keepDeployment old d = (case old of None \<Rightarrow> d | Some o' \<Rightarrow> d\<lparr>dStartedAt := dStartedAt o'\<rparr>)"

text \<open>The deployment table read without the derived names.\<close>

definition storedDeployment :: "db \<Rightarrow> string \<Rightarrow> deployment_state option" where
  "storedDeployment db k = map_option scanDeployment (row dID k (tDeployments db))"

definition bare_ok :: "deployment_state \<Rightarrow> bool" where
  "bare_ok d \<longleftrightarrow> deployment_ok d \<and> dHostname d = [] \<and> dPlaybookName d = []"

interpretation agent_store: entity_store "GetAgent okDrv" "SaveAgent drv" "DeleteAgent drv"
  aID aRegisteredAt keepAgent agent_ok for drv
proof unfold_locales
  fix a db k
  assume "fst (SaveAgent drv a db) = None" and ok: "agent_ok a"
  then have "snd (SaveAgent drv a db) = db\<lparr>tAgents := upsert aID mergeAgent (agentRow a) (tAgents db)\<rparr>"
    by (simp add: SaveAgent_def store_simps)
  moreover have "scanAgent (mergeAgent x (agentRow a)) = keepAgent (Some (scanAgent x)) a" if "aID x = aID a" for x
    using ok that by (simp add: scanAgent_def mergeAgent_def keepAgent_def agentRow_def agent_ok_def)
  ultimately show "GetAgent okDrv (snd (SaveAgent drv a db)) k =
      (if k = aID a then Some (keepAgent (GetAgent okDrv db k) a) else GetAgent okDrv db k)"
    using ok by (auto simp: GetAgent_def agents.row_upsert keepAgent_def split: option.splits dest: row_SomeD)
qed (auto simp: SaveAgent_def DeleteAgent_def GetAgent_def keepAgent_def store_simps split: option.splits)

interpretation playbook_store: entity_store "GetPlaybook okDrv" "SavePlaybook drv" "DeletePlaybook drv"
  prID prCreatedAt keepPlaybook playbook_ok for drv
proof unfold_locales
  fix p db k
  assume "fst (SavePlaybook drv p db) = None" and ok: "playbook_ok p"
  then have "snd (SavePlaybook drv p db) = db\<lparr>tPlaybooks := upsert prID mergePlaybook (playbookRow p) (tPlaybooks db)\<rparr>"
    by (simp add: SavePlaybook_def store_simps)
  moreover have "scanPlaybook (mergePlaybook x (playbookRow p)) = keepPlaybook (Some (scanPlaybook x)) p"
    if "prID x = prID p" for x
    using ok that by (auto simp: scanPlaybook_def mergePlaybook_def keepPlaybook_def playbookRow_def playbook_ok_def)
  ultimately show "GetPlaybook okDrv (snd (SavePlaybook drv p db)) k =
      (if k = prID p then Some (keepPlaybook (GetPlaybook okDrv db k) p) else GetPlaybook okDrv db k)"
    using ok by (auto simp: GetPlaybook_def playbooks.row_upsert keepPlaybook_def split: option.splits dest: row_SomeD)
qed (auto simp: SavePlaybook_def DeletePlaybook_def GetPlaybook_def keepPlaybook_def store_simps split: option.splits)

interpretation artifact_store: entity_store "GetArtifact okDrv" "SaveArtifact drv" "DeleteArtifact drv"
  arID arUploadedAt keepArtifact artifact_ok for drv
proof unfold_locales
  fix a db k
  assume "fst (SaveArtifact drv a db) = None" and ok: "artifact_ok a"
  then have "snd (SaveArtifact drv a db) = db\<lparr>tArtifacts := upsert arID mergeArtifact (artifactRow a) (tArtifacts db)\<rparr>"
    by (simp add: SaveArtifact_def store_simps)
  moreover have "scanArtifact (mergeArtifact x (artifactRow a)) = keepArtifact (Some (scanArtifact x)) a"
    if "arID x = arID a" for x
    using ok that by (simp add: scanArtifact_def mergeArtifact_def keepArtifact_def artifactRow_def artifact_ok_def)
  ultimately show "GetArtifact okDrv (snd (SaveArtifact drv a db)) k =
      (if k = arID a then Some (keepArtifact (GetArtifact okDrv db k) a) else GetArtifact okDrv db k)"
    using ok by (auto simp: GetArtifact_def artifacts.row_upsert keepArtifact_def split: option.splits dest: row_SomeD)
qed (auto simp: SaveArtifact_def DeleteArtifact_def GetArtifact_def keepArtifact_def store_simps split: option.splits)

interpretation secret_store: entity_store "\<lambda>db k. map_option (Pair k) (GetSecret okDrv db k)"
  "\<lambda>s. SetSecret drv (fst s) (snd s)" "DeleteSecret drv" fst "\<lambda>s. ()" "\<lambda>old s. s" "\<lambda>s. True" for drv
  by unfold_locales
    (auto simp: SetSecret_def DeleteSecret_def GetSecret_def store_simps secrets.row_upsert mergeSecret_def
       split: option.splits)

lemma DeleteDeployment_done:
  assumes "fst (DeleteDeployment drv k db) = None"
  shows "snd (DeleteDeployment drv k db) =
    db\<lparr>tDeployments := without dID k (tDeployments db), tLogs := without lgDeploymentID k (tLogs db)\<rparr>"
  using transaction_done [OF assms [unfolded DeleteDeployment_def]]
  unfolding DeleteDeployment_def [symmetric] by (auto simp: exec_def split: option.splits)

interpretation deployment_store: entity_store storedDeployment "SaveDeployment drv" "DeleteDeployment drv"
  dID dStartedAt keepDeployment bare_ok for drv
proof unfold_locales
  fix d db k
  assume "fst (SaveDeployment drv d db) = None" and ok: "bare_ok d"
  then have "snd (SaveDeployment drv d db) =
      db\<lparr>tDeployments := upsert dID mergeDeployment (deploymentRow d) (tDeployments db)\<rparr>"
    by (simp add: SaveDeployment_def store_simps)
  moreover have "scanDeployment (mergeDeployment x (deploymentRow d)) = keepDeployment (Some (scanDeployment x)) d"
    if "dID x = dID d" for x
    using ok that by (simp add: scanDeployment_def mergeDeployment_def keepDeployment_def deploymentRow_def
        bare_ok_def deployment_ok_def)
  ultimately show "storedDeployment (snd (SaveDeployment drv d db)) k =
      (if k = dID d then Some (keepDeployment (storedDeployment db k) d) else storedDeployment db k)"
    using ok by (auto simp: storedDeployment_def deployments.row_upsert keepDeployment_def bare_ok_def
        split: option.splits dest: row_SomeD)
next
  fix k db
  assume "fst (DeleteDeployment drv k db) \<noteq> None"
  then show "snd (DeleteDeployment drv k db) = db"
    unfolding DeleteDeployment_def by (rule transaction_failed)
qed (auto simp: SaveDeployment_def DeleteDeployment_done storedDeployment_def keepDeployment_def store_simps
      split: option.splits)

end
