(* ===== verification/Store_Inv.thy ===== *)
theory Store_Inv
  imports Store "HOL-Library.Multiset"
begin

text \<open>
  What holds of the database after any sequence of store operations, whatever the driver
  fails, and what the read operations return: the keys of every table, the token constraints,
  the order of agents, logs and secrets, the choice of the active deployment and the
  revocation of tokens.
\<close>

section \<open>The invariant\<close>

definition db_inv :: "db \<Rightarrow> bool" where
  "db_inv db \<longleftrightarrow>
     distinct (map aID (tAgents db)) \<and> distinct (map dID (tDeployments db)) \<and>
     distinct (map prID (tPlaybooks db)) \<and> distinct (map arID (tArtifacts db)) \<and>
     distinct (map fst (tSecrets db)) \<and>
     distinct (map tkID (tTokens db)) \<and> distinct (map tkTokenHash (tTokens db)) \<and>
     tkAgentID ` set (tTokens db) \<subseteq> aID ` set (tAgents db)"

lemma db_inv_empty [simp]: "db_inv emptyDB"
  by (simp add: db_inv_def emptyDB_def)

lemma db_inv_logs [simp]: "db_inv (db\<lparr>tLogs := ls\<rparr>) = db_inv db"
  by (simp add: db_inv_def)

lemma SaveAgent_inv [inv_intros]: "db_inv db \<Longrightarrow> db_inv (snd (SaveAgent drv a db))"
  unfolding SaveAgent_def
  by (rule exec_inv) (auto simp: db_inv_def agents.distinct_upsert agents.key_image_upsert)

lemma DeleteAgent_inv [inv_intros]: "db_inv db \<Longrightarrow> db_inv (snd (DeleteAgent drv k db))"
  unfolding DeleteAgent_def
  by (rule exec_inv) (auto simp: db_inv_def set_without intro: distinct_without distinct_map_filter
      simp: without_def)

lemma SaveDeployment_inv [inv_intros]: "db_inv db \<Longrightarrow> db_inv (snd (SaveDeployment drv d db))"
  unfolding SaveDeployment_def
  by (rule exec_inv) (auto simp: db_inv_def deployments.distinct_upsert)

lemma DeleteDeployment_inv [inv_intros]: "db_inv db \<Longrightarrow> db_inv (snd (DeleteDeployment drv k db))"
  by (cases "fst (DeleteDeployment drv k db)")
    (auto simp: DeleteDeployment_done deployment_store.delete_failed db_inv_def intro: distinct_without)

lemma SavePlaybook_inv [inv_intros]: "db_inv db \<Longrightarrow> db_inv (snd (SavePlaybook drv p db))"
  unfolding SavePlaybook_def by (rule exec_inv) (auto simp: db_inv_def playbooks.distinct_upsert)

lemma DeletePlaybook_inv [inv_intros]: "db_inv db \<Longrightarrow> db_inv (snd (DeletePlaybook drv k db))"
  unfolding DeletePlaybook_def by (rule exec_inv) (auto simp: db_inv_def intro: distinct_without)

lemma SaveArtifact_inv [inv_intros]: "db_inv db \<Longrightarrow> db_inv (snd (SaveArtifact drv a db))"
  unfolding SaveArtifact_def by (rule exec_inv) (auto simp: db_inv_def artifacts.distinct_upsert)

lemma DeleteArtifact_inv [inv_intros]: "db_inv db \<Longrightarrow> db_inv (snd (DeleteArtifact drv k db))"
  unfolding DeleteArtifact_def by (rule exec_inv) (auto simp: db_inv_def intro: distinct_without)

lemma SetSecret_inv [inv_intros]: "db_inv db \<Longrightarrow> db_inv (snd (SetSecret drv k v db))"
  unfolding SetSecret_def by (rule exec_inv) (auto simp: db_inv_def secrets.distinct_upsert)

lemma DeleteSecret_inv [inv_intros]: "db_inv db \<Longrightarrow> db_inv (snd (DeleteSecret drv k db))"
  unfolding DeleteSecret_def by (rule exec_inv) (auto simp: db_inv_def intro: distinct_without)

lemma mergeLoop_inv: "db_inv db \<Longrightarrow> db_inv (snd (mergeLoop drv m db))"
proof (induction drv m db rule: mergeLoop.induct)
  case (2 drv k v m db)
  then show ?case
    using SetSecret_inv [OF "2.prems", of drv k v] by (auto split: prod.splits option.splits)
qed simp

lemma MergeSecrets_inv [inv_intros]: "db_inv db \<Longrightarrow> db_inv (snd (MergeSecrets drv m db))"
  unfolding MergeSecrets_def by (rule transaction_inv) (auto intro: mergeLoop_inv)

lemma insertLogs_inv: "db_inv db \<Longrightarrow> db_inv (snd (insertLogs drv es db))"
  by (induction drv es db rule: insertLogs.induct) (auto simp: exec_def split: option.splits)

lemma AppendLogs_inv [inv_intros]: "db_inv db \<Longrightarrow> db_inv (snd (AppendLogs drv es db))"
  unfolding AppendLogs_def
  by (rule transaction_inv) (auto intro: insertLogs_inv split: option.splits)

lemma CreateAgentToken_inv [inv_intros]: "db_inv db \<Longrightarrow> db_inv (snd (CreateAgentToken drv t db))"
  unfolding CreateAgentToken_def
  by (auto simp: tokenConstraint_def db_inv_def exec_def split: option.splits if_splits)

lemma map_revoked [simp]:
  "map tkID (map (\<lambda>t. if P t then t\<lparr>tkRevokedAt := r\<rparr> else t) ts) = map tkID ts"
  "map tkTokenHash (map (\<lambda>t. if P t then t\<lparr>tkRevokedAt := r\<rparr> else t) ts) = map tkTokenHash ts"
  "tkAgentID ` set (map (\<lambda>t. if P t then t\<lparr>tkRevokedAt := r\<rparr> else t) ts) = tkAgentID ` set ts"
  by (induction ts) auto

lemma db_inv_tokens:
  "map tkID ts = map tkID (tTokens db) \<Longrightarrow> map tkTokenHash ts = map tkTokenHash (tTokens db) \<Longrightarrow>
   tkAgentID ` set ts = tkAgentID ` set (tTokens db) \<Longrightarrow> db_inv (db\<lparr>tTokens := ts\<rparr>) = db_inv db"
  by (simp add: db_inv_def)

lemmas db_inv_revoked = db_inv_tokens [OF map_revoked]

lemma RevokeAgentToken_inv [inv_intros]: "db_inv db \<Longrightarrow> db_inv (snd (RevokeAgentToken drv now k db))"
  unfolding RevokeAgentToken_def by (rule exec_inv) (simp_all only: db_inv_revoked)

lemma RevokeAllAgentTokens_inv [inv_intros]:
  "db_inv db \<Longrightarrow> db_inv (snd (RevokeAllAgentTokens drv now k db))"
  unfolding RevokeAllAgentTokens_def by (rule exec_inv) (simp_all only: db_inv_revoked)

lemma New_inv: "db_inv db \<Longrightarrow> New drv e1 e2 db = Inr db' \<Longrightarrow> db_inv db'"
  by (auto simp: New_def db_inv_def exec_def comp_def Let_def image_image image_subset_iff split: option.splits)

section \<open>Sequences of operations\<close>

text \<open>The operations that change the database, with their arguments.\<close>

datatype store_op =
    OSaveAgent "gotime agent" | ODeleteAgent string
  | OSaveDeployment deployment_state | ODeleteDeployment string
  | OSavePlaybook "gotime playbook_record" | ODeletePlaybook string
  | OSaveArtifact "gotime artifact" | ODeleteArtifact string
  | OSetSecret string string | ODeleteSecret string | OMergeSecrets smap
  | OAppendLogs "gotime log_entry list"
  | OCreateAgentToken "gotime agent_token" | ORevokeAgentToken gotime string
  | ORevokeAllAgentTokens gotime string

fun perform :: "driver \<Rightarrow> store_op \<Rightarrow> db \<Rightarrow> err \<times> db" where
  "perform drv (OSaveAgent a) db = SaveAgent drv a db"
| "perform drv (ODeleteAgent k) db = DeleteAgent drv k db"
| "perform drv (OSaveDeployment d) db = SaveDeployment drv d db"
| "perform drv (ODeleteDeployment k) db = DeleteDeployment drv k db"
| "perform drv (OSavePlaybook p) db = SavePlaybook drv p db"
| "perform drv (ODeletePlaybook k) db = DeletePlaybook drv k db"
| "perform drv (OSaveArtifact a) db = SaveArtifact drv a db"
| "perform drv (ODeleteArtifact k) db = DeleteArtifact drv k db"
| "perform drv (OSetSecret k v) db = SetSecret drv k v db"
| "perform drv (ODeleteSecret k) db = DeleteSecret drv k db"
| "perform drv (OMergeSecrets m) db = MergeSecrets drv m db"
| "perform drv (OAppendLogs es) db = AppendLogs drv es db"
| "perform drv (OCreateAgentToken t) db = CreateAgentToken drv t db"
| "perform drv (ORevokeAgentToken now k) db = RevokeAgentToken drv now k db"
| "perform drv (ORevokeAllAgentTokens now k) db = RevokeAllAgentTokens drv now k db"

fun performs :: "(driver \<times> store_op) list \<Rightarrow> db \<Rightarrow> db" where
  "performs [] db = db"
| "performs ((drv, x) # xs) db = performs xs (snd (perform drv x db))"

lemma perform_inv: "db_inv db \<Longrightarrow> db_inv (snd (perform drv x db))"
  by (cases x) (simp_all add: inv_intros)

lemma performs_inv: "db_inv db \<Longrightarrow> db_inv (performs xs db)"
  by (induction xs db rule: performs.induct) (auto intro: perform_inv)

lemma perform_failed: "fst (perform drv x db) \<noteq> None \<Longrightarrow> snd (perform drv x db) = db"
proof (cases x)
  case (OCreateAgentToken t)
  assume "fst (perform drv x db) \<noteq> None"
  with OCreateAgentToken show ?thesis
    by (auto simp: CreateAgentToken_def exec_def split: option.splits)
qed (auto simp: SaveAgent_def DeleteAgent_def SaveDeployment_def DeleteDeployment_def SavePlaybook_def
      DeletePlaybook_def SaveArtifact_def DeleteArtifact_def SetSecret_def DeleteSecret_def MergeSecrets_def
      AppendLogs_def RevokeAgentToken_def RevokeAllAgentTokens_def exec_Some transaction_failed)

section \<open>Reads\<close>

lemma AppendLogs_done:
  assumes "fst (AppendLogs drv es db) = None"
  shows "snd (AppendLogs drv es db) = db\<lparr>tLogs := tLogs db @ map logRow es\<rparr>"
proof -
  have ins: "fst (insertLogs drv es db) = None \<Longrightarrow>
      snd (insertLogs drv es db) = db\<lparr>tLogs := tLogs db @ map logRow es\<rparr>" for db
    by (induction drv es db rule: insertLogs.induct) (auto simp: exec_def split: option.splits)
  from transaction_done [OF assms [unfolded AppendLogs_def]]
  have "insertLogs drv es db = (None, snd (AppendLogs drv es db))"
    unfolding AppendLogs_def [symmetric] by (simp split: option.splits)
  with ins [of db] show ?thesis by simp
qed

lemma mergeLoop_done:
  "fst (mergeLoop drv m db) = None \<Longrightarrow> distinct (map fst m) \<Longrightarrow>
   GetSecret okDrv (snd (mergeLoop drv m db)) k =
     (case map_of m k of None \<Rightarrow> GetSecret okDrv db k | Some v \<Rightarrow> Some v)"
proof (induction drv m db rule: mergeLoop.induct)
  case (2 drv k' v m db)
  then obtain db' where db': "SetSecret drv k' v db = (None, db')"
    by (auto split: prod.splits option.splits)
  have get: "GetSecret okDrv db' k = (if k = k' then Some v else GetSecret okDrv db k)" for k
    using arg_cong [OF secret_store.save_done [of drv "(k', v)" db k], of "map_option snd"] db'
    by (simp add: option.map_comp comp_def option.map_ident split: if_splits)
  from 2 db' have "GetSecret okDrv (snd (mergeLoop drv m db')) k =
      (case map_of m k of None \<Rightarrow> GetSecret okDrv db' k | Some v \<Rightarrow> Some v)" by simp
  moreover have "map_of m k' = None" using "2.prems" by (simp add: map_of_eq_None_iff)
  ultimately show ?case using db' get by (auto split: option.split)
qed simp

lemma latest_None [simp]: "latest rs = None \<longleftrightarrow> rs = []"
  by (cases rs) (auto split: option.splits)

lemma latest_max:
  "latest rs = Some r \<Longrightarrow> r \<in> set rs \<and> (\<forall>s\<in>set rs. dStartedAt s \<le> dStartedAt r)"
  by (induction rs arbitrary: r rule: latest.induct)
    (force split: option.splits if_splits)+

lemma row_map_same_key:
  "(\<And>x. key (f x) = key x) \<Longrightarrow> row key k (map f xs) = map_option f (row key k xs)"
  by (induction xs) (simp_all add: row_Cons)

text \<open>Rows whose start is the text of an instant, as every save of the server leaves them.\<close>

definition started_ok :: "string deployment_row \<Rightarrow> bool" where
  "started_ok r \<longleftrightarrow> time_ok (decodeTime (dStartedAt r)) \<and>
     dStartedAt r = encodeTime (decodeTime (dStartedAt r))"

lemma started_ok_save: "deployment_ok d \<Longrightarrow> started_ok (deploymentRow d)"
  by (simp add: started_ok_def deployment_ok_def deploymentRow_def)

lemma encodeTime_le:
  assumes "time_ok t" "time_ok t'" "encodeTime t \<le> encodeTime t'"
  shows "unix_sec t \<le> unix_sec t'"
  using format_order_seconds [of t' t] assms unfolding encodeTime_def by (meson leD not_le_imp_less)

lemma latest_started:
  assumes "latest rs = Some r" "list_all started_ok rs" "s \<in> set rs"
  shows "unix_sec (decodeTime (dStartedAt s)) \<le> unix_sec (decodeTime (dStartedAt r))"
proof (rule encodeTime_le)
  have "r \<in> set rs" "dStartedAt s \<le> dStartedAt r" using latest_max [OF assms(1)] assms(3) by auto
  then show "time_ok (decodeTime (dStartedAt s))" "time_ok (decodeTime (dStartedAt r))"
    "encodeTime (decodeTime (dStartedAt s)) \<le> encodeTime (decodeTime (dStartedAt r))"
    using assms(2,3) by (auto simp: started_ok_def list_all_iff)
qed

lemma enrich_select [simp]:
  "dID (enrichDeployment drv db d) = dID d" "dAgentID (enrichDeployment drv db d) = dAgentID d"
  "dPlaybookID (enrichDeployment drv db d) = dPlaybookID d" "dStatus (enrichDeployment drv db d) = dStatus d"
  "dResumeStepIndex (enrichDeployment drv db d) = dResumeStepIndex d"
  "dStartedAt (enrichDeployment drv db d) = dStartedAt d" "dUpdatedAt (enrichDeployment drv db d) = dUpdatedAt d"
  "dFinishedAt (enrichDeployment drv db d) = dFinishedAt d" "dErrorDetail (enrichDeployment drv db d) = dErrorDetail d"
  by (simp_all add: enrichDeployment_def)

lemma scan_select [simp]:
  "dID (scanDeployment r) = dID r" "dAgentID (scanDeployment r) = dAgentID r"
  "dPlaybookID (scanDeployment r) = dPlaybookID r" "dStatus (scanDeployment r) = dStatus r"
  "dResumeStepIndex (scanDeployment r) = dResumeStepIndex r" "dStartedAt (scanDeployment r) = decodeTime (dStartedAt r)"
  by (simp_all add: scanDeployment_def)

lemma filter_key_singleton:
  "distinct (map key xs) \<Longrightarrow>
   filter (\<lambda>x. key x = k \<and> P x) xs = (case row key k xs of None \<Rightarrow> [] | Some x \<Rightarrow> if P x then [x] else [])"
proof (induction xs)
  case (Cons x xs)
  then have "row key (key x) xs = None" by (simp add: row_None_iff)
  with Cons show ?case by (auto simp: row_Cons)
qed simp

lemma agent_logs:
  assumes "distinct (map dID (tDeployments db))"
  shows "GetLogsForAgent okDrv db ag = map scanLog (filter (\<lambda>l. case storedDeployment db (lgDeploymentID l) of
      None \<Rightarrow> False | Some d \<Rightarrow> dAgentID d = ag) (tLogs db))"
proof -
  have "concat (map (\<lambda>l. map (\<lambda>_. l) (filter (\<lambda>r. dID r = lgDeploymentID l \<and> dAgentID r = ag) (tDeployments db))) ls) =
    filter (\<lambda>l. case storedDeployment db (lgDeploymentID l) of None \<Rightarrow> False | Some d \<Rightarrow> dAgentID d = ag) ls" for ls :: "string log_entry list"
    by (induction ls) (auto simp: filter_key_singleton [OF assms] storedDeployment_def split: option.splits)
  then show ?thesis by (simp only: GetLogsForAgent_def query_okDrv)
qed

lemma revoke_all_done:
  assumes "fst (RevokeAllAgentTokens drv now ag db) = None"
  shows "GetAgentTokenByHash okDrv (snd (RevokeAllAgentTokens drv now ag db)) h =
    map_option (\<lambda>t. if tkAgentID t = ag \<and> tkRevokedAt t = None
       then t\<lparr>tkRevokedAt := Some (decodeTime (encodeTime now))\<rparr> else t) (GetAgentTokenByHash okDrv db h)"
  using exec_None [OF assms [unfolded RevokeAllAgentTokens_def]] unfolding RevokeAllAgentTokens_def [symmetric]
  by (auto simp: GetAgentTokenByHash_def row_map_same_key scanToken_def decodeTimePtr_def option.map_comp
      split: option.splits intro!: map_option_cong)

lemma row_without_other:
  "distinct (map key xs) \<Longrightarrow> row key k (without f j xs) =
    (case row key k xs of None \<Rightarrow> None | Some x \<Rightarrow> if f x = j then None else Some x)"
proof (induction xs)
  case (Cons x xs)
  then have "row key (key x) xs = None" by (simp add: row_None_iff)
  with Cons show ?case by (auto simp: without_def row_Cons)
qed (simp add: without_def)

lemma scan_new_logs:
  assumes "list_all (\<lambda>e. time_ok (lgTimestamp e)) es" "\<And>e. Q (logRow e) = Q' e"
  shows "map scanLog (filter Q (map logRow es)) = filter Q' es"
  using assms(1) by (induction es) (auto simp: assms(2))

section \<open>Properties\<close>

text \<open>
  C11. After any sequence of store operations on an empty database, with any driver failures,
  every table has distinct keys, no two tokens share a hash, and every token belongs to an
  agent that exists.
\<close>

theorem store_invariant: "db_inv (performs xs emptyDB)"
  by (intro performs_inv db_inv_empty)

text \<open>
  C13. A store operation that returns an error has changed nothing: single statements have no
  effect when they fail, and the transactions roll back.
\<close>

theorem store_error_unchanged: "fst (perform drv x db) \<noteq> None \<Longrightarrow> snd (perform drv x db) = db"
  by (rule perform_failed)

theorem store_error_unchanged_witness:
  "snd (perform (\<lambda>db st. if st = DeleteDeploymentLogs ''d'' then Some ''disk I/O error'' else None)
     (ODeleteDeployment ''d'') emptyDB) = emptyDB"
  by (rule store_error_unchanged) (simp add: DeleteDeployment_def transaction_def exec_def)

text \<open>
  After an agent was saved a read by its id returns it with the registration time of its
  first save, and every other agent is as before.
\<close>

lemma agent_roundtrip:
  assumes "fst (SaveAgent drv a db) = None" "agent_ok a"
  shows "GetAgent okDrv (snd (SaveAgent drv a db)) k =
    (if k \<noteq> aID a then GetAgent okDrv db k
     else case GetAgent okDrv db k of None \<Rightarrow> Some a
          | Some b \<Rightarrow> Some (a\<lparr>aRegisteredAt := aRegisteredAt b\<rparr>))"
  using agent_store.save_done [OF assms, of k] by (auto simp: keepAgent_def split: option.splits)

definition sampleAgent :: "string \<Rightarrow> gotime \<Rightarrow> gotime agent" where
  "sampleAgent i t = \<lparr>aID = i, aHostname = ''host'', aPlatform = PlatformLinux, aOS = [], aModel = [],
     aVendor = [], aIPAddress = [], aMetadata = [], aShells = [], aStatus = AgentStatusRegistered,
     aPlaybookID = [], aRegisteredAt = t, aLastActivityAt = t\<rparr>"

lemma time_ok_0 [simp]: "time_ok 0"
  by code_simp

lemma agent_roundtrip_example:
  "GetAgent okDrv (snd (SaveAgent okDrv (sampleAgent ''a'' 0) emptyDB)) ''a'' = Some (sampleAgent ''a'' 0)"
  using agent_roundtrip [of okDrv "sampleAgent ''a'' 0" emptyDB "''a''"]
  by (simp add: SaveAgent_def agent_ok_def sampleAgent_def GetAgent_def emptyDB_def)

text \<open>
  A deployment keeps its start through any number of later saves, successful or not,
  and no save of another deployment changes it.
\<close>

lemma deployment_start_kept:
  assumes "list_all bare_ok ds" "storedDeployment db k = Some d"
  shows "\<exists>d'. storedDeployment (performs (map (\<lambda>d. (drv, OSaveDeployment d)) ds) db) k = Some d' \<and>
    dStartedAt d' = dStartedAt d"
proof -
  have "performs (map (\<lambda>d. (drv, OSaveDeployment d)) ds) db = deployment_store.saves drv ds db"
    by (induction ds arbitrary: db) auto
  then show ?thesis using deployment_store.saves_keep_birth [OF assms] by simp
qed

definition sampleDeployment :: "string \<Rightarrow> gotime \<Rightarrow> deployment_state" where
  "sampleDeployment i t = \<lparr>dID = i, dAgentID = ''a'', dPlaybookID = ''p'', dStatus = DeploymentStatusRunning,
     dResumeStepIndex = 0, dStartedAt = t, dUpdatedAt = t, dFinishedAt = None, dErrorDetail = [],
     dHostname = [], dPlaybookName = []\<rparr>"

lemma time_ok_day [simp]: "time_ok 86400000000000"
  by code_simp

lemma deployment_start_kept_example:
  "\<exists>d'. storedDeployment (performs [(okDrv, OSaveDeployment (sampleDeployment ''d'' 86400000000000))]
      (snd (SaveDeployment okDrv (sampleDeployment ''d'' 0) emptyDB))) ''d'' = Some d' \<and> dStartedAt d' = 0"
  using deployment_start_kept [of "[sampleDeployment ''d'' 86400000000000]"
      "snd (SaveDeployment okDrv (sampleDeployment ''d'' 0) emptyDB)" "''d''" "sampleDeployment ''d'' 0" okDrv]
  by (simp add: bare_ok_def deployment_ok_def time_ptr_ok_def sampleDeployment_def storedDeployment_def
      SaveDeployment_def emptyDB_def row_Cons deploymentRow_def scanDeployment_def encodeTimePtr_def decodeTimePtr_def)

text \<open>
  The active deployment of an agent is one of its deployments, and none of them started
  in a later second.
\<close>

lemma active_deployment_latest:
  assumes "GetActiveDeploymentForAgent okDrv db agentID = Some d" "list_all started_ok (tDeployments db)"
  shows "d \<in> set (ListDeployments okDrv db) \<and> dAgentID d = agentID \<and>
    list_all (\<lambda>e. dAgentID e = agentID \<longrightarrow> unix_sec (dStartedAt e) \<le> unix_sec (dStartedAt d))
      (ListDeployments okDrv db)"
proof -
  let ?rs = "filter (\<lambda>r. dAgentID r = agentID) (tDeployments db)"
  from assms(1) obtain r where r: "latest ?rs = Some r" and d: "d = enrichDeployment okDrv db (scanDeployment r)"
    by (auto simp: GetActiveDeploymentForAgent_def)
  moreover have "r \<in> set ?rs" using latest_max [OF r] by blast
  moreover have "list_all started_ok ?rs" using assms(2) by (auto simp: list_all_iff)
  ultimately show ?thesis
    using latest_started [OF r] by (auto simp: ListDeployments_def list_all_iff)
qed

lemma active_deployment_latest_example:
  "\<exists>d. GetActiveDeploymentForAgent okDrv
     (performs [(okDrv, OSaveDeployment (sampleDeployment ''d'' 0)),
                (okDrv, OSaveDeployment (sampleDeployment ''e'' 86400000000000))] emptyDB) ''a'' = Some d \<and>
     86400 \<le> unix_sec (dStartedAt d)"
proof -
  let ?rows = "[deploymentRow (sampleDeployment ''d'' 0), deploymentRow (sampleDeployment ''e'' 86400000000000)]"
  define db where "db = performs [(okDrv, OSaveDeployment (sampleDeployment ''d'' 0)),
                (okDrv, OSaveDeployment (sampleDeployment ''e'' 86400000000000))] emptyDB"
  have rows: "tDeployments db = ?rows"
    by (simp add: db_def SaveDeployment_def emptyDB_def) (simp add: sampleDeployment_def)
  have "deployment_ok (sampleDeployment ''d'' 0)" "deployment_ok (sampleDeployment ''e'' 86400000000000)"
    by (simp_all add: deployment_ok_def sampleDeployment_def time_ptr_ok_def)
  then have ok: "list_all started_ok (tDeployments db)" unfolding rows by (simp add: started_ok_save)
  have ag: "filter (\<lambda>r. dAgentID r = ''a'') ?rows = ?rows"
    by (simp add: deploymentRow_def sampleDeployment_def)
  have "latest ?rows \<noteq> None" unfolding latest_None by simp
  then obtain d where d: "GetActiveDeploymentForAgent okDrv db ''a'' = Some d"
    unfolding GetActiveDeploymentForAgent_def queryRow_okDrv rows ag by blast
  have "unix_sec 86400000000000 = 86400" by (simp add: unix_sec_def nanos_per_sec_def)
  with active_deployment_latest [OF d ok] have "86400 \<le> unix_sec (dStartedAt d)"
    unfolding ListDeployments_def query_okDrv rows by (simp add: deploymentRow_def sampleDeployment_def)
  with d show ?thesis unfolding db_def by blast
qed

text \<open>
  Within a second the choice can be wrong: the texts drop trailing zeros of the fraction,
  and of a deployment started at .1 s and one started 20 ms later the earlier is returned.
\<close>

lemma active_deployment_not_latest:
  "map_option dID (GetActiveDeploymentForAgent okDrv
     (performs [(okDrv, OSaveDeployment (sampleDeployment ''first'' 100000000)),
                (okDrv, OSaveDeployment (sampleDeployment ''second'' 120000000))] emptyDB) ''a'') = Some ''first''"
proof -
  have "\<not> encodeTime 100000000 < encodeTime 120000000" by code_simp
  then show ?thesis
    by (simp add: SaveDeployment_def emptyDB_def GetActiveDeploymentForAgent_def deploymentRow_def sampleDeployment_def)
qed

text \<open>
  The agents are listed in the order of the query: every agent once, those with a blank
  hostname last, the others by their trimmed hostname without regard to case, then by id.
\<close>

lemma list_agents_order:
  "\<exists>rows. ListAgents okDrv db = map scanAgent rows \<and> mset rows = mset (tAgents db) \<and>
     sorted_wrt (\<lambda>a b. let blank = (\<lambda>x. sqlTrim (aHostname x) = []);
                           name = (\<lambda>x. map lower_char (sqlTrim (aHostname x)))
        in (blank b \<or> \<not> blank a) \<and> (blank a = blank b \<longrightarrow> name a < name b \<or> name a = name b \<and> aID a \<le> aID b)) rows"
proof -
  let ?R = "\<lambda>a b. let blank = (\<lambda>x. sqlTrim (aHostname x) = []);
                           name = (\<lambda>x. map lower_char (sqlTrim (aHostname x)))
        in (blank b \<or> \<not> blank a) \<and> (blank a = blank b \<longrightarrow> name a < name b \<or> name a = name b \<and> aID a \<le> aID b)"
  have R: "agentOrder a \<le> agentOrder b \<Longrightarrow> ?R a b" for a b
    by (auto simp: agentOrder_def Let_def less_list_code less_eq_list_code less_char_def split: if_splits)
  have "sorted (map agentOrder (sort_key agentOrder (tAgents db)))" by simp
  then have "sorted_wrt (\<lambda>a b. agentOrder a \<le> agentOrder b) (sort_key agentOrder (tAgents db))"
    by (simp only: sorted_map)
  then have "sorted_wrt ?R (sort_key agentOrder (tAgents db))"
    by (rule sorted_wrt_mono_rel [rotated]) (rule R)
  then show ?thesis
    by (intro exI [of _ "sort_key agentOrder (tAgents db)"]) (simp add: ListAgents_def)
qed

lemma list_agents_order_example:
  "\<exists>rows. ListAgents okDrv emptyDB = map scanAgent rows \<and> mset rows = mset (tAgents emptyDB)"
  using list_agents_order [of emptyDB] by blast

text \<open>
  Appended log entries are read back in the order they were written, behind what was
  there, each under its own deployment; an agent's logs are those of its deployments, once each.
\<close>

lemma logs_in_order:
  assumes "fst (AppendLogs drv es db) = None" "list_all (\<lambda>e. time_ok (lgTimestamp e)) es"
    "distinct (map dID (tDeployments db))"
  shows "GetLogsForDeployment okDrv (snd (AppendLogs drv es db)) k =
      GetLogsForDeployment okDrv db k @ filter (\<lambda>e. lgDeploymentID e = k) es \<and>
    GetLogsForAgent okDrv (snd (AppendLogs drv es db)) ag =
      GetLogsForAgent okDrv db ag @
      filter (\<lambda>e. case storedDeployment db (lgDeploymentID e) of None \<Rightarrow> False | Some d \<Rightarrow> dAgentID d = ag) es"
proof (intro conjI)
  note new = AppendLogs_done [OF assms(1)] filter_append map_append db.select_convs db.update_convs
  let ?db' = "db\<lparr>tLogs := tLogs db @ map logRow es\<rparr>"
  have eq: "tLogs ?db' = tLogs db @ map logRow es" "storedDeployment ?db' = storedDeployment db"
      "tDeployments ?db' = tDeployments db"
    by (simp_all add: storedDeployment_def fun_eq_iff)
  show "GetLogsForDeployment okDrv (snd (AppendLogs drv es db)) k =
      GetLogsForDeployment okDrv db k @ filter (\<lambda>e. lgDeploymentID e = k) es"
    unfolding new GetLogsForDeployment_def query_okDrv eq by (simp only: scan_new_logs [OF assms(2)] row_keys)
  have "distinct (map dID (tDeployments ?db'))" using assms(3) unfolding eq .
  then show "GetLogsForAgent okDrv (snd (AppendLogs drv es db)) ag = GetLogsForAgent okDrv db ag @
      filter (\<lambda>e. case storedDeployment db (lgDeploymentID e) of None \<Rightarrow> False | Some d \<Rightarrow> dAgentID d = ag) es"
    unfolding new agent_logs [OF assms(3)] agent_logs [OF \<open>distinct (map dID (tDeployments ?db'))\<close>] eq
    by (simp only: filter_append map_append scan_new_logs [OF assms(2)] row_keys)
qed

lemma logs_in_order_example:
  "GetLogsForDeployment okDrv (snd (AppendLogs okDrv
     [\<lparr>lgDeploymentID = ''d'', lgJobName = ''j'', lgStepIndex = 0, lgLevel = LogLevelInfo, lgMessage = ''one'', lgTimestamp = 0\<rparr>,
      \<lparr>lgDeploymentID = ''d'', lgJobName = ''j'', lgStepIndex = 1, lgLevel = LogLevelInfo, lgMessage = ''two'', lgTimestamp = 0\<rparr>]
     emptyDB)) ''d'' =
     [\<lparr>lgDeploymentID = ''d'', lgJobName = ''j'', lgStepIndex = 0, lgLevel = LogLevelInfo, lgMessage = ''one'', lgTimestamp = 0\<rparr>,
      \<lparr>lgDeploymentID = ''d'', lgJobName = ''j'', lgStepIndex = 1, lgLevel = LogLevelInfo, lgMessage = ''two'', lgTimestamp = 0\<rparr>]"
  (is "GetLogsForDeployment okDrv (snd (AppendLogs okDrv ?es emptyDB)) ''d'' = ?es")
proof -
  have "fst (AppendLogs okDrv ?es emptyDB) = None"
    by (simp add: AppendLogs_def transaction_def okDrv_def exec_def)
  from logs_in_order [OF this, of "''d''" "''a''"] show ?thesis
    by (simp add: emptyDB_def GetLogsForDeployment_def)
qed

text \<open>
  \<open>RevokeAllAgentTokens\<close> leaves the agent without a live token: every token of the agent
  that a hash leads to is revoked, tokens revoked earlier keep their time, and the tokens of
  other agents are unchanged.
\<close>

lemma revoke_all_tokens:
  assumes "fst (RevokeAllAgentTokens drv now ag db) = None"
    "GetAgentTokenByHash okDrv (snd (RevokeAllAgentTokens drv now ag db)) h = Some t"
  shows "(tkAgentID t = ag \<longrightarrow> tkRevokedAt t \<noteq> None) \<and>
    (\<exists>t0. GetAgentTokenByHash okDrv db h = Some t0 \<and> tkAgentID t = tkAgentID t0 \<and>
       (tkAgentID t0 \<noteq> ag \<or> tkRevokedAt t0 \<noteq> None \<longrightarrow> t = t0))"
proof -
  let ?P = "\<lambda>t. tkAgentID t = ag \<and> tkRevokedAt t = None"
  obtain t0 where t0: "GetAgentTokenByHash okDrv db h = Some t0"
    "t = (if ?P t0 then t0\<lparr>tkRevokedAt := Some (decodeTime (encodeTime now))\<rparr> else t0)"
    using assms(2) unfolding revoke_all_done [OF assms(1)] by blast
  then show ?thesis by (cases "?P t0") auto
qed

definition sampleToken :: "gotime agent_token" where
  "sampleToken = \<lparr>tkID = ''t'', tkAgentID = ''a'', tkTokenHash = ''h'', tkCreatedAt = 0,
     tkExpiresAt = None, tkRevokedAt = None\<rparr>"

definition sampleDB :: db where
  "sampleDB = performs [(okDrv, OSaveAgent (sampleAgent ''a'' 0)), (okDrv, OCreateAgentToken sampleToken)] emptyDB"

lemma sampleDB_tables: "tTokens sampleDB = [tokenRow sampleToken]" "tAgents sampleDB = [agentRow (sampleAgent ''a'' 0)]"
  by (simp_all add: sampleDB_def SaveAgent_def CreateAgentToken_def tokenConstraint_def emptyDB_def)
    (simp_all add: sampleToken_def sampleAgent_def)

lemma revoke_all_tokens_example:
  "\<exists>t. GetAgentTokenByHash okDrv (snd (RevokeAllAgentTokens okDrv 5 ''a'' sampleDB)) ''h'' = Some t \<and>
     tkRevokedAt t \<noteq> None"
proof -
  have "GetAgentTokenByHash okDrv sampleDB ''h'' \<noteq> None"
    by (simp add: GetAgentTokenByHash_def sampleDB_tables row_Cons) (simp add: sampleToken_def)
  moreover have rev: "fst (RevokeAllAgentTokens okDrv 5 ''a'' sampleDB) = None"
    by (simp add: RevokeAllAgentTokens_def)
  ultimately obtain t where t: "GetAgentTokenByHash okDrv (snd (RevokeAllAgentTokens okDrv 5 ''a'' sampleDB)) ''h'' = Some t"
    by (auto simp: revoke_all_done)
  then have "tkAgentID t = ''a''"
    by (auto simp: RevokeAllAgentTokens_def GetAgentTokenByHash_def sampleDB_tables row_Cons scanToken_def split: if_splits)
       (simp_all add: sampleToken_def)
  with revoke_all_tokens [OF rev t] t show ?thesis by blast
qed

text \<open>
  Deleting an agent deletes its tokens with it: no hash leads to a token of that agent any
  more, and the tokens of other agents stay.
\<close>

lemma delete_agent_cascades:
  assumes "fst (DeleteAgent drv k db) = None" "db_inv db"
  shows "GetAgent okDrv (snd (DeleteAgent drv k db)) k = None \<and>
    GetAgentTokenByHash okDrv (snd (DeleteAgent drv k db)) h =
      (case GetAgentTokenByHash okDrv db h of None \<Rightarrow> None
       | Some t \<Rightarrow> if tkAgentID t = k then None else Some t)"
proof -
  let ?ts = "tTokens db"
  have db': "snd (DeleteAgent drv k db) = db\<lparr>tAgents := without aID k (tAgents db), tTokens := without tkAgentID k ?ts\<rparr>"
    using exec_None assms(1) by (simp add: DeleteAgent_def)
  have "distinct (map tkTokenHash ?ts)" using assms(2) by (simp add: db_inv_def)
  note row_filtered = row_without_other [OF this, of h tkAgentID k]
  show ?thesis
    using row_filtered agent_store.delete_done [OF assms(1), of k]
    by (auto simp: db' GetAgentTokenByHash_def scanToken_def split: option.splits)
qed

lemma delete_agent_cascades_example:
  "GetAgentTokenByHash okDrv (snd (DeleteAgent okDrv ''a'' sampleDB)) ''h'' = None"
proof -
  have "GetAgentTokenByHash okDrv sampleDB ''h'' = Some (scanToken (tokenRow sampleToken))"
    by (simp add: GetAgentTokenByHash_def sampleDB_tables row_Cons) (simp add: sampleToken_def)
  moreover have "db_inv sampleDB" unfolding sampleDB_def by (intro performs_inv db_inv_empty)
  ultimately show ?thesis
    using delete_agent_cascades [of okDrv "''a''" sampleDB "''h''"]
    by (simp add: DeleteAgent_def scanToken_def) (simp add: tokenRow_def sampleToken_def)
qed

text \<open>
  \<open>MergeSecrets\<close> is all or nothing: on success the imported names have the imported
  values and every other secret is as it was, on an error nothing has changed.
\<close>

lemma merge_secrets:
  assumes "distinct (map fst m)"
  shows "if fst (MergeSecrets drv m db) = None
    then GetSecret okDrv (snd (MergeSecrets drv m db)) k =
      (case map_of m k of None \<Rightarrow> GetSecret okDrv db k | Some v \<Rightarrow> Some v)
    else snd (MergeSecrets drv m db) = db"
  using transaction_done [of drv "mergeLoop drv m" db] transaction_failed [of drv "mergeLoop drv m" db]
    mergeLoop_done [OF _ assms, of drv db k]
  unfolding MergeSecrets_def by (cases "fst (transaction drv (mergeLoop drv m) db)") simp_all

lemma merge_secrets_example:
  "GetSecret okDrv (snd (MergeSecrets okDrv [(''A'', ''1''), (''B'', ''2'')] emptyDB)) ''B'' = Some ''2''"
  using merge_secrets [of "[(''A'', ''1''), (''B'', ''2'')]" okDrv emptyDB "''B''"]
  by (simp add: MergeSecrets_def transaction_def SetSecret_def okDrv_def exec_def)

end
