(* ===== verification/Hub.thy ===== *)
theory Hub
  imports Common_Types
begin

text \<open>
  The WebSocket hub of \<^verbatim>\<open>internal/server/handlers/handler.go\<close>: connection objects on a
  heap, the map from agents to their current connection, and the write pump of each
  connection. A buffered channel is the list of all messages ever put on it and the number of
  those taken from it, so that the buffer is what lies between. Closing a closed channel
  panics in Go: \<open>register\<close> returns \<open>None\<close> for that. The interleaving of handlers and
  pumps is a step relation; the invariants hold in every reachable hub. A send marshals its
  message first, which cannot fail for the payloads of the sources.
\<close>

section \<open>Connections\<close>

record agent_conn =
  acAgentID :: string
  acQueue :: "server_msg list"
  acTaken :: nat
  acStop :: bool
  acPump :: bool
  acWritten :: "server_msg list"
  acClosed :: bool

record hub =
  hHeap :: "agent_conn list"
  hConns :: "string \<Rightarrow> nat option"

definition NewHub :: hub where
  "NewHub = \<lparr>hHeap = [], hConns = (\<lambda>_. None)\<rparr>"

definition outboxCap :: nat where "outboxCap = 64"

definition buffered :: "agent_conn \<Rightarrow> nat" where
  "buffered c = length (acQueue c) - acTaken c"

text \<open>\<^verbatim>\<open>newAgentConn\<close>: the address of the new object, its pump started.\<close>

definition newAgentConn :: "string \<Rightarrow> hub \<Rightarrow> nat \<times> hub" where
  "newAgentConn agentID h = (length (hHeap h),
     h\<lparr>hHeap := hHeap h @ [\<lparr>acAgentID = agentID, acQueue = [], acTaken = 0, acStop = False,
        acPump = True, acWritten = [], acClosed = False\<rparr>]\<rparr>)"

definition register :: "nat \<Rightarrow> hub \<Rightarrow> hub option" where
  "register conn h = (let agentID = acAgentID (hHeap h ! conn) in
     case hConns h agentID of
       None \<Rightarrow> Some (h\<lparr>hConns := (hConns h)(agentID := Some conn)\<rparr>)
     | Some old \<Rightarrow>
         if acStop (hHeap h ! old) then None
         else Some (h\<lparr>hHeap := (hHeap h)[old := (hHeap h ! old)\<lparr>acStop := True, acClosed := True\<rparr>],
                      hConns := (hConns h)(agentID := Some conn)\<rparr>))"

definition unregister :: "string \<Rightarrow> hub \<Rightarrow> hub" where
  "unregister agentID h = h\<lparr>hConns := (hConns h)(agentID := None)\<rparr>"

definition IsConnected :: "hub \<Rightarrow> string \<Rightarrow> bool" where
  "IsConnected h agentID \<longleftrightarrow> hConns h agentID \<noteq> None"

definition Send :: "string \<Rightarrow> server_msg \<Rightarrow> hub \<Rightarrow> bool \<times> hub" where
  "Send agentID msg h = (case hConns h agentID of
      None \<Rightarrow> (False, h)
    | Some p \<Rightarrow> let c = hHeap h ! p in
        if buffered c < outboxCap
        then (True, h\<lparr>hHeap := (hHeap h)[p := c\<lparr>acQueue := acQueue c @ [msg]\<rparr>]\<rparr>)
        else (False, h))"

text \<open>
  One turn of the loop of \<^verbatim>\<open>writePump\<close>, by the case its select takes: a message from the
  outbox, with the outcome of the write; a tick, with the outcome of the ping; the closed stop
  channel. The outbox is closed nowhere, so the case of a closed outbox does not arise.
\<close>

datatype pump_case = TakeMessage bool | Tick bool | Stopped

fun pumpEnabled :: "pump_case \<Rightarrow> agent_conn \<Rightarrow> bool" where
  "pumpEnabled (TakeMessage wrote) c \<longleftrightarrow> acPump c \<and> acTaken c < length (acQueue c)"
| "pumpEnabled (Tick ponged) c \<longleftrightarrow> acPump c"
| "pumpEnabled Stopped c \<longleftrightarrow> acPump c \<and> acStop c"

fun writePump :: "pump_case \<Rightarrow> agent_conn \<Rightarrow> agent_conn" where
  "writePump (TakeMessage wrote) c =
     (if wrote then c\<lparr>acTaken := acTaken c + 1, acWritten := acWritten c @ [acQueue c ! acTaken c]\<rparr>
      else c\<lparr>acTaken := acTaken c + 1, acPump := False\<rparr>)"
| "writePump (Tick ponged) c = (if ponged then c else c\<lparr>acPump := False\<rparr>)"
| "writePump Stopped c = c\<lparr>acClosed := True, acPump := False\<rparr>"

section \<open>Interleavings\<close>

text \<open>
  The steps that change a hub: a handler connects an agent, a handler's deferred function
  unregisters its agent, a message is sent, a pump takes a turn.
\<close>

inductive hub_step :: "hub \<Rightarrow> hub \<Rightarrow> bool" where
  connect: "newAgentConn agentID h = (p, h1) \<Longrightarrow> register p h1 = Some h2 \<Longrightarrow> hub_step h h2"
| leave: "hub_step h (unregister agentID h)"
| send: "hub_step h (snd (Send agentID msg h))"
| pump: "p < length (hHeap h) \<Longrightarrow> pumpEnabled k (hHeap h ! p) \<Longrightarrow>
    hub_step h (h\<lparr>hHeap := (hHeap h)[p := writePump k (hHeap h ! p)]\<rparr>)"

definition hub_reach :: "hub \<Rightarrow> bool" where
  "hub_reach h \<longleftrightarrow> hub_step\<^sup>*\<^sup>* NewHub h"

text \<open>
  A connection: no more taken than queued, at most 64 waiting, and what was written to the
  socket is what was taken, short of the one message whose write ended the pump.
\<close>

definition conn_inv :: "agent_conn \<Rightarrow> bool" where
  "conn_inv c \<longleftrightarrow> acTaken c \<le> length (acQueue c) \<and> buffered c \<le> outboxCap \<and>
     (acWritten c = take (acTaken c) (acQueue c) \<or>
      \<not> acPump c \<and> 0 < acTaken c \<and> acWritten c = take (acTaken c - 1) (acQueue c))"

text \<open>A hub: a registered connection exists, is its agent's, and has not been stopped.\<close>

definition hub_inv :: "hub \<Rightarrow> bool" where
  "hub_inv h \<longleftrightarrow> list_all conn_inv (hHeap h) \<and>
     (\<forall>a p. hConns h a = Some p \<longrightarrow>
        p < length (hHeap h) \<and> acAgentID (hHeap h ! p) = a \<and> \<not> acStop (hHeap h ! p))"

lemma hub_invD:
  "hub_inv h \<Longrightarrow> hConns h a = Some p \<Longrightarrow>
     p < length (hHeap h) \<and> acAgentID (hHeap h ! p) = a \<and> \<not> acStop (hHeap h ! p)"
  by (simp add: hub_inv_def)

lemma hub_inv_conn: "hub_inv h \<Longrightarrow> p < length (hHeap h) \<Longrightarrow> conn_inv (hHeap h ! p)"
  by (simp add: hub_inv_def list_all_length)

lemma hub_inv_NewHub [simp]: "hub_inv NewHub"
  by (simp add: hub_inv_def NewHub_def)

lemma hub_inv_update:
  assumes "hub_inv h" "p < length (hHeap h)" "conn_inv c" "acAgentID c = acAgentID (hHeap h ! p)"
    "acStop c = acStop (hHeap h ! p)"
  shows "hub_inv (h\<lparr>hHeap := (hHeap h)[p := c]\<rparr>)"
  using assms by (auto simp: hub_inv_def list_all_length nth_list_update)

lemma writePump_inv: "conn_inv c \<Longrightarrow> pumpEnabled k c \<Longrightarrow> conn_inv (writePump k c)"
  by (cases k) (auto simp: conn_inv_def buffered_def take_Suc_conv_app_nth)

lemma writePump_select [simp]:
  "acAgentID (writePump k c) = acAgentID c" "acStop (writePump k c) = acStop c"
  by (cases k; simp)+

lemma unregister_inv [inv_intros]: "hub_inv h \<Longrightarrow> hub_inv (unregister a h)"
  by (auto simp: hub_inv_def unregister_def)

lemma Send_inv [inv_intros]: "hub_inv h \<Longrightarrow> hub_inv (snd (Send a msg h))"
proof (cases "hConns h a")
  case (Some p)
  assume inv: "hub_inv h"
  note p = hub_invD [OF inv Some]
  then have c: "conn_inv (hHeap h ! p)" using hub_inv_conn [OF inv] by blast
  show ?thesis
  proof (cases "buffered (hHeap h ! p) < outboxCap")
    case True
    with c have "conn_inv ((hHeap h ! p)\<lparr>acQueue := acQueue (hHeap h ! p) @ [msg]\<rparr>)"
      by (auto simp: conn_inv_def buffered_def)
    with True Some p show ?thesis by (simp add: Send_def Let_def hub_inv_update [OF inv])
  qed (simp add: Send_def Some Let_def inv)
qed (simp add: Send_def)

lemma connect_total:
  assumes "hub_inv h" "newAgentConn a h = (p, h1)"
  shows "\<exists>h2. register p h1 = Some h2 \<and> hub_inv h2 \<and> hConns h2 = (hConns h)(a := Some p) \<and>
    p < length (hHeap h2) \<and> hHeap h2 ! p = \<lparr>acAgentID = a, acQueue = [], acTaken = 0, acStop = False,
        acPump = True, acWritten = [], acClosed = False\<rparr>"
proof -
  from assms(2) have p: "p = length (hHeap h)" and h1: "hConns h1 = hConns h"
    "hHeap h1 = hHeap h @ [\<lparr>acAgentID = a, acQueue = [], acTaken = 0, acStop = False,
        acPump = True, acWritten = [], acClosed = False\<rparr>]"
    by (auto simp: newAgentConn_def)
  note old = hub_invD [OF assms(1)]
  have new: "conn_inv (hHeap h1 ! p)" "acAgentID (hHeap h1 ! p) = a" "\<not> acStop (hHeap h1 ! p)"
    by (simp_all add: p h1 conn_inv_def buffered_def)
  show ?thesis
  proof (cases "hConns h a")
    case None
    with old new assms(1) show ?thesis
      by (auto simp: register_def h1 p hub_inv_def nth_append less_SucI)
  next
    case (Some q)
    with old have q: "q < length (hHeap h)" "acAgentID (hHeap h ! q) = a" "\<not> acStop (hHeap h ! q)" by auto
    have "conn_inv ((hHeap h ! q)\<lparr>acStop := True, acClosed := True\<rparr>)"
      using hub_inv_conn [OF assms(1) q(1)] by (simp add: conn_inv_def buffered_def)
    then have "list_all conn_inv ((hHeap h1)[q := (hHeap h ! q)\<lparr>acStop := True, acClosed := True\<rparr>])"
      using assms(1) new(1) q(1) by (auto simp: list_all_length nth_list_update h1 hub_inv_def nth_append p conn_inv_def buffered_def)
    moreover have "b \<noteq> a \<Longrightarrow> hConns h b = Some r \<Longrightarrow> r \<noteq> q" for b r
      using old q(2) by auto
    ultimately show ?thesis
      using Some q old by (auto simp: register_def h1 p hub_inv_def nth_append nth_list_update Let_def less_SucI)
  qed
qed

lemma hub_step_inv:
  assumes "hub_step h h'" "hub_inv h"
  shows "hub_inv h'"
  using assms
proof (cases rule: hub_step.cases)
  case (connect agentID p h1)
  with connect_total [OF assms(2)] show ?thesis by fastforce
next
  case (pump p k)
  with assms(2) show ?thesis
    by (auto intro!: hub_inv_update writePump_inv hub_inv_conn)
qed (auto intro: inv_intros)

interpretation hub_system: transition_system NewHub hub_step hub_inv
  by unfold_locales (simp, rule hub_step_inv)

lemma hub_reach_inv: "hub_reach h \<Longrightarrow> hub_inv h"
  unfolding hub_reach_def by (rule hub_system.inv_reach)

lemma hub_reach_start: "hub_reach NewHub"
  by (simp add: hub_reach_def)

lemma hub_reach_step: "hub_reach h \<Longrightarrow> hub_step h h' \<Longrightarrow> hub_reach h'"
  by (simp add: hub_reach_def)

section \<open>What the service relies on\<close>

text \<open>
  The interface \<^verbatim>\<open>ports.Hub\<close>: asking for a connection and queueing a message. A message is
  queued only for a connected agent, and sending changes neither who is connected nor the
  consistency of the hub.
\<close>

locale message_hub =
  fixes isConnected :: "'h \<Rightarrow> string \<Rightarrow> bool"
    and send :: "string \<Rightarrow> 'm \<Rightarrow> 'h \<Rightarrow> bool \<times> 'h"
    and consistent :: "'h \<Rightarrow> bool"
  assumes send_refused: "\<not> fst (send a m h) \<Longrightarrow> snd (send a m h) = h"
    and send_connected: "fst (send a m h) \<Longrightarrow> isConnected h a"
    and send_keeps: "isConnected (snd (send a m h)) b = isConnected h b"
    and send_consistent: "consistent h \<Longrightarrow> consistent (snd (send a m h))"
begin

lemma send_disconnected: "\<not> isConnected h a \<Longrightarrow> send a m h = (False, h)"
  using send_connected send_refused by (metis (full_types) prod.collapse)

fun sendAll :: "string \<Rightarrow> 'm list \<Rightarrow> 'h \<Rightarrow> 'h" where
  "sendAll a [] h = h"
| "sendAll a (m # ms) h = sendAll a ms (snd (send a m h))"

lemma sendAll_consistent: "consistent h \<Longrightarrow> consistent (sendAll a ms h)"
  by (induction ms arbitrary: h) (auto intro: send_consistent)

lemma sendAll_keeps: "isConnected (sendAll a ms h) b = isConnected h b"
  by (induction ms arbitrary: h) (auto simp: send_keeps)

lemma sendAll_disconnected: "\<not> isConnected h a \<Longrightarrow> sendAll a ms h = h"
  by (induction ms) (auto simp: send_disconnected)

end

interpretation ports_hub: message_hub IsConnected Send hub_inv
proof unfold_locales
  show "hub_inv h \<Longrightarrow> hub_inv (snd (Send a m h))" for a m h by (rule Send_inv)
qed (auto simp: Send_def IsConnected_def Let_def split: option.splits if_splits)

section \<open>Properties\<close>

text \<open>
  C26. In every reachable hub a new connection can be registered: the stop channel of the
  connection it replaces has not been closed before, so \<open>register\<close> never panics.
\<close>

theorem register_never_panics:
  assumes "hub_reach h" "newAgentConn a h = (p, h1)"
  shows "\<exists>h2. register p h1 = Some h2 \<and> IsConnected h2 a"
  using connect_total [OF hub_reach_inv [OF assms(1)] assms(2)] by (auto simp: IsConnected_def)

theorem register_never_panics_witness:
  "\<exists>h2. register (fst (newAgentConn ''a'' NewHub)) (snd (newAgentConn ''a'' NewHub)) = Some h2 \<and>
     IsConnected h2 ''a''"
  by (rule register_never_panics [OF hub_reach_start]) simp

text \<open>
  C27. In every reachable hub each connection has at most 64 messages waiting, and what its
  pump wrote to the socket is a prefix of what was queued for it: nothing is reordered,
  repeated or skipped.
\<close>

theorem outbox_fifo:
  assumes "hub_reach h" "p < length (hHeap h)"
  shows "prefix (acWritten (hHeap h ! p)) (acQueue (hHeap h ! p)) \<and> buffered (hHeap h ! p) \<le> 64"
  using hub_inv_conn [OF hub_reach_inv [OF assms(1)] assms(2)]
  by (auto simp: conn_inv_def outboxCap_def take_is_prefix)

theorem outbox_fifo_witness:
  "prefix (acWritten (hHeap (the (register 0 (snd (newAgentConn ''a'' NewHub)))) ! 0)) [] \<and>
   hub_reach (the (register 0 (snd (newAgentConn ''a'' NewHub))))"
proof -
  have reg: "register 0 (snd (newAgentConn ''a'' NewHub)) \<noteq> None"
    by (simp add: register_def newAgentConn_def NewHub_def)
  then have "hub_step NewHub (the (register 0 (snd (newAgentConn ''a'' NewHub))))"
    by (intro hub_step.connect [of "''a''" _ 0]) (auto simp: newAgentConn_def NewHub_def)
  then have r: "hub_reach (the (register 0 (snd (newAgentConn ''a'' NewHub))))"
    by (rule hub_reach_step [OF hub_reach_start])
  with outbox_fifo [OF r, of 0] show ?thesis
    by (simp add: register_def newAgentConn_def NewHub_def)
qed

text \<open>
  When an agent reconnects before its old handler has finished, the old handler's deferred
  \<open>unregister\<close> removes the new connection: the agent counts as disconnected and is sent
  nothing, while its new connection is live.
\<close>

lemma unregister_drops_replacement:
  assumes "hub_inv h" "hConns h a = Some old" "newAgentConn a h = (new, h1)" "register new h1 = Some h2"
  shows "\<not> IsConnected (unregister a h2) a \<and> fst (Send a msg (unregister a h2)) = False \<and>
    \<not> acStop (hHeap (unregister a h2) ! new) \<and> acPump (hHeap (unregister a h2) ! new)"
  using connect_total [OF assms(1,3)] assms(4) by (auto simp: unregister_def IsConnected_def Send_def)

definition onceConnected :: hub where
  "onceConnected = \<lparr>hHeap = [\<lparr>acAgentID = ''a'', acQueue = [], acTaken = 0, acStop = False,
        acPump = True, acWritten = [], acClosed = False\<rparr>], hConns = [''a'' \<mapsto> 0]\<rparr>"

lemma unregister_drops_replacement_example:
  "\<not> IsConnected (unregister ''a'' (the (register 1 (snd (newAgentConn ''a'' onceConnected))))) ''a''"
proof -
  have "hub_inv onceConnected"
    by (auto simp: hub_inv_def onceConnected_def conn_inv_def buffered_def split: if_splits)
  moreover have "hConns onceConnected ''a'' = Some 0" "newAgentConn ''a'' onceConnected = (1, snd (newAgentConn ''a'' onceConnected))"
    by (simp_all add: onceConnected_def newAgentConn_def)
  moreover obtain h2 where "register 1 (snd (newAgentConn ''a'' onceConnected)) = Some h2"
    using connect_total calculation by blast
  ultimately show ?thesis using unregister_drops_replacement by fastforce
qed

end
