(* ===== verification/Command_Store.thy ===== *)
theory Command_Store
  imports Prelude
begin

text \<open>
  The in-memory command sessions of \<^verbatim>\<open>handler.go\<close>. A session is reached only through
  the store, so the pointers of the source are the entries of a map.
\<close>

record command_session =
  csAgentID :: string
  csCommand :: string
  csOutput :: "string list"
  csExitCode :: int
  csErrMsg :: string
  csDone :: bool

type_synonym command_store = "string \<Rightarrow> command_session option"

definition NewCommandStore :: command_store where
  "NewCommandStore = (\<lambda>_. None)"

definition Create :: "string \<Rightarrow> string \<Rightarrow> string \<Rightarrow> command_store \<Rightarrow> command_store" where
  "Create cmdID agentID command s = s(cmdID := Some \<lparr>csAgentID = agentID, csCommand = command,
     csOutput = [], csExitCode = 0, csErrMsg = [], csDone = False\<rparr>)"

definition Get :: "command_store \<Rightarrow> string \<Rightarrow> command_session option" where
  "Get s cmdID = s cmdID"

definition Snapshot :: "command_session \<Rightarrow> string list \<times> bool \<times> int \<times> string" where
  "Snapshot c = (csOutput c, csDone c, csExitCode c, csErrMsg c)"

definition AppendOutput :: "string \<Rightarrow> string \<Rightarrow> command_store \<Rightarrow> command_store" where
  "AppendOutput cmdID line s = (case s cmdID of None \<Rightarrow> s
     | Some c \<Rightarrow> s(cmdID := Some (c\<lparr>csOutput := csOutput c @ [line]\<rparr>)))"

definition SetDone :: "string \<Rightarrow> int \<Rightarrow> string \<Rightarrow> command_store \<Rightarrow> command_store" where
  "SetDone cmdID exitCode errMsg s = (case s cmdID of None \<Rightarrow> s
     | Some c \<Rightarrow> s(cmdID := Some (c\<lparr>csDone := True, csExitCode := exitCode, csErrMsg := errMsg\<rparr>)))"

text \<open>The chunks of one command, in the order they arrive.\<close>

fun appendAll :: "string \<Rightarrow> string list \<Rightarrow> command_store \<Rightarrow> command_store" where
  "appendAll cmdID [] s = s"
| "appendAll cmdID (l # ls) s = appendAll cmdID ls (AppendOutput cmdID l s)"

lemma appendAll_Some: "s k = Some c \<Longrightarrow> appendAll k ls s = s(k := Some (c\<lparr>csOutput := csOutput c @ ls\<rparr>))"
  by (induction ls arbitrary: s c) (auto simp: AppendOutput_def)

lemma Get_other [simp]:
  "j \<noteq> k \<Longrightarrow> Get (AppendOutput k l s) j = Get s j" "j \<noteq> k \<Longrightarrow> Get (SetDone k x m s) j = Get s j"
  "j \<noteq> k \<Longrightarrow> Get (Create k a cmd s) j = Get s j"
  by (auto simp: Get_def AppendOutput_def SetDone_def Create_def split: option.splits)

text \<open>
  A command that was created, streamed its output and completed is read back with exactly
  its output lines in order, its exit code and its error; other sessions are untouched.
\<close>

lemma command_roundtrip:
  "map_option Snapshot (Get (SetDone k x m (appendAll k ls (Create k a cmd s))) j) =
     (if j = k then Some (ls, True, x, m) else map_option Snapshot (Get s j))"
  by (simp add: Get_def SetDone_def Create_def appendAll_Some Snapshot_def)

end
