(* ===== verification/Ulid.thy ===== *)
theory Ulid
  imports Go_Time "HOL-Library.Word"
begin

unbundle bit_operations_syntax

text \<open>
  Identifiers: \<^verbatim>\<open>internal/common/id.go\<close>. An identifier is 26 characters of Crockford's
  base 32, ten for the milliseconds of the clock and sixteen for ten random bytes. The clock
  value is a \<^verbatim>\<open>uint64\<close>, the random bytes are \<^verbatim>\<open>byte\<close>s, and the shifts and
  masks are those of the source. Go 1.26's \<^verbatim>\<open>rand.Read\<close> never returns an error, so the
  source's panic is unreachable and the bytes are an argument.
\<close>

definition ulidAlphabet :: string where
  "ulidAlphabet = ''0123456789ABCDEFGHJKMNPQRSTVWXYZ''"

text \<open>\<^verbatim>\<open>ulidAlphabet[i]\<close>, for the 64-bit and for the 8-bit index expressions.\<close>

definition sym :: "'a::len word \<Rightarrow> char" where
  "sym i = ulidAlphabet ! unat i"

definition newULID :: "64 word \<Rightarrow> 8 word list \<Rightarrow> string" where
  "newULID ms rnd =
    [sym (drop_bit 45 ms AND 0x1F), sym (drop_bit 40 ms AND 0x1F), sym (drop_bit 35 ms AND 0x1F),
     sym (drop_bit 30 ms AND 0x1F), sym (drop_bit 25 ms AND 0x1F), sym (drop_bit 20 ms AND 0x1F),
     sym (drop_bit 15 ms AND 0x1F), sym (drop_bit 10 ms AND 0x1F), sym (drop_bit 5 ms AND 0x1F),
     sym (ms AND 0x1F),
     sym (drop_bit 3 (rnd ! 0) AND 0x1F),
     sym ((push_bit 2 (rnd ! 0 AND 0x07) OR drop_bit 6 (rnd ! 1)) AND 0x1F),
     sym (drop_bit 1 (rnd ! 1) AND 0x1F),
     sym ((push_bit 4 (rnd ! 1 AND 0x01) OR drop_bit 4 (rnd ! 2)) AND 0x1F),
     sym ((push_bit 1 (rnd ! 2 AND 0x0F) OR drop_bit 7 (rnd ! 3)) AND 0x1F),
     sym (drop_bit 2 (rnd ! 3) AND 0x1F),
     sym ((push_bit 3 (rnd ! 3 AND 0x03) OR drop_bit 5 (rnd ! 4)) AND 0x1F),
     sym (rnd ! 4 AND 0x1F),
     sym (drop_bit 3 (rnd ! 5) AND 0x1F),
     sym ((push_bit 2 (rnd ! 5 AND 0x07) OR drop_bit 6 (rnd ! 6)) AND 0x1F),
     sym (drop_bit 1 (rnd ! 6) AND 0x1F),
     sym ((push_bit 4 (rnd ! 6 AND 0x01) OR drop_bit 4 (rnd ! 7)) AND 0x1F),
     sym ((push_bit 1 (rnd ! 7 AND 0x0F) OR drop_bit 7 (rnd ! 8)) AND 0x1F),
     sym (drop_bit 2 (rnd ! 8) AND 0x1F),
     sym ((push_bit 3 (rnd ! 8 AND 0x03) OR drop_bit 5 (rnd ! 9)) AND 0x1F),
     sym (rnd ! 9 AND 0x1F)]"

text \<open>\<^verbatim>\<open>NewID\<close>, with the clock reading and the entropy it draws as arguments.\<close>

definition NewID :: "gotime \<Rightarrow> 8 word list \<Rightarrow> string" where
  "NewID now rnd = newULID (word_of_int (UnixMilli now)) rnd"

section \<open>Alphabet\<close>

lemma length_ulidAlphabet [simp]: "length ulidAlphabet = 32"
  by (simp add: ulidAlphabet_def)

lemma distinct_ulidAlphabet: "distinct ulidAlphabet"
  by (simp add: ulidAlphabet_def)

lemma mask5: "(x::'a::len word) AND 0x1F = take_bit 5 x"
proof -
  have "(0x1F :: 'a word) = mask 5" by (simp add: mask_eq_exp_minus_1)
  then show ?thesis by (simp add: take_bit_eq_mask)
qed

lemma unat_mask5: "unat ((x::'a::len word) AND 0x1F) = unat x mod 32"
  unfolding mask5 unsigned_take_bit_eq by (simp add: take_bit_eq_mod)

lemma unat_mask5_less: "unat ((x::'a::len word) AND 0x1F) < length ulidAlphabet"
  by (simp add: unat_mask5)

lemma sym_in_alphabet: "sym ((x::'a::len word) AND 0x1F) \<in> set ulidAlphabet"
  unfolding sym_def by (rule nth_mem) (rule unat_mask5_less)

lemma sym_inject:
  "sym ((x::'a::len word) AND 0x1F) = sym ((y::'a word) AND 0x1F) \<longleftrightarrow> x AND 0x1F = y AND 0x1F"
  unfolding sym_def nth_eq_iff_index_eq [OF distinct_ulidAlphabet unat_mask5_less unat_mask5_less]
  by (simp only: word_unat_eq_iff)

lemma newULID_length: "length (newULID ms rnd) = 26"
  by (simp add: newULID_def)

lemma newULID_alphabet: "set (newULID ms rnd) \<subseteq> set ulidAlphabet"
  unfolding newULID_def by (simp add: sym_in_alphabet)

section \<open>The time part\<close>

text \<open>The last \<open>w\<close> digits of \<open>n\<close> in base 32.\<close>

fun base32 :: "nat \<Rightarrow> nat \<Rightarrow> string" where
  "base32 0 n = []"
| "base32 (Suc w) n = base32 w (n div 32) @ [ulidAlphabet ! (n mod 32)]"

lemma sym_drop_bit: "sym (drop_bit k (ms :: 64 word) AND 0x1F) = ulidAlphabet ! (unat ms div 2 ^ k mod 32)"
  unfolding sym_def unat_mask5 unat_drop_bit_eq by (simp add: drop_bit_eq_div)

lemma base32_map: "base32 w n = map (\<lambda>i. ulidAlphabet ! (n div 2 ^ (5 * i) mod 32)) (rev [0..<w])"
proof (induction w n rule: base32.induct)
  case (1 n)
  then show ?case by simp
next
  case (2 w n)
  have "[0..<Suc w] = 0 # map Suc [0..<w]" by (simp add: upt_conv_Cons map_Suc_upt del: upt_Suc)
  then have "rev [0..<Suc w] = map Suc (rev [0..<w]) @ [0]" by (simp add: rev_map)
  moreover have "n div 32 div 2 ^ (5 * i) = n div 2 ^ (5 * Suc i)" for i
    by (simp add: div_mult2_eq [symmetric] power_add mult.commute)
  ultimately show ?case using 2 by (simp add: del: upt_Suc)
qed

lemma newULID_time_prefix: "take 10 (newULID ms rnd) = base32 10 (unat ms)"
proof -
  have "sym (ms AND 0x1F) = ulidAlphabet ! (unat ms mod 32)"
    using sym_drop_bit [of 0 ms] by simp
  moreover have "rev [0..<10] = [9, 8, 7, 6, 5, 4, 3, 2, 1, 0]"
    by (simp add: upt_rec)
  ultimately show ?thesis
    unfolding newULID_def sym_drop_bit base32_map by simp
qed

lemma ulidAlphabet_mono: "i < j \<Longrightarrow> j < 32 \<Longrightarrow> ulidAlphabet ! i < ulidAlphabet ! j"
proof -
  have "sorted_wrt (<) ulidAlphabet"
    unfolding ulidAlphabet_def by (simp add: less_char_def)
  then show "i < j \<Longrightarrow> j < 32 \<Longrightarrow> ulidAlphabet ! i < ulidAlphabet ! j"
    by (simp add: sorted_wrt_iff_nth_less)
qed

lemma length_base32 [simp]: "length (base32 w n) = w"
  by (induction w n rule: base32.induct) auto

lemma base32_less: "n < m \<Longrightarrow> m < 32 ^ w \<Longrightarrow> base32 w n < base32 w m"
proof (induction w n arbitrary: m rule: base32.induct)
  case (1 n)
  then show ?case by simp
next
  case (2 w n)
  have m: "m div 32 < 32 ^ w" using "2.prems" by (simp add: div_less_iff_less_mult mult.commute)
  have "n div 32 \<le> m div 32" using "2.prems" by (simp add: div_le_mono)
  then consider "n div 32 < m div 32" | "n div 32 = m div 32" by linarith
  then show ?case
  proof cases
    case 1
    with "2.IH" m show ?thesis by (simp add: less_append_same_length)
  next
    case 2
    then have "n mod 32 < m mod 32"
      using "2.prems"(1) by (metis add_less_cancel_left mult_div_mod_eq)
    with 2 show ?thesis by (simp add: less_append_same_length ulidAlphabet_mono)
  qed
qed

lemma newULID_sortable:
  assumes "unat ms < unat ms'" "unat ms' < 2 ^ 50"
  shows "newULID ms rnd < newULID ms' rnd'"
proof -
  have "take 10 (newULID ms rnd) < take 10 (newULID ms' rnd')"
    unfolding newULID_time_prefix using assms by (intro base32_less) simp_all
  then have "take 10 (newULID ms rnd) @ drop 10 (newULID ms rnd) <
      take 10 (newULID ms' rnd') @ drop 10 (newULID ms' rnd')"
    by (simp only: less_append_same_length length_take newULID_length) simp
  then show ?thesis by simp
qed

section \<open>The random part\<close>

text \<open>Forty bits in eight symbols: the symbols determine the five bytes.\<close>

lemma mask_bits:
  "(x::8 word) AND 0x1F = y AND 0x1F \<longleftrightarrow>
     (bit x 0 = bit y 0) \<and> (bit x 1 = bit y 1) \<and> (bit x 2 = bit y 2) \<and> (bit x 3 = bit y 3) \<and>
     (bit x 4 = bit y 4)"
proof -
  have "take_bit 5 x = take_bit 5 y \<longleftrightarrow> (\<forall>n<5. bit x n = bit y n)"
  proof (rule iffI)
    assume eq: "take_bit 5 x = take_bit 5 y"
    have "bit x n = bit y n" if "n < 5" for n
      using arg_cong [OF eq, of "\<lambda>w. bit w n"] that by (simp add: bit_take_bit_iff)
    then show "\<forall>n<5. bit x n = bit y n" by blast
  next
    assume "\<forall>n<5. bit x n = bit y n"
    then show "take_bit 5 x = take_bit 5 y" by (intro bit_eqI) (auto simp: bit_take_bit_iff)
  qed
  then have "(x AND 0x1F = y AND 0x1F) \<longleftrightarrow> (\<forall>n<5. bit x n = bit y n)"
    unfolding mask5 .
  then show ?thesis by (simp add: All_less_Suc eval_nat_numeral(2,3)) auto
qed

lemma byte_eqI:
  assumes "\<And>n. n \<in> {0, 1, 2, 3, 4, 5, 6, 7} \<Longrightarrow> bit (x::8 word) n = bit y n"
  shows "x = y"
proof (rule bit_word_eqI)
  fix n :: nat
  assume "n < LENGTH(8)"
  then have "n \<in> {0, 1, 2, 3, 4, 5, 6, 7}" by (simp, arith)
  then show "bit x n = bit y n" by (rule assms)
qed

lemma small_masks: "(0x07::8 word) = mask 3" "(0x01::8 word) = mask 1" "(0x0F::8 word) = mask 4"
  "(0x03::8 word) = mask 2"
  by (simp_all add: mask_eq_exp_minus_1)

lemma byte_high: "8 \<le> n \<Longrightarrow> bit (x::8 word) n = False"
  by (auto dest: bit_imp_le_length)

lemma five_bytes:
  fixes a0 a1 a2 a3 a4 b0 b1 b2 b3 b4 :: "8 word"
  assumes "drop_bit 3 a0 AND 0x1F = drop_bit 3 b0 AND 0x1F"
    "(push_bit 2 (a0 AND 0x07) OR drop_bit 6 a1) AND 0x1F = (push_bit 2 (b0 AND 0x07) OR drop_bit 6 b1) AND 0x1F"
    "drop_bit 1 a1 AND 0x1F = drop_bit 1 b1 AND 0x1F"
    "(push_bit 4 (a1 AND 0x01) OR drop_bit 4 a2) AND 0x1F = (push_bit 4 (b1 AND 0x01) OR drop_bit 4 b2) AND 0x1F"
    "(push_bit 1 (a2 AND 0x0F) OR drop_bit 7 a3) AND 0x1F = (push_bit 1 (b2 AND 0x0F) OR drop_bit 7 b3) AND 0x1F"
    "drop_bit 2 a3 AND 0x1F = drop_bit 2 b3 AND 0x1F"
    "(push_bit 3 (a3 AND 0x03) OR drop_bit 5 a4) AND 0x1F = (push_bit 3 (b3 AND 0x03) OR drop_bit 5 b4) AND 0x1F"
    "a4 AND 0x1F = b4 AND 0x1F"
  shows "a0 = b0 \<and> a1 = b1 \<and> a2 = b2 \<and> a3 = b3 \<and> a4 = b4"
proof -
  note bits = assms [unfolded small_masks mask_bits bit_simps]
  have h1: "bit a0 3 = bit b0 3 \<and> bit a0 4 = bit b0 4 \<and> bit a0 5 = bit b0 5 \<and> bit a0 6 = bit b0 6 \<and> bit a0 7 = bit b0 7"
    using bits(1) by (simp add: bit_simps byte_high)
  have h2: "bit a1 6 = bit b1 6 \<and> bit a1 7 = bit b1 7 \<and> bit a0 0 = bit b0 0 \<and> bit a0 1 = bit b0 1 \<and> bit a0 2 = bit b0 2"
    using bits(2) by (simp add: bit_simps byte_high)
  have h3: "bit a1 1 = bit b1 1 \<and> bit a1 2 = bit b1 2 \<and> bit a1 3 = bit b1 3 \<and> bit a1 4 = bit b1 4 \<and> bit a1 5 = bit b1 5"
    using bits(3) by (simp add: bit_simps byte_high eval_nat_numeral)
  have h4: "bit a2 4 = bit b2 4 \<and> bit a2 5 = bit b2 5 \<and> bit a2 6 = bit b2 6 \<and> bit a2 7 = bit b2 7 \<and> bit a1 0 = bit b1 0"
    using bits(4) by (simp add: bit_simps byte_high)
  have h5: "bit a3 7 = bit b3 7 \<and> bit a2 0 = bit b2 0 \<and> bit a2 1 = bit b2 1 \<and> bit a2 2 = bit b2 2 \<and> bit a2 3 = bit b2 3"
    using bits(5) by (simp add: bit_simps byte_high)
  have h6: "bit a3 2 = bit b3 2 \<and> bit a3 3 = bit b3 3 \<and> bit a3 4 = bit b3 4 \<and> bit a3 5 = bit b3 5 \<and> bit a3 6 = bit b3 6"
    using bits(6) by (simp add: bit_simps byte_high)
  have h7: "bit a4 5 = bit b4 5 \<and> bit a4 6 = bit b4 6 \<and> bit a4 7 = bit b4 7 \<and> bit a3 0 = bit b3 0 \<and> bit a3 1 = bit b3 1"
    using bits(7) by (simp add: bit_simps byte_high)
  have h8: "bit a4 0 = bit b4 0 \<and> bit a4 1 = bit b4 1 \<and> bit a4 2 = bit b4 2 \<and> bit a4 3 = bit b4 3 \<and> bit a4 4 = bit b4 4"
    using bits(8) by (simp add: bit_simps byte_high)
  show ?thesis
    by (intro conjI; rule byte_eqI; elim insertE emptyE) (simp_all only: h1 h2 h3 h4 h5 h6 h7 h8)
qed

lemma base32_inject: "base32 w n = base32 w m \<Longrightarrow> n mod 32 ^ w = m mod 32 ^ w"
proof (induction w n arbitrary: m rule: base32.induct)
  case (1 n)
  then show ?case by simp
next
  case (2 w n)
  then have "ulidAlphabet ! (n mod 32) = ulidAlphabet ! (m mod 32)"
    and "n div 32 mod 32 ^ w = m div 32 mod 32 ^ w" by auto
  moreover from this have "n mod 32 = m mod 32"
    by (simp add: nth_eq_iff_index_eq [OF distinct_ulidAlphabet])
  ultimately show ?case by (simp add: mod_mult2_eq)
qed

text \<open>An identifier determines its random bytes and fifty bits of its time.\<close>

lemma newULID_determines:
  assumes "newULID ms rnd = newULID ms' rnd'" "length rnd = 10" "length rnd' = 10"
  shows "rnd = rnd'" "unat ms mod 2 ^ 50 = unat ms' mod 2 ^ 50"
proof -
  have "rnd ! 0 = rnd' ! 0 \<and> rnd ! 1 = rnd' ! 1 \<and> rnd ! 2 = rnd' ! 2 \<and> rnd ! 3 = rnd' ! 3 \<and> rnd ! 4 = rnd' ! 4"
    using assms(1) by (intro five_bytes) (simp_all only: newULID_def list.inject sym_inject)
  moreover have "rnd ! 5 = rnd' ! 5 \<and> rnd ! 6 = rnd' ! 6 \<and> rnd ! 7 = rnd' ! 7 \<and> rnd ! 8 = rnd' ! 8 \<and> rnd ! 9 = rnd' ! 9"
    using assms(1) by (intro five_bytes) (simp_all only: newULID_def list.inject sym_inject)
  moreover have "i \<in> {0, 1, 2, 3, 4, 5, 6, 7, 8, 9}" if "i < length rnd" for i
    using that assms(2) by (simp, arith)
  ultimately show "rnd = rnd'"
    using assms(2,3) by (intro nth_equalityI) (simp, metis empty_iff insert_iff)
  show "unat ms mod 2 ^ 50 = unat ms' mod 2 ^ 50"
    using base32_inject [of 10 "unat ms" "unat ms'"] arg_cong [OF assms(1), of "take 10"]
    by (simp add: newULID_time_prefix)
qed

section \<open>Properties\<close>

text \<open>
  Identifiers made in different milliseconds sort by time: while the clock is between the
  epoch and \<open>2^50\<close> milliseconds after it, the identifier drawn in the earlier millisecond is
  the smaller string, whatever the random bytes are.
\<close>

lemma NewID_sortable:
  assumes "0 \<le> UnixMilli t" "UnixMilli t < UnixMilli t'" "UnixMilli t' < 2 ^ 50"
  shows "NewID t rnd < NewID t' rnd'"
proof -
  have "unat (word_of_int (UnixMilli u) :: 64 word) = nat (UnixMilli u)"
    if "0 \<le> UnixMilli u" "UnixMilli u < 2 ^ 50" for u
    using that by (simp add: unat_eq_nat_uint uint_word_of_int)
  with assms show ?thesis
    unfolding NewID_def by (intro newULID_sortable) (simp_all add: zless_nat_eq_int_zless nat_mono_iff nat_less_iff)
qed

lemma NewID_sortable_example:
  "NewID 1700000000000000000 (replicate 10 255) < NewID 1700000000001000000 (replicate 10 0)"
  by (rule NewID_sortable) (simp_all add: UnixMilli_def)

text \<open>
  C35. Every identifier has 26 characters of the alphabet, and two calls that draw the same
  identifier have drawn the same ten random bytes: no random bit is lost in the encoding.
\<close>

theorem NewID_injective:
  assumes "length rnd = 10" "length rnd' = 10" "NewID t rnd = NewID t' rnd'"
  shows "rnd = rnd' \<and> length (NewID t rnd) = 26 \<and> set (NewID t rnd) \<subseteq> set ulidAlphabet"
  using assms newULID_determines(1) newULID_length newULID_alphabet unfolding NewID_def by metis

theorem NewID_injective_witness:
  "length (NewID 0 (replicate 10 7)) = 26 \<and> set (NewID 0 (replicate 10 7)) \<subseteq> set ulidAlphabet"
  using NewID_injective [of "replicate 10 7" "replicate 10 7" 0 0] by simp

end
