(* ===== verification/Service.thy ===== *)
theory Service
  imports Store_Inv Hub Command_Store Ulid
begin

text \<open>
  The orchestration of \<^verbatim>\<open>internal/server/service/manager.go\<close>. The state of the server is
  the database, the hub and the command sessions. Every reading of the clock inside an
  operation is \<open>clk i\<close> for the \<open>i\<close>-th reading, and \<open>rnd\<close> are the random bytes an
  identifier is made from. \<^verbatim>\<open>fmt.Sprintf\<close> is written out with \<open>Quote\<close> for
  \<^verbatim>\<open>%q\<close> and \<open>Itoa\<close> for \<^verbatim>\<open>%d\<close>.
\<close>

record world =
  wDB :: db
  wHub :: hub
  wCmds :: command_store

type_synonym clock = "nat \<Rightarrow> gotime"

text \<open>Storing the database an operation returned.\<close>

abbreviation withDB :: "world \<Rightarrow> db \<Rightarrow> world" where
  "withDB w d \<equiv> w\<lparr>wDB := d\<rparr>"

definition ErrAgentNotFound :: string where "ErrAgentNotFound = ''agent not found''"
definition ErrPlaybookNotFound :: string where "ErrPlaybookNotFound = ''playbook not found''"

section \<open>Operations\<close>

definition StatusSnapshot :: "driver \<Rightarrow> db \<Rightarrow> gotime agent list \<times> deployment_state list" where
  "StatusSnapshot drv db = (ListAgents drv db, ListDeployments drv db)"

definition AppendDeploymentLog ::
  "driver \<Rightarrow> gotime \<Rightarrow> string \<Rightarrow> string \<Rightarrow> int \<Rightarrow> string \<Rightarrow> string \<Rightarrow> db \<Rightarrow> db" where
  "AppendDeploymentLog drv now deploymentID jobName stepIndex level message db =
     (if deploymentID = [] \<or> message = [] then db
      else snd (AppendLogs drv [\<lparr>lgDeploymentID = deploymentID, lgJobName = jobName,
             lgStepIndex = stepIndex, lgLevel = level, lgMessage = message, lgTimestamp = now\<rparr>] db))"

text \<open>The name a playbook goes by: that of its body, else that of its record.\<close>

definition playbookTitle :: "gotime playbook_record \<Rightarrow> string" where
  "playbookTitle pb = (case prPlaybook pb of
      Some p \<Rightarrow> if pbName p \<noteq> [] then pbName p else prName pb
    | None \<Rightarrow> prName pb)"

text \<open>
  The choice in the middle of \<^verbatim>\<open>PushPlaybookIfAssigned\<close>: the deployment to run and the
  step it resumes at, or \<open>None\<close> when the method returns early, and the database it leaves.
\<close>

definition chooseDeployment ::
  "driver \<Rightarrow> clock \<Rightarrow> 8 word list \<Rightarrow> gotime agent \<Rightarrow> gotime playbook_record \<Rightarrow>
   deployment_state option \<Rightarrow> string \<Rightarrow> bool \<Rightarrow> db \<Rightarrow> (string \<times> int) option \<times> db" where
  "chooseDeployment drv clk rnd agent pb dep agentID force db =
     (let isSamePlaybook = (case dep of None \<Rightarrow> False | Some d \<Rightarrow> dPlaybookID d = aPlaybookID agent);
          resumable = (case dep of None \<Rightarrow> False | Some d \<Rightarrow>
             dStatus d = DeploymentStatusPending \<or> dStatus d = DeploymentStatusRunning \<or>
             dStatus d = DeploymentStatusRebooting)
      in if isSamePlaybook \<and> resumable then
           (let d = the dep; d' = d\<lparr>dStatus := DeploymentStatusRunning, dUpdatedAt := clk 0\<rparr> in
            case SaveDeployment drv d' db of
              (Some e, db') \<Rightarrow> (None, db')
            | (None, db') \<Rightarrow> (Some (dID d, dResumeStepIndex d), db'))
         else if \<not> isSamePlaybook \<or> force then
           (let newID = NewID (clk 0) rnd;
                newDep = \<lparr>dID = newID, dAgentID = agentID, dPlaybookID = aPlaybookID agent,
                  dStatus = DeploymentStatusRunning, dResumeStepIndex = 0,
                  dStartedAt = clk 1, dUpdatedAt = clk 2, dFinishedAt = None, dErrorDetail = [],
                  dHostname = aHostname agent, dPlaybookName = playbookTitle pb\<rparr> in
            case SaveDeployment drv newDep db of
              (Some e, db') \<Rightarrow> (None, db')
            | (None, db') \<Rightarrow> (Some (newID, 0), db'))
         else
           (let d = the dep in
            (None, AppendDeploymentLog drv (clk 0) (dID d) [] 0 LogLevelInfo
               (''skipping playbook '' @ Quote (prName pb) @ '': already in status '' @ Quote (dStatus d) @
                '' and force=false'') db)))"

definition PushPlaybookIfAssigned ::
  "driver \<Rightarrow> clock \<Rightarrow> 8 word list \<Rightarrow> string \<Rightarrow> string \<Rightarrow> bool \<Rightarrow> world \<Rightarrow> world" where
  "PushPlaybookIfAssigned drv clk rnd serverURL agentID force w =
     (case GetAgent drv (wDB w) agentID of
        None \<Rightarrow> w
      | Some agent \<Rightarrow>
     (if aPlaybookID agent = [] then w else
      (let dep = GetActiveDeploymentForAgent drv (wDB w) agentID in
       case GetPlaybook drv (wDB w) (aPlaybookID agent) of
         None \<Rightarrow> w
       | Some pb \<Rightarrow>
      (case chooseDeployment drv clk rnd agent pb dep agentID force (wDB w) of
         (None, db1) \<Rightarrow> withDB w db1
       | (Some (deploymentID, resumeStep), db1) \<Rightarrow>
      (case SaveAgent drv (agent\<lparr>aStatus := AgentStatusDeploying\<rparr>) db1 of
         (Some e, db2) \<Rightarrow> withDB w db2
       | (None, db2) \<Rightarrow>
          (let db3 = AppendDeploymentLog drv (clk 3) deploymentID [] 0 LogLevelInfo
                 (''starting playbook '' @ Quote (playbookTitle pb) @ '' (deployment '' @ deploymentID @
                  '', resume step '' @ Itoa resumeStep @ '')'') db2;
               (_, hub') = Send agentID (MsgPlaybook (clk 4) \<lparr>wpDeploymentID = deploymentID,
                 wpPlaybook = prPlaybook pb, wpResumeStepIndex = resumeStep,
                 wpSecrets = AllSecrets drv db3, wpArtifactsBaseURL = serverURL @ ''/artifacts''\<rparr>) (wHub w)
           in w\<lparr>wDB := db3, wHub := hub'\<rparr>))))))"

definition AssignPlaybookToAgent ::
  "driver \<Rightarrow> clock \<Rightarrow> 8 word list \<Rightarrow> string \<Rightarrow> string \<Rightarrow> string \<Rightarrow> world \<Rightarrow> err \<times> world" where
  "AssignPlaybookToAgent drv clk rnd serverURL playbookID agentID w =
     (case GetAgent drv (wDB w) agentID of
        None \<Rightarrow> (Some (''assign playbook to agent: '' @ ErrAgentNotFound), w)
      | Some agent \<Rightarrow>
     (case GetPlaybook drv (wDB w) playbookID of
        None \<Rightarrow> (Some (''assign playbook to agent: '' @ ErrPlaybookNotFound), w)
      | Some _ \<Rightarrow>
     (case SaveAgent drv (agent\<lparr>aPlaybookID := playbookID\<rparr>) (wDB w) of
        (Some e, db') \<Rightarrow> (Some (''failed to save agent: '' @ e), withDB w db')
      | (None, db') \<Rightarrow>
          (None, if IsConnected (wHub w) agentID
                 then PushPlaybookIfAssigned drv clk rnd serverURL agentID True (withDB w db')
                 else withDB w db'))))"

definition ResolvePlaybookNameByDeployment :: "driver \<Rightarrow> db \<Rightarrow> string \<Rightarrow> string" where
  "ResolvePlaybookNameByDeployment drv db deploymentID =
     (case GetDeployment drv db deploymentID of
        None \<Rightarrow> ''playbook''
      | Some dep \<Rightarrow> (case GetPlaybook drv db (dPlaybookID dep) of
          None \<Rightarrow> ''playbook''
        | Some pb \<Rightarrow> if playbookTitle pb \<noteq> [] then playbookTitle pb else ''playbook''))"

section \<open>Invariants\<close>

definition world_inv :: "world \<Rightarrow> bool" where
  "world_inv w \<longleftrightarrow> db_inv (wDB w) \<and> hub_inv (wHub w)"

lemma world_invI [intro]: "db_inv d \<Longrightarrow> hub_inv h \<Longrightarrow> world_inv (w\<lparr>wDB := d, wHub := h\<rparr>)"
  by (simp add: world_inv_def)

lemma world_inv_withDB [simp]: "world_inv (withDB w d) \<longleftrightarrow> db_inv d \<and> hub_inv (wHub w)"
  by (simp add: world_inv_def)

lemma AppendDeploymentLog_inv [inv_intros]:
  "db_inv db \<Longrightarrow> db_inv (AppendDeploymentLog drv now d j i l m db)"
  by (simp add: AppendDeploymentLog_def AppendLogs_inv)

lemma chooseDeployment_inv:
  assumes "db_inv db"
  shows "db_inv (snd (chooseDeployment drv clk rnd a pb dep k f db))"
  using SaveDeployment_inv [OF assms, of drv] AppendDeploymentLog_inv [OF assms]
  unfolding chooseDeployment_def Let_def
  by (auto split: prod.splits option.splits) (metis snd_conv)+

lemma PushPlaybookIfAssigned_inv [inv_intros]:
  assumes "world_inv w"
  shows "world_inv (PushPlaybookIfAssigned drv clk rnd url k f w)"
proof (cases "GetAgent drv (wDB w) k")
  case (Some a)
  show ?thesis
  proof (cases "aPlaybookID a = [] \<or> GetPlaybook drv (wDB w) (aPlaybookID a) = None")
    case False
    then obtain pb where pb: "GetPlaybook drv (wDB w) (aPlaybookID a) = Some pb" and a: "aPlaybookID a \<noteq> []" by auto
    obtain r db1 where ch: "chooseDeployment drv clk rnd a pb (GetActiveDeploymentForAgent drv (wDB w) k) k f (wDB w) = (r, db1)"
      by fastforce
    have db1: "db_inv db1"
      using chooseDeployment_inv [of "wDB w"] assms ch by (metis snd_conv world_inv_def)
    obtain e db2 where sv: "SaveAgent drv (a\<lparr>aStatus := AgentStatusDeploying\<rparr>) db1 = (e, db2)" by fastforce
    have db2: "db_inv db2" using SaveAgent_inv [OF db1] sv by (metis snd_conv)
    have hub: "hub_inv (wHub w)" using assms by (simp add: world_inv_def)
    show ?thesis
      using a db1 db2 hub AppendDeploymentLog_inv [OF db2] ports_hub.send_consistent [OF hub]
      by (auto simp: PushPlaybookIfAssigned_def Some pb ch sv Let_def split: option.splits prod.splits)
        (metis snd_conv world_invI)+
  qed (auto simp: PushPlaybookIfAssigned_def Some assms)
qed (simp add: PushPlaybookIfAssigned_def assms)

lemma AssignPlaybookToAgent_inv [inv_intros]:
  assumes "world_inv w"
  shows "world_inv (snd (AssignPlaybookToAgent drv clk rnd url p k w))"
proof (cases "GetAgent drv (wDB w) k")
  case (Some a)
  obtain e db' where sv: "SaveAgent drv (a\<lparr>aPlaybookID := p\<rparr>) (wDB w) = (e, db')" by fastforce
  have db': "world_inv (withDB w db')"
    using assms SaveAgent_inv sv unfolding world_inv_withDB by (metis snd_conv world_inv_def)
  show ?thesis
    unfolding AssignPlaybookToAgent_def Some sv option.case prod.case
    by (cases "GetPlaybook drv (wDB w) p"; cases e) (simp_all add: assms db' PushPlaybookIfAssigned_inv del: world_inv_withDB)
qed (simp add: AssignPlaybookToAgent_def assms)

section \<open>A sample server\<close>

text \<open>One connected agent with an assigned playbook, for the witnesses.\<close>

definition samplePb :: playbook where
  "samplePb = (let st = \<lparr>sName = ''one'', sRun = [], sShell = [], sUses = ''upload-logs'', sWith = [], sEnv = [],
       sContinueOnError = False, sTimeoutMinutes = 0\<rparr>
   in \<lparr>pbName = ''p'', pbEnv = [], pbJobs = [\<lparr>jName = ''j'', jSteps =
        [st, st\<lparr>sName := ''two'', sUses := ''reboot''\<rparr>, st\<lparr>sName := ''three''\<rparr>]\<rparr>]\<rparr>)"

definition samplePlaybook :: "gotime playbook_record" where
  "samplePlaybook = \<lparr>prID = ''p'', prName = ''setup'', prDescription = [], prPlaybook = Some samplePb,
     prCreatedAt = 0, prUpdatedAt = 0\<rparr>"

definition sampleWorld :: "deployment_state list \<Rightarrow> world" where
  "sampleWorld ds = \<lparr>wDB = \<lparr>tAgents = [agentRow ((sampleAgent ''a'' 0)\<lparr>aPlaybookID := ''p''\<rparr>)],
     tDeployments = map deploymentRow ds, tPlaybooks = [playbookRow samplePlaybook], tArtifacts = [],
     tSecrets = [(''KEY'', ''v'')], tLogs = [], tTokens = []\<rparr>,
     wHub = onceConnected, wCmds = NewCommandStore\<rparr>"

lemma sampleWorld_agent [simp]:
  "GetAgent okDrv (wDB (sampleWorld ds)) ''a'' = Some ((sampleAgent ''a'' 0)\<lparr>aPlaybookID := ''p''\<rparr>)"
  by (simp add: GetAgent_def sampleWorld_def row_Cons agent_ok_def sampleAgent_def)

lemma sampleWorld_playbook [simp]: "GetPlaybook okDrv (wDB (sampleWorld ds)) ''p'' = Some samplePlaybook"
  by (simp add: GetPlaybook_def sampleWorld_def row_Cons playbook_ok_def samplePlaybook_def)

lemma sampleWorld_select [simp]: "wHub (sampleWorld ds) = onceConnected"
    "tSecrets (wDB (sampleWorld ds)) = [(''KEY'', ''v'')]" "prPlaybook samplePlaybook = Some samplePb"
    "tDeployments (wDB (sampleWorld ds)) = map deploymentRow ds"
  by (simp_all add: sampleWorld_def samplePlaybook_def)

lemma sampleWorld_none [simp]: "GetActiveDeploymentForAgent okDrv (wDB (sampleWorld [])) k = None"
  by (simp add: GetActiveDeploymentForAgent_def sampleWorld_def)

lemma sampleWorld_active [simp]:
  "GetActiveDeploymentForAgent okDrv (wDB (sampleWorld [d])) (dAgentID d) =
     Some (enrichDeployment okDrv (wDB (sampleWorld [d])) (scanDeployment (deploymentRow d)))"
  by (simp add: GetActiveDeploymentForAgent_def sampleWorld_def deploymentRow_def)

section \<open>What a push leaves behind\<close>

lemma AppendLogs_tables:
  "tDeployments (snd (AppendLogs drv es db)) = tDeployments db" "tAgents (snd (AppendLogs drv es db)) = tAgents db"
  "tPlaybooks (snd (AppendLogs drv es db)) = tPlaybooks db" "tSecrets (snd (AppendLogs drv es db)) = tSecrets db"
  "tTokens (snd (AppendLogs drv es db)) = tTokens db" "tArtifacts (snd (AppendLogs drv es db)) = tArtifacts db"
  using AppendLogs_done [of drv es db] perform_failed [of drv "OAppendLogs es" db]
  by (cases "fst (AppendLogs drv es db)"; simp)+

lemma log_tables [simp]:
  "tDeployments (AppendDeploymentLog drv now d j i l m db) = tDeployments db"
  "tAgents (AppendDeploymentLog drv now d j i l m db) = tAgents db"
  "tPlaybooks (AppendDeploymentLog drv now d j i l m db) = tPlaybooks db"
  "tSecrets (AppendDeploymentLog drv now d j i l m db) = tSecrets db"
  "tTokens (AppendDeploymentLog drv now d j i l m db) = tTokens db"
  by (simp_all add: AppendDeploymentLog_def AppendLogs_tables)

lemma SaveAgent_tables [simp]:
  "tDeployments (snd (SaveAgent drv a db)) = tDeployments db" "tPlaybooks (snd (SaveAgent drv a db)) = tPlaybooks db"
  "tSecrets (snd (SaveAgent drv a db)) = tSecrets db" "tTokens (snd (SaveAgent drv a db)) = tTokens db"
  by (simp_all add: SaveAgent_def exec_def split: option.splits)

lemma SaveDeployment_tables [simp]:
  "tAgents (snd (SaveDeployment drv d db)) = tAgents db" "tPlaybooks (snd (SaveDeployment drv d db)) = tPlaybooks db"
  "tSecrets (snd (SaveDeployment drv d db)) = tSecrets db" "tTokens (snd (SaveDeployment drv d db)) = tTokens db"
  by (simp_all add: SaveDeployment_def exec_def split: option.splits)

text \<open>The columns a successful save of a deployment leaves in its row.\<close>

definition row_of :: "string deployment_row \<Rightarrow> string \<Rightarrow> string \<Rightarrow> string \<Rightarrow> int \<Rightarrow> bool" where
  "row_of r agentID playbookID status resume \<longleftrightarrow>
     dAgentID r = agentID \<and> dPlaybookID r = playbookID \<and> dStatus r = status \<and> dResumeStepIndex r = resume"

lemma SaveDeployment_row:
  assumes "SaveDeployment drv d db = (None, db')"
  shows "\<exists>r. row dID (dID d) (tDeployments db') = Some r \<and>
    row_of r (dAgentID d) (dPlaybookID d) (dStatus d) (dResumeStepIndex d)"
proof -
  have "db' = db\<lparr>tDeployments := upsert dID mergeDeployment (deploymentRow d) (tDeployments db)\<rparr>"
    using assms by (simp add: SaveDeployment_def exec_def split: option.splits)
  then show ?thesis
    by (auto simp: deployments.row_upsert mergeDeployment_def deploymentRow_def row_of_def split: option.splits)
qed

lemma active_of_agent:
  assumes "GetActiveDeploymentForAgent drv db k = Some d"
  shows "dAgentID d = k"
  using assms latest_max by (fastforce simp: GetActiveDeploymentForAgent_def dest!: queryRow_SomeD)

lemma chooseDeployment_row:
  assumes "chooseDeployment drv clk rnd a pb dep k f db = (Some (i, n), db1)"
    and "dep = None \<or> dAgentID (the dep) = k"
  shows "\<exists>r. row dID i (tDeployments db1) = Some r \<and>
    row_of r k (aPlaybookID a) DeploymentStatusRunning n"
  using assms SaveDeployment_row [of drv _ db db1] unfolding chooseDeployment_def Let_def
  by (fastforce split: if_splits prod.splits option.splits)

lemma push_stored:
  "let w' = PushPlaybookIfAssigned drv clk rnd url k force w in
   wHub w' = wHub w \<or>
   (\<exists>t m r a. wHub w' = snd (Send k (MsgPlaybook t m) (wHub w)) \<and>
      GetAgent drv (wDB w) k = Some a \<and>
      row dID (wpDeploymentID m) (tDeployments (wDB w')) = Some r \<and>
      row_of r k (aPlaybookID a) DeploymentStatusRunning (wpResumeStepIndex m))"
proof (cases "GetAgent drv (wDB w) k")
  case (Some a)
  show ?thesis
  proof (cases "aPlaybookID a = [] \<or> GetPlaybook drv (wDB w) (aPlaybookID a) = None")
    case False
    then obtain pb where pb: "GetPlaybook drv (wDB w) (aPlaybookID a) = Some pb" and a: "aPlaybookID a \<noteq> []" by auto
    let ?dep = "GetActiveDeploymentForAgent drv (wDB w) k"
    obtain c db1 where ch: "chooseDeployment drv clk rnd a pb ?dep k force (wDB w) = (c, db1)" by fastforce
    obtain e db2 where sv: "SaveAgent drv (a\<lparr>aStatus := AgentStatusDeploying\<rparr>) db1 = (e, db2)" by fastforce
    show ?thesis
    proof (cases "c = None \<or> e \<noteq> None")
      case True
      then show ?thesis
        by (auto simp: PushPlaybookIfAssigned_def Some pb a ch sv split: option.splits prod.splits)
    next
      case False
      then obtain i n where c: "c = Some (i, n)" and e: "e = None" by auto
      have "?dep = None \<or> dAgentID (the ?dep) = k" using active_of_agent by (cases ?dep) auto
      from chooseDeployment_row [OF ch [unfolded c] this] obtain r where
        r: "row dID i (tDeployments db1) = Some r" "row_of r k (aPlaybookID a) DeploymentStatusRunning n" by blast
      have "tDeployments db2 = tDeployments db1" using SaveAgent_tables(1) [of drv _ db1] sv by (metis snd_conv)
      with r show ?thesis
        by (simp add: PushPlaybookIfAssigned_def Some pb a ch c sv e Let_def case_prod_beta)
          (intro disjI2 exI conjI; (rule refl)?; simp)
    qed
  qed (auto simp: PushPlaybookIfAssigned_def Some)
qed (simp add: PushPlaybookIfAssigned_def)

text \<open>
  C16. Whatever the driver fails, a playbook is queued for an agent only when the deployment
  it names is stored: running, of this agent, for its assigned playbook, with the resume step
  the message carries. When nothing is queued the hub is unchanged.
\<close>

theorem push_sends_stored:
  "let w' = PushPlaybookIfAssigned drv clk rnd url k force w in
   wHub w' = wHub w \<or>
   (\<exists>t m r a. wHub w' = snd (Send k (MsgPlaybook t m) (wHub w)) \<and>
      GetAgent drv (wDB w) k = Some a \<and>
      row dID (wpDeploymentID m) (tDeployments (wDB w')) = Some r \<and>
      row_of r k (aPlaybookID a) DeploymentStatusRunning (wpResumeStepIndex m))"
  by (rule push_stored)

text \<open>A deployment the server resumes instead of starting another.\<close>

definition unfinished :: "deployment_state \<Rightarrow> bool" where
  "unfinished d \<longleftrightarrow> dStatus d \<in> {DeploymentStatusPending, DeploymentStatusRunning, DeploymentStatusRebooting}"

lemma active_in_table:
  "GetActiveDeploymentForAgent okDrv db k = Some d \<Longrightarrow> dID d \<in> dID ` set (tDeployments db)"
  using latest_max by (fastforce simp: GetActiveDeploymentForAgent_def)

lemma push_okDrv:
  assumes "GetAgent okDrv (wDB w) k = Some a" "aPlaybookID a \<noteq> []"
    "GetPlaybook okDrv (wDB w) (aPlaybookID a) = Some pb"
    "chooseDeployment okDrv clk rnd a pb (GetActiveDeploymentForAgent okDrv (wDB w) k) k f (wDB w) = (Some (i, n), db1)"
  shows "tDeployments (wDB (PushPlaybookIfAssigned okDrv clk rnd url k f w)) = tDeployments db1"
    and "wHub (PushPlaybookIfAssigned okDrv clk rnd url k f w) = snd (Send k (MsgPlaybook (clk 4)
      \<lparr>wpDeploymentID = i, wpPlaybook = prPlaybook pb, wpResumeStepIndex = n, wpSecrets = tSecrets db1,
       wpArtifactsBaseURL = url @ ''/artifacts''\<rparr>) (wHub w))"
  using assms by (simp_all add: PushPlaybookIfAssigned_def SaveAgent_def Let_def case_prod_beta AllSecrets_def)

lemma resumed_push:
  assumes "GetAgent okDrv (wDB w) k = Some a" "aPlaybookID a \<noteq> []"
    "GetPlaybook okDrv (wDB w) (aPlaybookID a) = Some pb"
    "GetActiveDeploymentForAgent okDrv (wDB w) k = Some d" "dPlaybookID d = aPlaybookID a" "unfinished d"
  shows "let w' = PushPlaybookIfAssigned okDrv clk rnd url k force w in
    map dID (tDeployments (wDB w')) = map dID (tDeployments (wDB w)) \<and>
    wHub w' = snd (Send k (MsgPlaybook (clk 4)
      \<lparr>wpDeploymentID = dID d, wpPlaybook = prPlaybook pb, wpResumeStepIndex = dResumeStepIndex d,
       wpSecrets = tSecrets (wDB w), wpArtifactsBaseURL = url @ ''/artifacts''\<rparr>) (wHub w))"
proof -
  let ?d = "d\<lparr>dStatus := DeploymentStatusRunning, dUpdatedAt := clk 0\<rparr>"
  let ?db1 = "(wDB w)\<lparr>tDeployments := upsert dID mergeDeployment (deploymentRow ?d) (tDeployments (wDB w))\<rparr>"
  have "chooseDeployment okDrv clk rnd a pb (GetActiveDeploymentForAgent okDrv (wDB w) k) k force (wDB w) =
      (Some (dID d, dResumeStepIndex d), ?db1)"
    using assms(4-6) by (auto simp: chooseDeployment_def SaveDeployment_def Let_def unfinished_def)
  note push = push_okDrv [OF assms(1-3) this, of url]
  show ?thesis
    using active_in_table [OF assms(4)] by (auto simp: push Let_def deployments.keys_upsert)
qed

text \<open>
  C14. An unfinished deployment of the assigned playbook is resumed, forced or not: no
  deployment is added, and the agent is sent the playbook with the deployment's own id, its
  resume step and all secrets.
\<close>

theorem push_resumes:
  assumes "GetAgent okDrv (wDB w) k = Some a" "aPlaybookID a \<noteq> []"
    "GetPlaybook okDrv (wDB w) (aPlaybookID a) = Some pb"
    "GetActiveDeploymentForAgent okDrv (wDB w) k = Some d" "dPlaybookID d = aPlaybookID a" "unfinished d"
  shows "let w' = PushPlaybookIfAssigned okDrv clk rnd url k force w in
    map dID (tDeployments (wDB w')) = map dID (tDeployments (wDB w)) \<and>
    wHub w' = snd (Send k (MsgPlaybook (clk 4)
      \<lparr>wpDeploymentID = dID d, wpPlaybook = prPlaybook pb, wpResumeStepIndex = dResumeStepIndex d,
       wpSecrets = tSecrets (wDB w), wpArtifactsBaseURL = url @ ''/artifacts''\<rparr>) (wHub w))"
  using assms by (rule resumed_push)

theorem push_resumes_witness:
  "wHub (PushPlaybookIfAssigned okDrv (\<lambda>i. int i) (replicate 10 0) ''http://s'' ''a'' True
      (sampleWorld [(sampleDeployment ''d'' 0)\<lparr>dResumeStepIndex := 2\<rparr>])) =
    snd (Send ''a'' (MsgPlaybook 4 \<lparr>wpDeploymentID = ''d'', wpPlaybook = Some samplePb, wpResumeStepIndex = 2,
      wpSecrets = [(''KEY'', ''v'')], wpArtifactsBaseURL = ''http://s/artifacts''\<rparr>) onceConnected)"
proof -
  let ?d = "(sampleDeployment ''d'' 0)\<lparr>dResumeStepIndex := 2\<rparr>"
  have "dAgentID ?d = ''a''" by (simp add: sampleDeployment_def)
  note active = sampleWorld_active [of ?d, unfolded this]
  let ?s = "enrichDeployment okDrv (wDB (sampleWorld [?d])) (scanDeployment (deploymentRow ?d))"
  have "dPlaybookID ?s = ''p''" "unfinished ?s" and s: "dID ?s = ''d''" "dResumeStepIndex ?s = 2"
    by (simp_all add: unfinished_def deploymentRow_def sampleDeployment_def)
  then show ?thesis
    using push_resumes [OF sampleWorld_agent [of "[?d]"] _ _ active, of samplePlaybook "\<lambda>i. int i"
        "replicate 10 0" "''http://s''" True]
    unfolding Let_def s by (simp del: enrich_select scan_select)
qed

text \<open>
  A finished deployment of the assigned playbook is not repeated unless the push is forced:
  nothing is sent and neither the deployments nor the agents change.
\<close>

lemma push_skips_finished:
  assumes "GetAgent okDrv (wDB w) k = Some a" "GetActiveDeploymentForAgent okDrv (wDB w) k = Some d"
    "dPlaybookID d = aPlaybookID a" "\<not> unfinished d"
  shows "let w' = PushPlaybookIfAssigned okDrv clk rnd url k False w in
    wHub w' = wHub w \<and> tDeployments (wDB w') = tDeployments (wDB w) \<and> tAgents (wDB w') = tAgents (wDB w)"
  using assms by (auto simp: PushPlaybookIfAssigned_def chooseDeployment_def Let_def unfinished_def split: option.splits)

lemma push_skips_finished_example:
  "let w = sampleWorld [(sampleDeployment ''d'' 0)\<lparr>dStatus := DeploymentStatusCompleted\<rparr>];
       w' = PushPlaybookIfAssigned okDrv (\<lambda>i. int i) (replicate 10 0) ''http://s'' ''a'' False w
   in wHub w' = wHub w \<and> tDeployments (wDB w') = tDeployments (wDB w)"
proof -
  let ?d = "(sampleDeployment ''d'' 0)\<lparr>dStatus := DeploymentStatusCompleted\<rparr>"
  have "dAgentID ?d = ''a''" by (simp add: sampleDeployment_def)
  note active = sampleWorld_active [of ?d, unfolded this]
  let ?s = "enrichDeployment okDrv (wDB (sampleWorld [?d])) (scanDeployment (deploymentRow ?d))"
  have "dPlaybookID ?s = ''p''" "\<not> unfinished ?s"
    by (simp_all add: unfinished_def deploymentRow_def sampleDeployment_def)
  with push_skips_finished [OF sampleWorld_agent active, of "\<lambda>i. int i" "replicate 10 0" "''http://s''"]
  show ?thesis by (simp add: Let_def)
qed

text \<open>
  C15. When the agent has no deployment, its latest one is of another playbook, or it is of the
  assigned playbook, finished, and the push is forced, exactly one deployment is added, running
  from step 0 under a new id, and the agent is sent the playbook with that id.
\<close>

theorem push_starts_new:
  assumes "GetAgent okDrv (wDB w) k = Some a" "aPlaybookID a \<noteq> []"
    "GetPlaybook okDrv (wDB w) (aPlaybookID a) = Some pb"
    "case GetActiveDeploymentForAgent okDrv (wDB w) k of None \<Rightarrow> True
     | Some d \<Rightarrow> dPlaybookID d \<noteq> aPlaybookID a \<or> force \<and> \<not> unfinished d"
    "NewID (clk 0) rnd \<notin> dID ` set (tDeployments (wDB w))"
  shows "let w' = PushPlaybookIfAssigned okDrv clk rnd url k force w in
    \<exists>r. tDeployments (wDB w') = tDeployments (wDB w) @ [r] \<and> dID r = NewID (clk 0) rnd \<and>
      row_of r k (aPlaybookID a) DeploymentStatusRunning 0 \<and>
      wHub w' = snd (Send k (MsgPlaybook (clk 4)
        \<lparr>wpDeploymentID = NewID (clk 0) rnd, wpPlaybook = prPlaybook pb, wpResumeStepIndex = 0,
         wpSecrets = tSecrets (wDB w), wpArtifactsBaseURL = url @ ''/artifacts''\<rparr>) (wHub w))"
proof -
  let ?new = "\<lparr>dID = NewID (clk 0) rnd, dAgentID = k, dPlaybookID = aPlaybookID a,
      dStatus = DeploymentStatusRunning, dResumeStepIndex = 0, dStartedAt = clk 1, dUpdatedAt = clk 2,
      dFinishedAt = None, dErrorDetail = [], dHostname = aHostname a, dPlaybookName = playbookTitle pb\<rparr>"
  let ?db1 = "(wDB w)\<lparr>tDeployments := upsert dID mergeDeployment (deploymentRow ?new) (tDeployments (wDB w))\<rparr>"
  have fresh: "dID r \<notin> dID ` set rs \<Longrightarrow> upsert dID mergeDeployment r rs = rs @ [r]"
    for r :: "string deployment_row" and rs
    by (induction rs) auto
  have "chooseDeployment okDrv clk rnd a pb (GetActiveDeploymentForAgent okDrv (wDB w) k) k force (wDB w) =
      (Some (NewID (clk 0) rnd, 0), ?db1)"
    using assms(4) by (auto simp: chooseDeployment_def SaveDeployment_def Let_def unfinished_def split: option.splits)
  note push = push_okDrv [OF assms(1-3) this, of url]
  have rows: "upsert dID mergeDeployment (deploymentRow ?new) (tDeployments (wDB w)) =
      tDeployments (wDB w) @ [deploymentRow ?new]"
    using assms(5) by (intro fresh) simp
  show ?thesis
    by (simp add: push rows Let_def del: One_nat_def) (simp add: row_of_def deploymentRow_def)
qed

theorem push_starts_new_witness:
  "\<exists>r. tDeployments (wDB (PushPlaybookIfAssigned okDrv (\<lambda>i. int i) (replicate 10 0) ''http://s'' ''a'' False
      (sampleWorld []))) = [r] \<and> row_of r ''a'' ''p'' DeploymentStatusRunning 0"
  using push_starts_new [of "sampleWorld []" "''a''" "(sampleAgent ''a'' 0)\<lparr>aPlaybookID := ''p''\<rparr>" samplePlaybook
      False "\<lambda>i. int i" "replicate 10 0" "''http://s''"]
  by (auto simp: Let_def)

end
