(* ===== verification/Auth.thy ===== *)
theory Auth
  imports Service
begin

text \<open>
  Authentication and registration: \<^verbatim>\<open>handlers/auth.go\<close> and \<^verbatim>\<open>handlers/token.go\<close>.
  A request is the record of what the handlers read of it: the method, the headers, the query,
  the address, and what \<^verbatim>\<open>BasicAuth\<close> makes of the header; a JSON body is an argument, the
  decoded struct or the decoder's error. A response has a status, the challenge header of the
  root endpoints and an error or a value. The digest \<^verbatim>\<open>sha256.Sum256\<close> and the JWT library
  are parameters. \<^verbatim>\<open>rand.Read\<close> never returns an error in Go 1.26, so the bytes it draws
  are arguments and its error branches do not arise.
\<close>

section \<open>Requests, responses, configuration\<close>

record request =
  rMethod :: string
  rPath :: string
  rAuthorization :: string
  rQueryToken :: string
  rXAgentID :: string
  rHXRequest :: string
  rXForwardedFor :: string
  rXRealIP :: string
  rRemoteAddr :: string
  rBasicAuth :: "(string \<times> string) option"

record 'b response =
  rspStatus :: int
  rspChallenge :: bool
  rspBody :: "string + 'b"

definition writeJSON :: "int \<Rightarrow> 'b \<Rightarrow> 'b response" where
  "writeJSON code v = \<lparr>rspStatus = code, rspChallenge = False, rspBody = Inr v\<rparr>"

definition writeError :: "int \<Rightarrow> string \<Rightarrow> 'b response" where
  "writeError code msg = \<lparr>rspStatus = code, rspChallenge = False, rspBody = Inl msg\<rparr>"

record handler =
  eUserJWTSecret :: string
  eRootPassword :: string
  eTokenExpiryHours :: int
  eArtifactsDir :: string
  eServerURL :: string
  eRegistrationSecrets :: smap

type_synonym digest = "string \<Rightarrow> 8 word list"

section \<open>Agent tokens\<close>

definition sha256hex :: "digest \<Rightarrow> string \<Rightarrow> string" where
  "sha256hex sha s = hexEncode (sha s)"

text \<open>
  \<^verbatim>\<open>time.Duration(h) * time.Hour\<close>, an \<^verbatim>\<open>int64\<close> product that wraps.
\<close>

definition hour :: int where "hour = 3600000000000"

definition durationHours :: "int \<Rightarrow> int" where
  "durationHours h = sint (word_of_int (h * hour) :: 64 word)"

definition tokenExpiry :: "handler \<Rightarrow> int" where
  "tokenExpiry e = (let expiry = durationHours (eTokenExpiryHours e)
                    in if expiry = 0 then 720 * hour else expiry)"

definition issueAgentToken ::
  "digest \<Rightarrow> driver \<Rightarrow> clock \<Rightarrow> 8 word list \<Rightarrow> 8 word list \<Rightarrow> handler \<Rightarrow> string \<Rightarrow> db \<Rightarrow> (string + string) \<times> db" where
  "issueAgentToken sha drv clk b rnd e agentID db =
     (let raw = ''kpkt_'' @ hexEncode b;
          tok = \<lparr>tkID = NewID (clk 1) rnd, tkAgentID = agentID, tkTokenHash = sha256hex sha raw,
                 tkCreatedAt = clk 2, tkExpiresAt = Some (clk 0 + tokenExpiry e), tkRevokedAt = None\<rparr>
      in case CreateAgentToken drv tok db of
           (Some msg, db') \<Rightarrow> (Inl (''storing token: '' @ msg), db')
         | (None, db') \<Rightarrow> (Inr raw, db'))"

definition rawTokenFromRequest :: "request \<Rightarrow> string" where
  "rawTokenFromRequest r =
     (if HasPrefix (rAuthorization r) ''Bearer '' then TrimPrefix (rAuthorization r) ''Bearer ''
      else rQueryToken r)"

definition agentIDFromToken :: "digest \<Rightarrow> driver \<Rightarrow> gotime \<Rightarrow> request \<Rightarrow> db \<Rightarrow> string + string" where
  "agentIDFromToken sha drv now r db =
     (let raw = rawTokenFromRequest r in
      if raw = [] then Inl ''authentication token is missing or invalid''
      else case GetAgentTokenByHash drv db (sha256hex sha raw) of
        None \<Rightarrow> Inl ''invalid token''
      | Some tok \<Rightarrow>
          if tkRevokedAt tok \<noteq> None then Inl ''token has been revoked''
          else if (case tkExpiresAt tok of None \<Rightarrow> False | Some exp \<Rightarrow> exp < now)
            then Inl ''token has expired''
          else Inr (tkAgentID tok))"

text \<open>The note an authenticated request leaves of its agent.\<close>

definition touchAgent :: "driver \<Rightarrow> gotime \<Rightarrow> string \<Rightarrow> world \<Rightarrow> world" where
  "touchAgent drv now agentID w =
     (case GetAgent drv (wDB w) agentID of
        None \<Rightarrow> w
      | Some a \<Rightarrow> withDB w (snd (SaveAgent drv
          (a\<lparr>aLastActivityAt := now,
             aStatus := (if aStatus a = AgentStatusOffline then AgentStatusConnected else aStatus a)\<rparr>)
          (wDB w))))"

text \<open>
  The middleware around \<open>next\<close>, a handler on the request and the server's state.
\<close>

definition RequireAgentAuth ::
  "digest \<Rightarrow> driver \<Rightarrow> clock \<Rightarrow> (request \<Rightarrow> world \<Rightarrow> 'b response \<times> world) \<Rightarrow> request \<Rightarrow> world \<Rightarrow> 'b response \<times> world" where
  "RequireAgentAuth sha drv clk next r w =
     (case agentIDFromToken sha drv (clk 0) r (wDB w) of
        Inl err \<Rightarrow> (writeError 401 err, w)
      | Inr agentID \<Rightarrow> next (r\<lparr>rXAgentID := agentID\<rparr>) (touchAgent drv (clk 1) agentID w))"

section \<open>Root authentication\<close>

definition uiTokenAudience :: string where "uiTokenAudience = ''kompakt-ui''"

record jwt_claims =
  jcSubject :: string
  jcAudience :: "string list"
  jcIssuedAt :: gotime
  jcExpiresAt :: gotime

text \<open>
  The JWT library: \<^verbatim>\<open>SignedString\<close> for HS256 with a secret, and
  \<^verbatim>\<open>ParseWithClaims\<close> with a secret, HS256 and an audience at an instant, which gives the
  claims of a valid token.
\<close>

record jwt_lib =
  jwtSign :: "string \<Rightarrow> jwt_claims \<Rightarrow> string + string"
  jwtParse :: "string \<Rightarrow> string \<Rightarrow> gotime \<Rightarrow> string \<Rightarrow> jwt_claims option"

definition issueUIToken :: "jwt_lib \<Rightarrow> clock \<Rightarrow> handler \<Rightarrow> string + string" where
  "issueUIToken jwt clk e = jwtSign jwt (eUserJWTSecret e)
     \<lparr>jcSubject = ''root'', jcAudience = [uiTokenAudience], jcIssuedAt = clk 0, jcExpiresAt = clk 1 + 8 * hour\<rparr>"

definition isRootRequest :: "jwt_lib \<Rightarrow> gotime \<Rightarrow> handler \<Rightarrow> request \<Rightarrow> bool" where
  "isRootRequest jwt now e r =
     (if HasPrefix (rAuthorization r) ''Bearer '' \<and>
         (case jwtParse jwt (eUserJWTSecret e) uiTokenAudience now (TrimPrefix (rAuthorization r) ''Bearer '') of
            None \<Rightarrow> False | Some claims \<Rightarrow> jcSubject claims = ''root'')
      then True
      else (case rBasicAuth r of None \<Rightarrow> False
            | Some (user, pass) \<Rightarrow> user = ''root'' \<and> pass = eRootPassword e))"

definition RequireRootAuth ::
  "jwt_lib \<Rightarrow> gotime \<Rightarrow> handler \<Rightarrow> (request \<Rightarrow> world \<Rightarrow> 'b response \<times> world) \<Rightarrow> request \<Rightarrow> world \<Rightarrow> 'b response \<times> world" where
  "RequireRootAuth jwt now e next r w =
     (if HasPrefix (rAuthorization r) ''Bearer '' \<and>
         (case jwtParse jwt (eUserJWTSecret e) uiTokenAudience now (TrimPrefix (rAuthorization r) ''Bearer '') of
            None \<Rightarrow> False | Some claims \<Rightarrow> jcSubject claims = ''root'')
      then next r w
      else if (case rBasicAuth r of None \<Rightarrow> True
               | Some (user, pass) \<Rightarrow> user \<noteq> ''root'' \<or> pass \<noteq> eRootPassword e)
      then ((writeError 401 ''invalid root credentials'')
              \<lparr>rspChallenge := rHXRequest r \<noteq> ''true'' \<and> \<not> HasPrefix (rAuthorization r) ''Bearer ''\<rparr>, w)
      else next r w)"

definition HandleUILogin ::
  "jwt_lib \<Rightarrow> clock \<Rightarrow> handler \<Rightarrow> request \<Rightarrow> string + string \<Rightarrow> string response" where
  "HandleUILogin jwt clk e r body =
     (if rMethod r \<noteq> ''POST'' then writeError 405 ''method not allowed''
      else case body of
        Inl err \<Rightarrow> writeError 400 ''invalid JSON''
      | Inr password \<Rightarrow>
          if password \<noteq> eRootPassword e then writeError 401 ''invalid password''
          else (case issueUIToken jwt clk e of
              Inl err \<Rightarrow> writeError 500 ''failed to issue token''
            | Inr token \<Rightarrow> writeJSON 200 token))"

section \<open>Registration\<close>

definition validRegistrationSecret :: "handler \<Rightarrow> string \<Rightarrow> bool" where
  "validRegistrationSecret e s = (if s = [] then False else list_ex (\<lambda>(k, v). s = v) (eRegistrationSecrets e))"

definition validPlatform :: "string \<Rightarrow> bool" where
  "validPlatform platform \<longleftrightarrow> platform \<in> {PlatformLinux, PlatformMac, PlatformWindows}"

text \<open>
  The host \<^verbatim>\<open>net.SplitHostPort\<close> returns, \<open>None\<close> for an error. \<open>i\<close> is the last colon.
\<close>

definition LastIndex :: "string \<Rightarrow> char \<Rightarrow> nat option" where
  "LastIndex s c = (if c \<in> set s then Some (length s - 1 - length (takeWhile (\<lambda>x. x \<noteq> c) (rev s))) else None)"

definition SplitHostPort :: "string \<Rightarrow> string option" where
  "SplitHostPort hp = (case LastIndex hp (CHR '':'') of
      None \<Rightarrow> None
    | Some i \<Rightarrow>
        if hp ! 0 = CHR ''['' then
          (case Index hp '']'' of
             None \<Rightarrow> None
           | Some n \<Rightarrow>
               if n + 1 \<noteq> i then None
               else if CHR ''['' \<in> set (drop 1 hp) \<or> CHR '']'' \<in> set (drop (n + 1) hp) then None
               else Some (take (n - 1) (drop 1 hp)))
        else if CHR '':'' \<in> set (take i hp) then None
        else if CHR ''['' \<in> set hp \<or> CHR '']'' \<in> set hp then None
        else Some (take i hp))"

definition requestIP :: "request \<Rightarrow> string" where
  "requestIP r =
     (let xff = TrimSpace (rXForwardedFor r);
          ip = TrimSpace (hd (Split xff (CHR '','')));
          xri = TrimSpace (rXRealIP r)
      in if xff \<noteq> [] \<and> ip \<noteq> [] then ip
         else if xri \<noteq> [] then xri
         else (case SplitHostPort (TrimSpace (rRemoteAddr r)) of
                 Some host \<Rightarrow> host
               | None \<Rightarrow> TrimSpace (rRemoteAddr r)))"

definition machineOf :: "smap \<Rightarrow> string" where
  "machineOf metadata = TrimSpace (smap_get metadata ''machine_id'')"

text \<open>\<^verbatim>\<open>x := TrimSpace(a); if x == "" { x = TrimSpace(b) }\<close>\<close>

definition trimmedOr :: "string \<Rightarrow> string \<Rightarrow> string" where
  "trimmedOr a b = (if TrimSpace a = [] then TrimSpace b else TrimSpace a)"

text \<open>The agent the request is for: the one with its machine id, or a new one.\<close>

definition findMachine :: "driver \<Rightarrow> db \<Rightarrow> registration_request \<Rightarrow> gotime agent option" where
  "findMachine drv db req = (let machineID = machineOf (rqMetadata req) in
     if machineID = [] then None
     else List.find (\<lambda>a. machineOf (aMetadata a) = machineID) (ListAgents drv db))"

definition freshAgent :: "string \<Rightarrow> gotime \<Rightarrow> gotime agent" where
  "freshAgent k now = \<lparr>aID = k, aHostname = [], aPlatform = [], aOS = [], aModel = [], aVendor = [],
     aIPAddress = [], aMetadata = [], aShells = [], aStatus = [], aPlaybookID = [],
     aRegisteredAt = now, aLastActivityAt = zero_time\<rparr>"

definition fillAgent :: "request \<Rightarrow> registration_request \<Rightarrow> gotime \<Rightarrow> gotime agent \<Rightarrow> gotime agent" where
  "fillAgent r req now a = a\<lparr>aHostname := rqHostname req, aPlatform := rqPlatform req,
     aOS := trimmedOr (smap_get (rqMetadata req) ''os'') (smap_get (rqMetadata req) ''os_description''),
     aModel := trimmedOr (rqModel req) (smap_get (rqMetadata req) ''model''),
     aVendor := trimmedOr (rqVendor req) (smap_get (rqMetadata req) ''vendor''),
     aIPAddress := requestIP r, aMetadata := rqMetadata req, aShells := rqShells req,
     aStatus := AgentStatusRegistered, aLastActivityAt := now\<rparr>"

text \<open>
  The clock is read for the id and the registration of a new agent, for the last activity, for
  the revocation and for the token; \<open>rndA\<close>, \<open>rndT\<close> and \<open>b\<close> are the random bytes of the
  agent's id, the token's id and the token.
\<close>

definition HandleAgentRegister ::
  "digest \<Rightarrow> driver \<Rightarrow> clock \<Rightarrow> 8 word list \<Rightarrow> 8 word list \<Rightarrow> 8 word list \<Rightarrow> handler \<Rightarrow> request \<Rightarrow>
   string + registration_request \<Rightarrow> db \<Rightarrow> (string \<times> string) response \<times> db" where
  "HandleAgentRegister sha drv clk rndA rndT b e r body db =
     (if rMethod r \<noteq> ''POST'' then (writeError 405 ''method not allowed'', db)
      else case body of
        Inl err \<Rightarrow> (writeError 400 (''invalid JSON: '' @ err), db)
      | Inr req \<Rightarrow>
          if rqHostname req = [] then (writeError 400 ''hostname is required'', db)
          else if \<not> validPlatform (rqPlatform req)
            then (writeError 400 ''platform must be one of linux, mac, or windows'', db)
          else if \<not> validRegistrationSecret e (rqRegistrationSecret req)
            then (writeError 401 ''invalid registration secret'', db)
          else
            (let found = findMachine drv db req;
                 base = (case found of Some a \<Rightarrow> a | None \<Rightarrow> freshAgent (NewID (clk 0) rndA) (clk 1));
                 agent = fillAgent r req (clk 2) base
             in case SaveAgent drv agent db of
                  (Some msg, db1) \<Rightarrow> (writeError 500 ''failed to save agent'', db1)
                | (None, db1) \<Rightarrow>
                   (let db2 = (if found \<noteq> None then snd (RevokeAllAgentTokens drv (clk 3) (aID agent) db1) else db1)
                    in case issueAgentToken sha drv (\<lambda>i. clk (4 + i)) b rndT e (aID agent) db2 of
                         (Inl msg, db3) \<Rightarrow> (writeError 500 ''failed to issue token'', db3)
                       | (Inr token, db3) \<Rightarrow> (writeJSON 200 (aID agent, token), db3))))"

definition GenerateSecret :: "8 word list \<Rightarrow> string" where
  "GenerateSecret b = hexEncode b"

section \<open>Token refresh\<close>

definition HandleTokenRefresh ::
  "digest \<Rightarrow> driver \<Rightarrow> clock \<Rightarrow> 8 word list \<Rightarrow> 8 word list \<Rightarrow> handler \<Rightarrow> request \<Rightarrow> db \<Rightarrow> string response \<times> db" where
  "HandleTokenRefresh sha drv clk b rnd e r db =
     (if rMethod r \<noteq> ''POST'' then (writeError 405 ''method not allowed'', db)
      else (let oldRaw = rawTokenFromRequest r in
        case issueAgentToken sha drv clk b rnd e (rXAgentID r) db of
          (Inl err, db1) \<Rightarrow> (writeError 500 ''failed to issue token'', db1)
        | (Inr newRaw, db1) \<Rightarrow>
            (let db2 = (if oldRaw \<noteq> [] then
                  (case GetAgentTokenByHash drv db1 (sha256hex sha oldRaw) of
                     None \<Rightarrow> db1
                   | Some tok \<Rightarrow> snd (RevokeAgentToken drv (clk 3) (tkID tok) db1)) else db1)
             in (writeJSON 200 newRaw, db2))))"

section \<open>The contract of a middleware\<close>

text \<open>
  A middleware runs its handler, on a request and a state it may have prepared, exactly for the
  requests it admits; it answers every other request itself and leaves the state alone. What it
  prepares keeps the invariant of the state.
\<close>

locale middleware =
  fixes guard :: "('r \<Rightarrow> 'w \<Rightarrow> 'b \<times> 'w) \<Rightarrow> 'r \<Rightarrow> 'w \<Rightarrow> 'b \<times> 'w"
    and admits :: "'r \<Rightarrow> 'w \<Rightarrow> bool"
    and refusal :: "'r \<Rightarrow> 'w \<Rightarrow> 'b"
    and pass :: "'r \<Rightarrow> 'w \<Rightarrow> 'r"
    and prepare :: "'r \<Rightarrow> 'w \<Rightarrow> 'w"
    and inv :: "'w \<Rightarrow> bool"
  assumes admitted: "admits r w \<Longrightarrow> guard next r w = next (pass r w) (prepare r w)"
    and refused: "\<not> admits r w \<Longrightarrow> guard next r w = (refusal r w, w)"
    and prepare_inv: "inv w \<Longrightarrow> inv (prepare r w)"
begin

lemma guard_inv: "inv w \<Longrightarrow> (\<And>r w. inv w \<Longrightarrow> inv (snd (next r w))) \<Longrightarrow> inv (snd (guard next r w))"
  by (cases "admits r w") (simp_all add: admitted refused prepare_inv)

lemma guard_blind: "\<not> admits r w \<Longrightarrow> guard next r w = guard next' r w"
  by (simp add: refused)

end

lemma RequireRootAuth_root: "isRootRequest jwt now e r \<Longrightarrow> RequireRootAuth jwt now e next r w = next r w"
  by (auto simp: isRootRequest_def RequireRootAuth_def split: option.splits)

lemma RequireRootAuth_other: "\<not> isRootRequest jwt now e r \<Longrightarrow> RequireRootAuth jwt now e next r w =
  ((writeError 401 ''invalid root credentials'')
     \<lparr>rspChallenge := rHXRequest r \<noteq> ''true'' \<and> \<not> HasPrefix (rAuthorization r) ''Bearer ''\<rparr>, w)"
  by (auto simp: isRootRequest_def RequireRootAuth_def split: option.splits)

interpretation root_guard: middleware "RequireRootAuth jwt now e" "\<lambda>r w. isRootRequest jwt now e r"
  "\<lambda>r w. (writeError 401 ''invalid root credentials'')
     \<lparr>rspChallenge := rHXRequest r \<noteq> ''true'' \<and> \<not> HasPrefix (rAuthorization r) ''Bearer ''\<rparr>"
  "\<lambda>r w. r" "\<lambda>r w. w" world_inv
  for jwt now e
  by unfold_locales (simp_all add: RequireRootAuth_root RequireRootAuth_other)

lemma touchAgent_inv [inv_intros]: "world_inv w \<Longrightarrow> world_inv (touchAgent drv now k w)"
  using SaveAgent_inv [of "wDB w" drv] by (simp add: touchAgent_def world_inv_def split: option.split)

interpretation agent_guard: middleware "RequireAgentAuth sha drv clk"
  "\<lambda>r w. \<not> isl (agentIDFromToken sha drv (clk 0) r (wDB w))"
  "\<lambda>r w. writeError 401 (projl (agentIDFromToken sha drv (clk 0) r (wDB w)))"
  "\<lambda>r w. r\<lparr>rXAgentID := projr (agentIDFromToken sha drv (clk 0) r (wDB w))\<rparr>"
  "\<lambda>r w. touchAgent drv (clk 1) (projr (agentIDFromToken sha drv (clk 0) r (wDB w))) w" world_inv
  for sha drv clk
  by unfold_locales (auto simp: RequireAgentAuth_def touchAgent_inv split: sum.splits)

section \<open>Invariants\<close>

lemma issueAgentToken_inv [inv_intros]: "db_inv db \<Longrightarrow> db_inv (snd (issueAgentToken sha drv clk b rnd e k db))"
  using CreateAgentToken_inv [of db drv] by (auto simp: issueAgentToken_def Let_def split: prod.splits option.splits) (metis snd_conv)+

lemma HandleTokenRefresh_inv [inv_intros]:
  assumes "db_inv db"
  shows "db_inv (snd (HandleTokenRefresh sha drv clk b rnd e r db))"
proof -
  obtain x db1 where iss: "issueAgentToken sha drv clk b rnd e (rXAgentID r) db = (x, db1)" by fastforce
  then have "db_inv db1" using issueAgentToken_inv [OF assms] by (metis snd_conv)
  with assms RevokeAgentToken_inv [of db1] show ?thesis
    by (auto simp: HandleTokenRefresh_def iss Let_def split: sum.splits option.splits)
qed

lemma HandleAgentRegister_inv [inv_intros]:
  assumes "db_inv db"
  shows "db_inv (snd (HandleAgentRegister sha drv clk rndA rndT b e r body db))"
proof (cases body)
  case (Inr req)
  define found where "found = findMachine drv db req"
  define agent where "agent = fillAgent r req (clk 2) (case found of Some a \<Rightarrow> a | None \<Rightarrow> freshAgent (NewID (clk 0) rndA) (clk 1))"
  obtain er db1 where sv: "SaveAgent drv agent db = (er, db1)" by fastforce
  define db2 where "db2 = (if found \<noteq> None then snd (RevokeAllAgentTokens drv (clk 3) (aID agent) db1) else db1)"
  obtain x db3 where iss: "issueAgentToken sha drv (\<lambda>i. clk (4 + i)) b rndT e (aID agent) db2 = (x, db3)" by fastforce
  have 1: "db_inv db1" using SaveAgent_inv [OF assms] sv by (metis snd_conv)
  then have "db_inv db2" by (simp add: db2_def RevokeAllAgentTokens_inv)
  then have "db_inv db3" using issueAgentToken_inv iss by (metis snd_conv)
  with 1 assms show ?thesis
    unfolding HandleAgentRegister_def Inr sum.case Let_def found_def [symmetric] agent_def [symmetric] sv prod.case
      db2_def [symmetric] iss
    by (simp split: option.split sum.split)
qed (simp add: HandleAgentRegister_def assms)

section \<open>Tokens in the store\<close>

lemma row_append: "row key k (xs @ ys) = (case row key k xs of None \<Rightarrow> row key k ys | Some x \<Rightarrow> Some x)"
  by (induction xs) (auto simp: row_Cons)

lemma CreateAgentToken_done:
  assumes "CreateAgentToken drv t db = (None, db')"
  shows "db' = db\<lparr>tTokens := tTokens db @ [tokenRow t]\<rparr>" "tokenConstraint t db = None"
  using assms by (auto simp: CreateAgentToken_def exec_def split: option.splits)

lemma tokenConstraint_None: "tokenConstraint t db = None \<longleftrightarrow>
  tkID t \<notin> tkID ` set (tTokens db) \<and> tkTokenHash t \<notin> tkTokenHash ` set (tTokens db) \<and>
  tkAgentID t \<in> aID ` set (tAgents db)"
  by (auto simp: tokenConstraint_def)

lemma token_roundtrip:
  assumes "CreateAgentToken drv t db = (None, db')" "token_ok t"
  shows "GetAgentTokenByHash okDrv db' h = (if h = tkTokenHash t then Some t else GetAgentTokenByHash okDrv db h)"
proof -
  have "row tkTokenHash (tkTokenHash t) (tTokens db) = None"
    using CreateAgentToken_done(2) [OF assms(1)] by (simp add: row_None_iff tokenConstraint_None)
  then show ?thesis
    using assms(2) by (simp add: CreateAgentToken_done(1) [OF assms(1)] GetAgentTokenByHash_def row_append row_Cons
        split: option.split)
qed

lemma issue_cases:
  assumes "issueAgentToken sha drv clk b rnd e k db = (Inr raw, db')"
  shows "raw = ''kpkt_'' @ hexEncode b" and
    "CreateAgentToken drv \<lparr>tkID = NewID (clk 1) rnd, tkAgentID = k, tkTokenHash = sha256hex sha raw,
       tkCreatedAt = clk 2, tkExpiresAt = Some (clk 0 + tokenExpiry e), tkRevokedAt = None\<rparr> db = (None, db')"
  using assms by (auto simp: issueAgentToken_def Let_def split: prod.splits option.splits)

text \<open>A stored, unrevoked token authenticates its agent until it expires.\<close>

definition bearing :: "string \<Rightarrow> request \<Rightarrow> request" where
  "bearing raw r = r\<lparr>rAuthorization := ''Bearer '' @ raw\<rparr>"

lemma bearing_token [simp]: "rawTokenFromRequest (bearing raw r) = raw"
  using HasPrefix_append [of "''Bearer ''" raw] TrimPrefix_append [of "''Bearer ''" raw]
  by (simp add: rawTokenFromRequest_def bearing_def)

lemma issued_token_works:
  assumes "issueAgentToken sha drv clk b rnd e k db = (Inr raw, db')"
    "time_ok (clk 2)" "time_ok (clk 0 + tokenExpiry e)" "now \<le> clk 0 + tokenExpiry e"
  shows "agentIDFromToken sha okDrv now (bearing raw r) db' = Inr k"
    and "GetAgent okDrv db' k \<noteq> None"
proof -
  note c = issue_cases(2) [OF assms(1)]
  have "token_ok \<lparr>tkID = NewID (clk 1) rnd, tkAgentID = k, tkTokenHash = sha256hex sha raw,
       tkCreatedAt = clk 2, tkExpiresAt = Some (clk 0 + tokenExpiry e), tkRevokedAt = None\<rparr>"
    using assms(2,3) by (simp add: token_ok_def time_ptr_ok_def)
  from token_roundtrip [OF c this, of "sha256hex sha raw"]
  show "agentIDFromToken sha okDrv now (bearing raw r) db' = Inr k"
    using assms(4) issue_cases(1) [OF assms(1)] by (simp add: agentIDFromToken_def Let_def)
  show "GetAgent okDrv db' k \<noteq> None"
    using CreateAgentToken_done [OF c] by (auto simp: tokenConstraint_None GetAgent_def row_None_iff)
qed

section \<open>Registrations that succeed\<close>

lemma register_cases:
  assumes "HandleAgentRegister sha drv clk rndA rndT b e r body db = (resp, db')" "rspBody resp = Inr (k, tok)"
  obtains req a db1 db2 where "body = Inr req" "rqHostname req \<noteq> []" "validPlatform (rqPlatform req)"
    "validRegistrationSecret e (rqRegistrationSecret req)"
    "a = fillAgent r req (clk 2) (case findMachine drv db req of Some a \<Rightarrow> a
           | None \<Rightarrow> freshAgent (NewID (clk 0) rndA) (clk 1))"
    "k = aID a" "SaveAgent drv a db = (None, db1)"
    "db2 = (if findMachine drv db req \<noteq> None then snd (RevokeAllAgentTokens drv (clk 3) k db1) else db1)"
    "issueAgentToken sha drv (\<lambda>i. clk (4 + i)) b rndT e k db2 = (Inr tok, db')"
proof (cases body)
  case (Inl err)
  with assms have False by (auto simp: HandleAgentRegister_def writeError_def split: if_splits)
  then show ?thesis ..
next
  case (Inr req)
  let ?a = "fillAgent r req (clk 2) (case findMachine drv db req of Some a \<Rightarrow> a
           | None \<Rightarrow> freshAgent (NewID (clk 0) rndA) (clk 1))"
  obtain er db1 where sv: "SaveAgent drv ?a db = (er, db1)" by fastforce
  let ?db2 = "if findMachine drv db req \<noteq> None then snd (RevokeAllAgentTokens drv (clk 3) (aID ?a) db1) else db1"
  obtain x db3 where iss: "issueAgentToken sha drv (\<lambda>i. clk (4 + i)) b rndT e (aID ?a) ?db2 = (x, db3)" by fastforce
  note unf = assms(1) [unfolded HandleAgentRegister_def Inr sum.case Let_def sv prod.case iss]
  have g: "rMethod r = ''POST''" "rqHostname req \<noteq> []" "validPlatform (rqPlatform req)"
    "validRegistrationSecret e (rqRegistrationSecret req)" "er = None"
    using unf assms(2) by (auto simp: writeError_def split: if_splits option.splits)
  from unf [simplified g] assms(2) g(2-4) have x: "x = Inr tok" "k = aID ?a" "db' = db3"
    by (auto simp: writeError_def writeJSON_def split: if_splits sum.splits)
  show ?thesis
    by (rule that [OF Inr g(2-4) refl x(2) sv [unfolded g(5)] refl]) (use iss in \<open>simp only: x\<close>)
qed

lemma revoked_not_accepted:
  assumes "GetAgentTokenByHash okDrv db (sha256hex sha (rawTokenFromRequest rq)) =
      map_option (\<lambda>t. if tkAgentID t = k \<and> tkRevokedAt t = None then t\<lparr>tkRevokedAt := Some u\<rparr> else t) x"
  shows "agentIDFromToken sha okDrv now rq db \<noteq> Inr k"
  using assms by (cases x) (auto simp: agentIDFromToken_def Let_def)

lemma fillAgent_select [simp]:
  "aID (fillAgent r req now a) = aID a" "aRegisteredAt (fillAgent r req now a) = aRegisteredAt a"
  "aPlaybookID (fillAgent r req now a) = aPlaybookID a" "aMetadata (fillAgent r req now a) = rqMetadata req"
  "aLastActivityAt (fillAgent r req now a) = now"
  by (simp_all add: fillAgent_def)

section \<open>A sample server and its requests\<close>

definition sampleSha :: digest where
  "sampleSha s = map (\<lambda>c. word_of_nat (of_char c)) s"

definition sampleHandler :: handler where
  "sampleHandler = \<lparr>eUserJWTSecret = ''k'', eRootPassword = ''pw'', eTokenExpiryHours = 0, eArtifactsDir = ''d'',
     eServerURL = ''http://s'', eRegistrationSecrets = [(''agents'', ''secret'')]\<rparr>"

definition sampleRequest :: request where
  "sampleRequest = \<lparr>rMethod = ''POST'', rPath = [], rAuthorization = [], rQueryToken = ''x'', rXAgentID = ''a'',
     rHXRequest = [], rXForwardedFor = [], rXRealIP = [], rRemoteAddr = ''10.0.0.1:80'', rBasicAuth = None\<rparr>"

definition sampleRegistration :: registration_request where
  "sampleRegistration = \<lparr>rqPlatform = PlatformLinux, rqHostname = ''host'', rqModel = [], rqVendor = [],
     rqRegistrationSecret = ''secret'', rqMetadata = [(''machine_id'', ''m'')], rqShells = []\<rparr>"

text \<open>The agent of that machine, with a token whose raw text is \<^verbatim>\<open>x\<close>.\<close>

definition sampleDB' :: db where
  "sampleDB' = emptyDB\<lparr>tAgents := [agentRow ((sampleAgent ''a'' 0)\<lparr>aMetadata := [(''machine_id'', ''m'')]\<rparr>)],
     tTokens := [tokenRow (sampleToken\<lparr>tkTokenHash := sha256hex sampleSha ''x''\<rparr>)]\<rparr>"

lemma sampleExpiry [simp]: "tokenExpiry sampleHandler = 2592000000000000" "time_ok 2592000000000000"
  by code_simp+

lemma machine_m [simp]: "machineOf [(''machine_id'', ''m'')] = ''m''"
  by (simp add: machineOf_def TrimSpace_graph graph_char_def)

lemma sample_valid [simp]: "validPlatform (rqPlatform sampleRegistration)" "rMethod sampleRequest = ''POST''"
    "validRegistrationSecret sampleHandler (rqRegistrationSecret sampleRegistration)" "rqHostname sampleRegistration \<noteq> []"
    "rqMetadata sampleRegistration = [(''machine_id'', ''m'')]" "rawTokenFromRequest sampleRequest = ''x''"
  by (simp_all add: validPlatform_def validRegistrationSecret_def sampleRegistration_def sampleHandler_def
      sampleRequest_def rawTokenFromRequest_def HasPrefix_def)

lemma sample_find: "findMachine okDrv emptyDB sampleRegistration = None"
    "\<exists>a. findMachine okDrv sampleDB' sampleRegistration = Some a \<and> aID a = ''a''"
  by (simp_all add: findMachine_def ListAgents_def emptyDB_def sampleDB'_def scanAgent_def agentRow_def sampleAgent_def Let_def)

lemma issue_okDrv:
  assumes "k \<in> aID ` set (tAgents db)" "NewID (clk 1) rnd \<notin> tkID ` set (tTokens db)"
    "sha256hex sha (''kpkt_'' @ hexEncode b) \<notin> tkTokenHash ` set (tTokens db)"
  shows "\<exists>db'. issueAgentToken sha okDrv clk b rnd e k db = (Inr (''kpkt_'' @ hexEncode b), db')"
  using assms by (auto simp: issueAgentToken_def CreateAgentToken_def tokenConstraint_def Let_def)

section \<open>Properties\<close>

text \<open>
  C8. A registration that succeeds hands out a working token: the agent exists, and until the
  token expires a request that bears it is authenticated as that agent.
\<close>

theorem registered_token_works:
  assumes "HandleAgentRegister sha drv clk rndA rndT b e r body db = (resp, db')" "rspBody resp = Inr (k, tok)"
    "time_ok (clk 6)" "time_ok (clk 4 + tokenExpiry e)" "now \<le> clk 4 + tokenExpiry e"
  shows "GetAgent okDrv db' k \<noteq> None \<and>
    agentIDFromToken sha okDrv now (bearing tok rq) db' = Inr k"
proof -
  obtain db2 where "issueAgentToken sha drv (\<lambda>i. clk (4 + i)) b rndT e k db2 = (Inr tok, db')"
    using register_cases [OF assms(1,2)] by metis
  from issued_token_works [OF this, of now] assms(3-5) show ?thesis by simp
qed

lemma sample_register:
  "\<exists>k db'. HandleAgentRegister sampleSha okDrv (\<lambda>_. 0) [] [] [] sampleHandler sampleRequest (Inr sampleRegistration) emptyDB =
     (writeJSON 200 (k, ''kpkt_''), db')"
proof -
  let ?a = "fillAgent sampleRequest sampleRegistration 0 (freshAgent (NewID 0 []) 0)"
  let ?db1 = "emptyDB\<lparr>tAgents := [agentRow ?a]\<rparr>"
  obtain db' where "issueAgentToken sampleSha okDrv (\<lambda>_. 0) [] [] sampleHandler (aID ?a) ?db1 = (Inr ''kpkt_'', db')"
    using issue_okDrv [of "aID ?a" ?db1 "\<lambda>_. 0" "[]" sampleSha "[]" sampleHandler]
    by (auto simp: emptyDB_def hexEncode_def)
  then show ?thesis
    by (simp add: HandleAgentRegister_def sample_find Let_def SaveAgent_def) (auto simp: emptyDB_def)
qed

theorem registered_token_works_witness:
  "\<exists>k db'. HandleAgentRegister sampleSha okDrv (\<lambda>_. 0) [] [] [] sampleHandler sampleRequest (Inr sampleRegistration) emptyDB =
     (writeJSON 200 (k, ''kpkt_''), db') \<and>
     agentIDFromToken sampleSha okDrv 5 (bearing ''kpkt_'' sampleRequest) db' = Inr k"
proof -
  obtain k db' where reg: "HandleAgentRegister sampleSha okDrv (\<lambda>_. 0) [] [] [] sampleHandler sampleRequest
      (Inr sampleRegistration) emptyDB = (writeJSON 200 (k, ''kpkt_''), db')" using sample_register by blast
  with registered_token_works [OF reg, of k "''kpkt_''" 5 sampleRequest] show ?thesis
    by (auto simp: writeJSON_def)
qed

text \<open>
  C23. An agent is registered only for a valid request: a POST with a hostname, a known platform
  and a registration secret that is one of the configured ones and not empty. Every other
  request is refused with 400, 401 or 405 and changes nothing, whatever the driver does; a
  valid one may still fail with 500 in the store, and nothing is said of the store then.
\<close>

theorem registration_guarded:
  assumes "HandleAgentRegister sha drv clk rndA rndT b e r body db = (resp, db')"
    "\<not> (rMethod r = ''POST'' \<and> (\<exists>req. body = Inr req \<and> rqHostname req \<noteq> [] \<and>
        rqPlatform req \<in> {PlatformLinux, PlatformMac, PlatformWindows} \<and> rqRegistrationSecret req \<noteq> [] \<and>
        rqRegistrationSecret req \<in> snd ` set (eRegistrationSecrets e)))"
  shows "db' = db \<and> rspStatus resp \<in> {400, 401, 405} \<and> (\<exists>msg. rspBody resp = Inl msg)"
proof (cases body)
  case (Inl err)
  with assms(1) show ?thesis by (auto simp: HandleAgentRegister_def writeError_def split: if_splits)
next
  case (Inr req)
  have "validRegistrationSecret e x \<longleftrightarrow> x \<noteq> [] \<and> x \<in> snd ` set (eRegistrationSecrets e)" for x
    by (auto simp: validRegistrationSecret_def list_ex_iff intro: rev_image_eqI)
  then have "rMethod r \<noteq> ''POST'' \<or> rqHostname req = [] \<or> \<not> validPlatform (rqPlatform req) \<or>
      \<not> validRegistrationSecret e (rqRegistrationSecret req)"
    using assms(2) by (auto simp: Inr validPlatform_def)
  with assms(1) show ?thesis unfolding Inr by (auto simp: HandleAgentRegister_def writeError_def split: if_splits)
qed

theorem registration_guarded_witness:
  "snd (HandleAgentRegister sampleSha okDrv (\<lambda>_. 0) [] [] [] sampleHandler sampleRequest
     (Inr (sampleRegistration\<lparr>rqRegistrationSecret := ''guess''\<rparr>)) sampleDB') = sampleDB'"
  using registration_guarded [OF prod.collapse [symmetric], of sampleRequest
      "Inr (sampleRegistration\<lparr>rqRegistrationSecret := ''guess''\<rparr>)" sampleHandler]
  by (simp add: sampleHandler_def)

text \<open>
  C24. Registering a known machine again keeps its agent and invalidates its old tokens: the
  answer names the agent the machine was found as, no agent is added or removed, every token
  that was accepted for it is refused as revoked, and no token but the new one authenticates it.
\<close>

theorem reregistration_revokes:
  assumes "HandleAgentRegister sha okDrv clk rndA rndT b e r (Inr req) db = (resp, db')"
    "rspBody resp = Inr (k, tok)" "findMachine okDrv db req = Some a"
    "time_ok (clk 6)" "time_ok (clk 4 + tokenExpiry e)"
  shows "k = aID a \<and> map aID (tAgents db') = map aID (tAgents db) \<and>
    (\<forall>rq t0 now. agentIDFromToken sha okDrv t0 rq db = Inr (aID a) \<longrightarrow>
       agentIDFromToken sha okDrv now rq db' = Inl ''token has been revoked'') \<and>
    (\<forall>rq now. sha256hex sha (rawTokenFromRequest rq) \<noteq> sha256hex sha tok \<longrightarrow>
       agentIDFromToken sha okDrv now rq db' \<noteq> Inr (aID a))"
proof -
  let ?a = "fillAgent r req (clk 2) a"
  obtain db1 where k: "k = aID a" and sv: "SaveAgent okDrv ?a db = (None, db1)" and
    iss: "issueAgentToken sha okDrv (\<lambda>i. clk (4 + i)) b rndT e k
      (snd (RevokeAllAgentTokens okDrv (clk 3) k db1)) = (Inr tok, db')"
    by (rule register_cases [OF assms(1,2)]) (use assms(3) in auto)
  let ?db2 = "snd (RevokeAllAgentTokens okDrv (clk 3) k db1)"
  note c = issue_cases(2) [OF iss]
  have db1: "db1 = db\<lparr>tAgents := upsert aID mergeAgent (agentRow ?a) (tAgents db)\<rparr>"
    using sv by (simp add: SaveAgent_def)
  have "a \<in> set (ListAgents okDrv db)"
    using assms(3) by (auto simp: findMachine_def Let_def split: if_splits dest: find_SomeD)
  then have "aID a \<in> aID ` set (tAgents db)" by (force simp: ListAgents_def scanAgent_def)
  moreover have "aID (agentRow ?a) = aID a" by (simp add: agentRow_def)
  ultimately have "map aID (tAgents db1) = map aID (tAgents db)" by (simp add: db1 agents.keys_upsert)
  moreover have "tAgents db' = tAgents db1"
    by (simp add: CreateAgentToken_done(1) [OF c] RevokeAllAgentTokens_def)
  ultimately have agents: "map aID (tAgents db') = map aID (tAgents db)" by simp
  have ok: "token_ok \<lparr>tkID = NewID (clk (4 + 1)) rndT, tkAgentID = k, tkTokenHash = sha256hex sha tok,
       tkCreatedAt = clk (4 + 2), tkExpiresAt = Some (clk (4 + 0) + tokenExpiry e), tkRevokedAt = None\<rparr>"
    using assms(4,5) by (simp add: token_ok_def time_ptr_ok_def)
  have rev: "fst (RevokeAllAgentTokens okDrv (clk 3) k db1) = None" by (simp add: RevokeAllAgentTokens_def)
  have old: "GetAgentTokenByHash okDrv db' h = map_option (\<lambda>t. if tkAgentID t = k \<and> tkRevokedAt t = None
       then t\<lparr>tkRevokedAt := Some (decodeTime (encodeTime (clk 3)))\<rparr> else t) (GetAgentTokenByHash okDrv db h)"
    if "h \<noteq> sha256hex sha tok" for h
  proof -
    have "GetAgentTokenByHash okDrv db1 h = GetAgentTokenByHash okDrv db h" by (simp add: db1 GetAgentTokenByHash_def)
    then show ?thesis using that token_roundtrip [OF c ok, of h] revoke_all_done [OF rev, of h] by simp
  qed
  have refused: "agentIDFromToken sha okDrv now rq db' \<noteq> Inr k"
    if "sha256hex sha (rawTokenFromRequest rq) \<noteq> sha256hex sha tok" for rq now
    by (rule revoked_not_accepted [OF old [OF that]])
  have "agentIDFromToken sha okDrv now rq db' = Inl ''token has been revoked''"
    if acc: "agentIDFromToken sha okDrv t0 rq db = Inr k" for rq t0 now
  proof -
    let ?h = "sha256hex sha (rawTokenFromRequest rq)"
    obtain t where t: "GetAgentTokenByHash okDrv db ?h = Some t" "tkAgentID t = k" "tkRevokedAt t = None"
        and raw: "rawTokenFromRequest rq \<noteq> []"
      using acc by (auto simp: agentIDFromToken_def Let_def split: if_splits option.splits)
    have "map tkTokenHash (tTokens ?db2) = map tkTokenHash (tTokens db)"
      by (simp add: RevokeAllAgentTokens_def db1 comp_def if_distrib [of tkTokenHash] cong: if_cong)
    then have "tkTokenHash ` set (tTokens ?db2) = tkTokenHash ` set (tTokens db)" by (metis list.set_map)
    moreover have "?h \<in> tkTokenHash ` set (tTokens db)"
      using t(1) by (auto simp: GetAgentTokenByHash_def dest!: row_SomeD intro: rev_image_eqI)
    ultimately have "?h \<noteq> sha256hex sha tok"
      using CreateAgentToken_done(2) [OF c] unfolding tokenConstraint_None by auto
    from old [OF this] show ?thesis using t raw by (simp add: agentIDFromToken_def Let_def)
  qed
  with k agents refused show ?thesis by blast
qed

theorem reregistration_revokes_witness:
  "\<exists>db'. HandleAgentRegister sampleSha okDrv (\<lambda>_. 0) [] [] [] sampleHandler sampleRequest (Inr sampleRegistration) sampleDB' =
     (writeJSON 200 (''a'', ''kpkt_''), db') \<and> agentIDFromToken sampleSha okDrv 5 sampleRequest sampleDB' = Inr ''a'' \<and>
     agentIDFromToken sampleSha okDrv 5 sampleRequest db' = Inl ''token has been revoked''"
proof -
  obtain a where a: "findMachine okDrv sampleDB' sampleRegistration = Some a" "aID a = ''a''" using sample_find(2) by blast
  let ?a = "fillAgent sampleRequest sampleRegistration 0 a"
  let ?db1 = "snd (RevokeAllAgentTokens okDrv 0 ''a'' (snd (SaveAgent okDrv ?a sampleDB')))"
  have hash: "sha256hex sampleSha ''kpkt_'' \<noteq> sha256hex sampleSha ''x''"
    by (intro notI, drule arg_cong [of _ _ length]) (simp add: sha256hex_def sampleSha_def)
  have "NewID 0 [] \<noteq> ''t''"
    using newULID_length [of "word_of_int (UnixMilli 0)" "[]"] by (auto simp: NewID_def)
  moreover have "map tkID (tTokens ?db1) = [''t'']" "map tkTokenHash (tTokens ?db1) = [sha256hex sampleSha ''x'']"
    by (simp_all add: RevokeAllAgentTokens_def SaveAgent_def sampleDB'_def) (simp_all add: sampleToken_def)
  then have "tkID ` set (tTokens ?db1) = {''t''}" "tkTokenHash ` set (tTokens ?db1) = {sha256hex sampleSha ''x''}"
    by (metis list.set_map list.simps(15) list.set(1))+
  moreover have "''a'' \<in> aID ` set (tAgents ?db1)"
    by (simp add: RevokeAllAgentTokens_def SaveAgent_def agents.key_image_upsert a)
  ultimately obtain db' where iss: "issueAgentToken sampleSha okDrv (\<lambda>_. 0) [] [] sampleHandler ''a'' ?db1 = (Inr ''kpkt_'', db')"
    using issue_okDrv [of "''a''" ?db1 "\<lambda>_. 0" "[]" sampleSha "[]" sampleHandler] hash
    by (auto simp: hexEncode_def)
  then have reg: "HandleAgentRegister sampleSha okDrv (\<lambda>_. 0) [] [] [] sampleHandler sampleRequest (Inr sampleRegistration) sampleDB' =
     (writeJSON 200 (''a'', ''kpkt_''), db')"
    by (simp add: HandleAgentRegister_def a Let_def SaveAgent_def)
  have accepted: "agentIDFromToken sampleSha okDrv 5 sampleRequest sampleDB' = Inr ''a''"
    by (simp add: agentIDFromToken_def GetAgentTokenByHash_def sampleDB'_def row_Cons Let_def)
      (simp add: scanToken_def tokenRow_def sampleToken_def sampleRequest_def decodeTimePtr_def encodeTimePtr_def)
  with reg reregistration_revokes [OF reg, of "''a''" "''kpkt_''" a] a show ?thesis
    by (auto simp: writeJSON_def)
qed

text \<open>
  C25. Refreshing a token rotates it: the response carries a token that authenticates the same
  agent until it expires, and the token presented is refused from then on.
\<close>

theorem refresh_rotates:
  assumes "HandleTokenRefresh sha okDrv clk b rnd e r db = (resp, db')" "rspBody resp = Inr new"
    "agentIDFromToken sha okDrv t0 r db = Inr (rXAgentID r)" "db_inv db"
    "time_ok (clk 2)" "time_ok (clk 0 + tokenExpiry e)" "now \<le> clk 0 + tokenExpiry e"
  shows "agentIDFromToken sha okDrv now (bearing new rq) db' = Inr (rXAgentID r) \<and>
    (\<forall>now'. agentIDFromToken sha okDrv now' r db' = Inl ''token has been revoked'')"
proof -
  let ?h = "sha256hex sha (rawTokenFromRequest r)"
  obtain db1 where iss: "issueAgentToken sha okDrv clk b rnd e (rXAgentID r) db = (Inr new, db1)"
    and db': "db' = (if rawTokenFromRequest r \<noteq> [] then
        (case GetAgentTokenByHash okDrv db1 ?h of None \<Rightarrow> db1
         | Some tok \<Rightarrow> snd (RevokeAgentToken okDrv (clk 3) (tkID tok) db1)) else db1)"
    using assms(1,2) by (auto simp: HandleTokenRefresh_def Let_def writeError_def writeJSON_def
        split: if_splits prod.splits sum.splits)
  let ?t = "\<lparr>tkID = NewID (clk 1) rnd, tkAgentID = rXAgentID r, tkTokenHash = sha256hex sha new,
       tkCreatedAt = clk 2, tkExpiresAt = Some (clk 0 + tokenExpiry e), tkRevokedAt = None\<rparr>"
  note c = issue_cases(2) [OF iss]
  have ok: "token_ok ?t" using assms(5,6) by (simp add: token_ok_def time_ptr_ok_def)
  have raw: "rawTokenFromRequest r \<noteq> []" using assms(3) by (auto simp: agentIDFromToken_def)
  obtain old where old: "GetAgentTokenByHash okDrv db ?h = Some old"
    using assms(3) by (auto simp: agentIDFromToken_def Let_def split: if_splits option.splits)
  then obtain o' where o': "o' \<in> set (tTokens db)" "tkTokenHash o' = ?h" "tkID old = tkID o'"
    by (auto simp: GetAgentTokenByHash_def scanToken_def dest: row_SomeD)
  note cons = CreateAgentToken_done(2) [OF c, unfolded tokenConstraint_None]
  have hash: "?h \<noteq> sha256hex sha new" and ids: "tkID old \<noteq> tkID ?t"
    using cons o' by force+
  have get1: "GetAgentTokenByHash okDrv db1 ?h = Some old"
    using token_roundtrip [OF c ok, of ?h] hash old by simp
  then have db'': "db' = snd (RevokeAgentToken okDrv (clk 3) (tkID old) db1)" using db' raw by simp
  have get': "GetAgentTokenByHash okDrv db' h = map_option (\<lambda>t. if tkID t = tkID old
      then t\<lparr>tkRevokedAt := Some (decodeTime (encodeTime (clk 3)))\<rparr> else t) (GetAgentTokenByHash okDrv db1 h)" for h
    by (auto simp: db'' RevokeAgentToken_def GetAgentTokenByHash_def row_map_same_key scanToken_def
        decodeTimePtr_def option.map_comp intro!: map_option_cong)
  have "GetAgentTokenByHash okDrv db' ?h \<noteq> None \<and> tkRevokedAt (the (GetAgentTokenByHash okDrv db' ?h)) \<noteq> None"
    using get' [of ?h] get1 by simp
  moreover have "GetAgentTokenByHash okDrv db' (sha256hex sha new) = Some ?t"
    using get' [of "sha256hex sha new"] token_roundtrip [OF c ok, of "sha256hex sha new"] ids by simp
  ultimately show ?thesis
    using raw assms(7) issue_cases(1) [OF iss] by (auto simp: agentIDFromToken_def Let_def)
qed

theorem refresh_rotates_witness:
  "\<exists>db'. HandleTokenRefresh sampleSha okDrv (\<lambda>_. 0) [] [] sampleHandler sampleRequest sampleDB' = (writeJSON 200 ''kpkt_'', db') \<and>
     agentIDFromToken sampleSha okDrv 5 (bearing ''kpkt_'' sampleRequest) db' = Inr ''a'' \<and>
     agentIDFromToken sampleSha okDrv 5 sampleRequest db' = Inl ''token has been revoked''"
proof -
  have hash: "sha256hex sampleSha ''kpkt_'' \<noteq> sha256hex sampleSha ''x''"
    by (intro notI, drule arg_cong [of _ _ length]) (simp add: sha256hex_def sampleSha_def)
  have "NewID 0 [] \<noteq> ''t''"
    using newULID_length [of "word_of_int (UnixMilli 0)" "[]"] by (auto simp: NewID_def)
  then obtain db1 where iss: "issueAgentToken sampleSha okDrv (\<lambda>_. 0) [] [] sampleHandler ''a'' sampleDB' = (Inr ''kpkt_'', db1)"
    using issue_okDrv [of "''a''" sampleDB' "\<lambda>_. 0" "[]" sampleSha "[]" sampleHandler] hash
    by (auto simp: sampleDB'_def hexEncode_def sampleToken_def sampleAgent_def)
  obtain db' where ref: "HandleTokenRefresh sampleSha okDrv (\<lambda>_. 0) [] [] sampleHandler sampleRequest sampleDB' =
      (writeJSON 200 ''kpkt_'', db')"
    using iss by (simp add: HandleTokenRefresh_def Let_def sampleRequest_def)
  have inv: "db_inv sampleDB'" by (simp add: db_inv_def sampleDB'_def emptyDB_def sampleAgent_def sampleToken_def)
  have "agentIDFromToken sampleSha okDrv 0 sampleRequest sampleDB' = Inr (rXAgentID sampleRequest)"
    by (simp add: agentIDFromToken_def GetAgentTokenByHash_def sampleDB'_def row_Cons Let_def)
      (simp add: scanToken_def tokenRow_def sampleToken_def sampleRequest_def decodeTimePtr_def encodeTimePtr_def)
  from refresh_rotates [OF ref _ this inv, of "''kpkt_''" 5 sampleRequest] ref show ?thesis
    by (auto simp: writeJSON_def sampleRequest_def)
qed

text \<open>
  The two copies of the root check agree: a root endpoint runs its handler exactly for the
  requests \<open>isRootRequest\<close> accepts, and answers every other request with 401 and no effect.
\<close>

lemma root_endpoint_guarded:
  "if isRootRequest jwt now e r then RequireRootAuth jwt now e next r w = next r w
   else rspStatus (fst (RequireRootAuth jwt now e next r w)) = 401 \<and> snd (RequireRootAuth jwt now e next r w) = w"
  by (simp add: RequireRootAuth_root RequireRootAuth_other writeError_def)

end
