(* ===== verification/Ws_Handler.thy ===== *)
theory Ws_Handler
  imports Auth
begin

text \<open>
  The WebSocket endpoint of the server: \<^verbatim>\<open>handlers/ws.go\<close>. \<open>handleWSMessage\<close> is the
  dispatch of one inbound message, with \<open>None\<close> for data that is no envelope; the handler of a
  connection is split where other goroutines may run: \<open>openWS\<close> up to the read loop,
  \<open>handleWSMessage\<close> per message, \<open>closeWS\<close> for the deferred function. The service and the
  command store of the handler are always set by \<^verbatim>\<open>cmd/kompakt\<close>. Logging to the server's
  own console is left out.

  What a deployment has been through is abstracted to its \<open>progress\<close>, and each message of
  the protocol to a function on it; the handler refines that machine.
\<close>

section \<open>Handling a message\<close>

abbreviation WSMsgLog :: string where "WSMsgLog \<equiv> ''log''"
abbreviation WSMsgStepStart :: string where "WSMsgStepStart \<equiv> ''step_start''"
abbreviation WSMsgStepComplete :: string where "WSMsgStepComplete \<equiv> ''step_complete''"
abbreviation WSMsgStepFailed :: string where "WSMsgStepFailed \<equiv> ''step_failed''"
abbreviation WSMsgReboot :: string where "WSMsgReboot \<equiv> ''reboot''"
abbreviation WSMsgDeployDone :: string where "WSMsgDeployDone \<equiv> ''deploy_done''"
abbreviation WSMsgDeployFailed :: string where "WSMsgDeployFailed \<equiv> ''deploy_failed''"
abbreviation WSMsgCommandStream :: string where "WSMsgCommandStream \<equiv> ''command_stream''"
abbreviation WSMsgCommandCompleted :: string where "WSMsgCommandCompleted \<equiv> ''command_completed''"

definition updateDeploy ::
  "driver \<Rightarrow> gotime \<Rightarrow> string \<Rightarrow> (deployment_state \<Rightarrow> deployment_state) \<Rightarrow> db \<Rightarrow> db" where
  "updateDeploy drv now deploymentID fn db = (case GetDeployment drv db deploymentID of
      None \<Rightarrow> db
    | Some dep \<Rightarrow> snd (SaveDeployment drv ((fn dep)\<lparr>dUpdatedAt := now\<rparr>) db))"

definition setAgentStatus :: "driver \<Rightarrow> string \<Rightarrow> string \<Rightarrow> db \<Rightarrow> db" where
  "setAgentStatus drv agentID status db = (case GetAgent drv db agentID of
      None \<Rightarrow> db
    | Some a \<Rightarrow> snd (SaveAgent drv (a\<lparr>aStatus := status\<rparr>) db))"

text \<open>\<^verbatim>\<open>[job / step] what\<close>, with the fallback name of a nameless step.\<close>

definition stepLabel :: "ws_step_data \<Rightarrow> string" where
  "stepLabel d = (if wsStepName d = [] then ''step-'' @ Itoa (wsStepIndex d) else wsStepName d)"

definition stepLine :: "ws_step_data \<Rightarrow> string \<Rightarrow> string" where
  "stepLine d what = ''['' @ wsJobName d @ '' / '' @ stepLabel d @ ''] '' @ what"

definition onLog :: "driver \<Rightarrow> clock \<Rightarrow> ws_log_data \<Rightarrow> db \<Rightarrow> db" where
  "onLog drv clk d db = snd (AppendLogs drv [\<lparr>lgDeploymentID = wlDeploymentID d, lgJobName = wlJobName d,
     lgStepIndex = wlStepIndex d, lgLevel = wlLevel d, lgMessage = wlMessage d, lgTimestamp = clk 0\<rparr>] db)"

definition onStepStart :: "driver \<Rightarrow> clock \<Rightarrow> ws_step_data \<Rightarrow> db \<Rightarrow> db" where
  "onStepStart drv clk d db =
     updateDeploy drv (clk 1) (wsDeploymentID d)
       (\<lambda>dep. dep\<lparr>dStatus := DeploymentStatusRunning, dResumeStepIndex := wsStepIndex d\<rparr>)
       (AppendDeploymentLog drv (clk 0) (wsDeploymentID d) (wsJobName d) (wsStepIndex d) LogLevelInfo
         (stepLine d ''starting'') db)"

definition onStepComplete :: "driver \<Rightarrow> clock \<Rightarrow> ws_step_data \<Rightarrow> db \<Rightarrow> db" where
  "onStepComplete drv clk d db =
     updateDeploy drv (clk 1) (wsDeploymentID d) (\<lambda>dep. dep\<lparr>dResumeStepIndex := wsStepIndex d + 1\<rparr>)
       (AppendDeploymentLog drv (clk 0) (wsDeploymentID d) (wsJobName d) (wsStepIndex d) LogLevelInfo
         (stepLine d ''completed'') db)"

definition onStepFailed :: "driver \<Rightarrow> clock \<Rightarrow> ws_step_data \<Rightarrow> db \<Rightarrow> db" where
  "onStepFailed drv clk d db =
     updateDeploy drv (clk 0) (wsDeploymentID d)
       (\<lambda>dep. dep\<lparr>dStatus := DeploymentStatusFailed, dErrorDetail := wsError d\<rparr>) db"

definition onReboot :: "driver \<Rightarrow> clock \<Rightarrow> ws_reboot_data \<Rightarrow> db \<Rightarrow> db" where
  "onReboot drv clk d db =
     updateDeploy drv (clk 0) (wrDeploymentID d)
       (\<lambda>dep. dep\<lparr>dStatus := DeploymentStatusRebooting, dResumeStepIndex := wrResumeStepIndex d\<rparr>) db"

definition onDeployDone :: "driver \<Rightarrow> clock \<Rightarrow> string \<Rightarrow> ws_step_data \<Rightarrow> db \<Rightarrow> db" where
  "onDeployDone drv clk agentID d db =
     (let playbookName = ResolvePlaybookNameByDeployment drv db (wsDeploymentID d);
          db1 = AppendDeploymentLog drv (clk 0) (wsDeploymentID d) [] 0 LogLevelInfo
                  (''playbook '' @ Quote playbookName @ '' completed successfully'') db;
          db2 = updateDeploy drv (clk 2) (wsDeploymentID d)
                  (\<lambda>dep. dep\<lparr>dStatus := DeploymentStatusCompleted, dFinishedAt := Some (clk 1)\<rparr>) db1
      in setAgentStatus drv agentID AgentStatusCompleted db2)"

definition onDeployFailed :: "driver \<Rightarrow> clock \<Rightarrow> string \<Rightarrow> ws_step_data \<Rightarrow> db \<Rightarrow> db" where
  "onDeployFailed drv clk agentID d db =
     (let playbookName = ResolvePlaybookNameByDeployment drv db (wsDeploymentID d);
          msg = ''playbook '' @ Quote playbookName @ '' failed'';
          msg' = (if wsError d \<noteq> [] then msg @ '': '' @ wsError d else msg);
          db1 = AppendDeploymentLog drv (clk 0) (wsDeploymentID d) (wsJobName d) (wsStepIndex d) LogLevelError msg' db;
          db2 = updateDeploy drv (clk 2) (wsDeploymentID d)
                  (\<lambda>dep. dep\<lparr>dStatus := DeploymentStatusFailed, dErrorDetail := wsError d,
                             dFinishedAt := Some (clk 1)\<rparr>) db1
      in setAgentStatus drv agentID AgentStatusFailed db2)"

text \<open>The effect of a payload that may not parse.\<close>

definition whenParsed :: "'d option \<Rightarrow> ('d \<Rightarrow> 'w \<Rightarrow> 'w) \<Rightarrow> 'w \<Rightarrow> 'w" where
  "whenParsed d f w = (case d of None \<Rightarrow> w | Some d \<Rightarrow> f d w)"

abbreviation onDB :: "(db \<Rightarrow> db) \<Rightarrow> world \<Rightarrow> world" where
  "onDB f w \<equiv> w\<lparr>wDB := f (wDB w)\<rparr>"

abbreviation onCommandStream :: "ws_command_chunk \<Rightarrow> world \<Rightarrow> world" where
  "onCommandStream d w \<equiv> w\<lparr>wCmds := AppendOutput (wkCmdID d) (wkOutput d) (wCmds w)\<rparr>"

abbreviation onCommandCompleted :: "ws_command_status \<Rightarrow> world \<Rightarrow> world" where
  "onCommandCompleted d w \<equiv> w\<lparr>wCmds := SetDone (wtCmdID d) (wtExitCode d) (wtError d) (wCmds w)\<rparr>"

definition handleWSMessage :: "driver \<Rightarrow> clock \<Rightarrow> string \<Rightarrow> envelope option \<Rightarrow> world \<Rightarrow> world" where
  "handleWSMessage drv clk agentID data w = (case data of
      None \<Rightarrow> w
    | Some env \<Rightarrow>
        let t = evType env; d = evData env in
        if t = WSMsgLog then whenParsed (asLog d) (\<lambda>d. onDB (onLog drv clk d)) w
        else if t = WSMsgStepStart then whenParsed (asStep d) (\<lambda>d. onDB (onStepStart drv clk d)) w
        else if t = WSMsgStepComplete then whenParsed (asStep d) (\<lambda>d. onDB (onStepComplete drv clk d)) w
        else if t = WSMsgStepFailed then whenParsed (asStep d) (\<lambda>d. onDB (onStepFailed drv clk d)) w
        else if t = WSMsgReboot then whenParsed (asReboot d) (\<lambda>d. onDB (onReboot drv clk d)) w
        else if t = WSMsgDeployDone then whenParsed (asStep d) (\<lambda>d. onDB (onDeployDone drv clk agentID d)) w
        else if t = WSMsgDeployFailed then whenParsed (asStep d) (\<lambda>d. onDB (onDeployFailed drv clk agentID d)) w
        else if t = WSMsgCommandStream
          then whenParsed (asChunk d) onCommandStream w
        else if t = WSMsgCommandCompleted
          then whenParsed (asStatus d) onCommandCompleted w
        else w)"

section \<open>Opening and closing a connection\<close>

datatype ws_open = Refused "unit response" | NotUpgraded | Panicked | Opened string world

text \<open>
  \<open>acceptErr\<close> is the outcome of \<^verbatim>\<open>websocket.Accept\<close>. The push that follows takes its
  clock readings behind those of the handler.
\<close>

definition openWS ::
  "digest \<Rightarrow> driver \<Rightarrow> clock \<Rightarrow> 8 word list \<Rightarrow> handler \<Rightarrow> request \<Rightarrow> err \<Rightarrow> world \<Rightarrow> ws_open" where
  "openWS sha drv clk rnd e r acceptErr w =
     (case agentIDFromToken sha drv (clk 0) r (wDB w) of
        Inl msg \<Rightarrow> Refused (writeError 401 msg)
      | Inr agentID \<Rightarrow>
     (case GetAgent drv (wDB w) agentID of
        None \<Rightarrow> Refused (writeError 404 ''agent not found'')
      | Some agent \<Rightarrow>
     (if acceptErr \<noteq> None then NotUpgraded else
      (let (conn, hub1) = newAgentConn agentID (wHub w) in
       case register conn hub1 of
         None \<Rightarrow> Panicked
       | Some hub2 \<Rightarrow>
           (let db1 = snd (SaveAgent drv (agent\<lparr>aStatus := AgentStatusConnected, aIPAddress := requestIP r,
                              aLastActivityAt := clk 1\<rparr>) (wDB w))
            in Opened agentID (PushPlaybookIfAssigned drv (\<lambda>i. clk (2 + i)) rnd (eServerURL e) agentID False
                 (w\<lparr>wDB := db1, wHub := hub2\<rparr>)))))))"

definition closeWS :: "driver \<Rightarrow> string \<Rightarrow> world \<Rightarrow> world" where
  "closeWS drv agentID w =
     (let hub' = unregister agentID (wHub w);
          db' = (case GetAgent drv (wDB w) agentID of
              None \<Rightarrow> wDB w
            | Some a \<Rightarrow> snd (SaveAgent drv
                (a\<lparr>aStatus := (if aStatus a = AgentStatusConnected then AgentStatusOffline else aStatus a)\<rparr>) (wDB w)))
      in w\<lparr>wDB := db', wHub := hub'\<rparr>)"

section \<open>Invariants\<close>

lemma updateDeploy_inv [inv_intros]: "db_inv db \<Longrightarrow> db_inv (updateDeploy drv now k f db)"
  by (auto simp: updateDeploy_def intro: inv_intros split: option.splits)

lemma setAgentStatus_inv [inv_intros]: "db_inv db \<Longrightarrow> db_inv (setAgentStatus drv k s db)"
  by (auto simp: setAgentStatus_def intro: inv_intros split: option.splits)

lemma handleWSMessage_inv [inv_intros]: "world_inv w \<Longrightarrow> world_inv (handleWSMessage drv clk k env w)"
  by (auto simp: handleWSMessage_def whenParsed_def world_inv_def Let_def onLog_def onStepStart_def onStepComplete_def
      onStepFailed_def onReboot_def onDeployDone_def onDeployFailed_def intro!: inv_intros split: option.splits)

lemma openWS_inv:
  assumes "world_inv w" "openWS sha drv clk rnd e r acc w = Opened k w'"
  shows "world_inv w'"
proof -
  obtain agent conn hub1 hub2 where "newAgentConn k (wHub w) = (conn, hub1)" "register conn hub1 = Some hub2"
    and w': "w' = PushPlaybookIfAssigned drv (\<lambda>i. clk (2 + i)) rnd (eServerURL e) k False
        (w\<lparr>wDB := snd (SaveAgent drv (agent\<lparr>aStatus := AgentStatusConnected, aIPAddress := requestIP r,
                              aLastActivityAt := clk 1\<rparr>) (wDB w)), wHub := hub2\<rparr>)"
    using assms(2) by (auto simp: openWS_def Let_def split: sum.splits option.splits if_splits prod.splits)
  moreover from this have "hub_inv hub2"
    using connect_total [of "wHub w"] assms(1) by (fastforce simp: world_inv_def)
  ultimately show ?thesis
    using assms(1) unfolding w'
    by (intro PushPlaybookIfAssigned_inv world_invI SaveAgent_inv) (simp_all add: world_inv_def)
qed

lemma closeWS_inv [inv_intros]: "world_inv w \<Longrightarrow> world_inv (closeWS drv k w)"
  by (auto simp: closeWS_def Let_def world_inv_def intro!: inv_intros split: option.splits)

lemma openWS_no_panic:
  assumes "world_inv w"
  shows "openWS sha drv clk rnd e r acc w \<noteq> Panicked"
proof -
  have reg: "register (fst (newAgentConn k (wHub w))) (snd (newAgentConn k (wHub w))) \<noteq> None" for k
    using connect_total [of "wHub w" k] assms unfolding world_inv_def by (metis option.distinct(1) prod.collapse)
  show ?thesis
    by (auto simp: openWS_def Let_def case_prod_beta reg simp del: not_None_eq split: sum.splits option.splits)
qed

section \<open>The progress of a deployment\<close>

text \<open>
  The abstract machine: what the server remembers of a run, and what a message of the protocol
  does to it.
\<close>

record progress =
  pStatus :: string
  pResume :: int
  pError :: string
  pFinished :: bool

definition progressOf :: "('t, 'z) deployment_row_scheme \<Rightarrow> progress" where
  "progressOf d = \<lparr>pStatus = dStatus d, pResume = dResumeStepIndex d, pError = dErrorDetail d,
     pFinished = (dFinishedAt d \<noteq> None)\<rparr>"

fun subject :: "agent_msg \<Rightarrow> string option" where
  "subject (MsgStepStart d) = Some (wsDeploymentID d)"
| "subject (MsgStepComplete d) = Some (wsDeploymentID d)"
| "subject (MsgReboot d) = Some (wrDeploymentID d)"
| "subject (MsgDeployDone d) = Some (wsDeploymentID d)"
| "subject (MsgDeployFailed d) = Some (wsDeploymentID d)"
| "subject _ = None"

fun advance :: "agent_msg \<Rightarrow> progress \<Rightarrow> progress" where
  "advance (MsgStepStart d) p = p\<lparr>pStatus := DeploymentStatusRunning, pResume := wsStepIndex d\<rparr>"
| "advance (MsgStepComplete d) p = p\<lparr>pResume := wsStepIndex d + 1\<rparr>"
| "advance (MsgReboot d) p = p\<lparr>pStatus := DeploymentStatusRebooting, pResume := wrResumeStepIndex d\<rparr>"
| "advance (MsgDeployDone d) p = p\<lparr>pStatus := DeploymentStatusCompleted, pFinished := True\<rparr>"
| "advance (MsgDeployFailed d) p =
     p\<lparr>pStatus := DeploymentStatusFailed, pError := wsError d, pFinished := True\<rparr>"
| "advance _ p = p"

text \<open>An envelope as the agent sends it: the type and the payload of one message.\<close>

fun carries :: "envelope \<Rightarrow> agent_msg \<Rightarrow> bool" where
  "carries env (MsgLog d) \<longleftrightarrow> evType env = WSMsgLog \<and> asLog (evData env) = Some d"
| "carries env (MsgStepStart d) \<longleftrightarrow> evType env = WSMsgStepStart \<and> asStep (evData env) = Some d"
| "carries env (MsgStepComplete d) \<longleftrightarrow> evType env = WSMsgStepComplete \<and> asStep (evData env) = Some d"
| "carries env (MsgReboot d) \<longleftrightarrow> evType env = WSMsgReboot \<and> asReboot (evData env) = Some d"
| "carries env (MsgDeployDone d) \<longleftrightarrow> evType env = WSMsgDeployDone \<and> asStep (evData env) = Some d"
| "carries env (MsgDeployFailed d) \<longleftrightarrow> evType env = WSMsgDeployFailed \<and> asStep (evData env) = Some d"
| "carries env (MsgCommandStream d) \<longleftrightarrow> evType env = WSMsgCommandStream \<and> asChunk (evData env) = Some d"
| "carries env (MsgCommandCompleted d) \<longleftrightarrow> evType env = WSMsgCommandCompleted \<and> asStatus (evData env) = Some d"

text \<open>The progress the database holds for a deployment.\<close>

definition progressIn :: "db \<Rightarrow> string \<Rightarrow> progress option" where
  "progressIn db k = map_option progressOf (row dID k (tDeployments db))"

lemma progressIn_log [simp]: "progressIn (AppendDeploymentLog drv now d j i l m db) k = progressIn db k"
  by (simp add: progressIn_def)

lemma progressIn_AppendLogs [simp]: "progressIn (snd (AppendLogs drv es db)) k = progressIn db k"
  by (simp add: progressIn_def AppendLogs_tables)

lemma progressIn_setAgentStatus [simp]: "progressIn (setAgentStatus drv a s db) k = progressIn db k"
  by (simp add: setAgentStatus_def progressIn_def split: option.splits)

lemma progressOf_row:
  "progressOf (deploymentRow d) = progressOf d"
  "progressOf (mergeDeployment x (deploymentRow d)) = progressOf d"
  by (auto simp: progressOf_def deploymentRow_def mergeDeployment_def encodeTimePtr_def split: option.splits)

lemma progressOf_scan [simp]: "progressOf (enrichDeployment drv db (scanDeployment r)) = progressOf r"
  by (auto simp: progressOf_def scanDeployment_def enrichDeployment_def decodeTimePtr_def split: option.splits)

lemma updateDeploy_progress:
  assumes "\<And>dep. dID (fn dep) = dID dep" "\<And>dep. progressOf (fn dep) = g (progressOf dep)"
  shows "progressIn (updateDeploy okDrv now k fn db) i =
    (if i = k then map_option g (progressIn db i) else progressIn db i)"
proof (cases "row dID k (tDeployments db)")
  case None
  then show ?thesis by (simp add: updateDeploy_def GetDeployment_def progressIn_def)
next
  case (Some r)
  let ?d = "(fn (enrichDeployment okDrv db (scanDeployment r)))\<lparr>dUpdatedAt := now\<rparr>"
  have "dID r = k" using row_SomeD [OF Some] by simp
  then have i: "dID (deploymentRow ?d) = k" by (simp add: assms(1))
  have "progressOf ?d = progressOf (fn (enrichDeployment okDrv db (scanDeployment r)))" by (simp add: progressOf_def)
  then have "progressOf ?d = g (progressOf r)" by (simp only: assms(2) progressOf_scan)
  then show ?thesis
    by (simp add: updateDeploy_def GetDeployment_def SaveDeployment_def progressIn_def Some deployments.row_upsert
        progressOf_row i [simplified] option.case_eq_if)
qed

lemma onLog_progress [simp]: "progressIn (onLog drv clk d db) i = progressIn db i"
  by (simp add: onLog_def)

lemma step_progress:
  "progressIn (onStepStart okDrv clk d db) i =
     (if i = wsDeploymentID d then map_option (advance (MsgStepStart d)) (progressIn db i) else progressIn db i)"
  "progressIn (onStepComplete okDrv clk d db) i =
     (if i = wsDeploymentID d then map_option (advance (MsgStepComplete d)) (progressIn db i) else progressIn db i)"
  "progressIn (onReboot okDrv clk rb db) i =
     (if i = wrDeploymentID rb then map_option (advance (MsgReboot rb)) (progressIn db i) else progressIn db i)"
  "progressIn (onDeployDone okDrv clk k d db) i =
     (if i = wsDeploymentID d then map_option (advance (MsgDeployDone d)) (progressIn db i) else progressIn db i)"
  "progressIn (onDeployFailed okDrv clk k d db) i =
     (if i = wsDeploymentID d then map_option (advance (MsgDeployFailed d)) (progressIn db i) else progressIn db i)"
  by (simp_all add: onStepStart_def onStepComplete_def onReboot_def onDeployDone_def onDeployFailed_def Let_def
      updateDeploy_progress [where g = "advance (MsgStepStart d)"] updateDeploy_progress [where g = "advance (MsgStepComplete d)"]
      updateDeploy_progress [where g = "advance (MsgReboot rb)"] updateDeploy_progress [where g = "advance (MsgDeployDone d)"]
      updateDeploy_progress [where g = "advance (MsgDeployFailed d)"] progressOf_def)

lemma handle_progress:
  assumes "carries env m"
  shows "progressIn (wDB (handleWSMessage okDrv clk k (Some env) w)) i =
    (if subject m = Some i then map_option (advance m) (progressIn (wDB w) i) else progressIn (wDB w) i)"
  using assms by (cases m) (auto simp: handleWSMessage_def whenParsed_def step_progress Let_def)

text \<open>The messages of one connection, in the order they arrive.\<close>

fun receive :: "driver \<Rightarrow> string \<Rightarrow> (clock \<times> envelope) list \<Rightarrow> world \<Rightarrow> world" where
  "receive drv agentID [] w = w"
| "receive drv agentID ((clk, env) # xs) w = receive drv agentID xs (handleWSMessage drv clk agentID (Some env) w)"

fun advances :: "string \<Rightarrow> agent_msg list \<Rightarrow> progress \<Rightarrow> progress" where
  "advances i [] p = p"
| "advances i (m # ms) p = advances i ms (if subject m = Some i then advance m p else p)"

lemma advances_append: "advances i (ms @ ms') p = advances i ms' (advances i ms p)"
  by (induction ms arbitrary: p) auto

lemma receive_progress:
  "list_all2 (\<lambda>(clk, env) m. carries env m) xs ms \<Longrightarrow>
   progressIn (wDB (receive okDrv k xs w)) i = map_option (advances i ms) (progressIn (wDB w) i)"
proof (induction xs ms arbitrary: w rule: list_all2_induct)
  case Nil
  then show ?case by (simp add: option.map_ident)
next
  case (Cons x xs m ms)
  obtain clk env where x: "x = (clk, env)" by fastforce
  with Cons show ?case
    by (auto simp: handle_progress option.map_comp comp_def intro!: map_option_cong)
qed

lemma receive_inv: "world_inv w \<Longrightarrow> world_inv (receive drv k xs w)"
  by (induction drv k xs w rule: receive.induct) (auto intro: inv_intros)

section \<open>Properties\<close>

text \<open>
  C6. The message handler implements the abstract machine: after the messages of a connection
  have been handled in order, the progress of every deployment is what the machine makes of the
  messages about it, and deployments the messages do not name have not changed.
\<close>

theorem messages_refine_progress:
  assumes "list_all2 (\<lambda>(clk, env) m. carries env m) xs ms"
  shows "progressIn (wDB (receive okDrv k xs w)) i = map_option (advances i ms) (progressIn (wDB w) i)"
  using assms by (rule receive_progress)

definition sampleEnvelope :: "string \<Rightarrow> ws_step_data \<Rightarrow> envelope" where
  "sampleEnvelope t d = \<lparr>evType = t, evData = \<lparr>asLog = None, asStep = Some d, asReboot = None, asChunk = None, asStatus = None\<rparr>\<rparr>"

definition sampleStep :: "int \<Rightarrow> ws_step_data" where
  "sampleStep n = \<lparr>wsDeploymentID = ''d'', wsJobName = ''j'', wsStepName = ''s'', wsStepIndex = n, wsError = []\<rparr>"

theorem messages_refine_progress_witness:
  "map_option pResume (progressIn (wDB (receive okDrv ''a'' [(\<lambda>_. 0, sampleEnvelope WSMsgStepStart (sampleStep 0)),
      (\<lambda>_. 0, sampleEnvelope WSMsgStepComplete (sampleStep 0))] (sampleWorld [sampleDeployment ''d'' 0]))) ''d'') = Some 1"
proof -
  have "progressIn (wDB (sampleWorld [sampleDeployment ''d'' 0])) ''d'' \<noteq> None"
    by (simp add: progressIn_def row_Cons) (simp add: sampleDeployment_def)
  then show ?thesis
    using messages_refine_progress [of "[(\<lambda>_. 0, sampleEnvelope WSMsgStepStart (sampleStep 0)),
      (\<lambda>_. 0, sampleEnvelope WSMsgStepComplete (sampleStep 0))]" "[MsgStepStart (sampleStep 0), MsgStepComplete (sampleStep 0)]"
      "''a''" "sampleWorld [sampleDeployment ''d'' 0]" "''d''"]
    by (auto simp: sampleEnvelope_def sampleStep_def)
qed

end
