(* ===== verification/Api.thy ===== *)
theory Api
  imports Ws_Handler
begin

text \<open>
  The administrative HTTP handlers: \<^verbatim>\<open>handlers/admin.go\<close>, \<^verbatim>\<open>handlers/command.go\<close>
  and \<^verbatim>\<open>handlers/secrets.go\<close>. Each takes the request and its decoded body, the value or the
  decoder's error, and returns the response and the next state of the server. YAML is a
  third-party library: its decoder and its encoder are parameters.
\<close>

section \<open>Paths\<close>

text \<open>The first element of the path behind a prefix, and the rest.\<close>

definition pathParts :: "string \<Rightarrow> string \<Rightarrow> string list" where
  "pathParts path pre = SplitN2 (TrimPrefix (TrimPrefix path pre) ''/'') (CHR ''/'')"

definition pathID :: "string \<Rightarrow> string \<Rightarrow> string" where
  "pathID path pre = hd (pathParts path pre)"

definition pathSub :: "string \<Rightarrow> string \<Rightarrow> string" where
  "pathSub path pre = (case pathParts path pre of [x, y] \<Rightarrow> y | _ \<Rightarrow> [])"

section \<open>Writing to the store\<close>

text \<open>
  \<^verbatim>\<open>if err := store.Op(...); err != nil { writeError ... } ; writeJSON ...\<close>: run a store
  operation and answer with its error or the success.
\<close>

definition commit :: "(db \<Rightarrow> err \<times> db) \<Rightarrow> (string \<Rightarrow> 'b response) \<Rightarrow> 'b response \<Rightarrow> world \<Rightarrow> 'b response \<times> world" where
  "commit f failed ok w = (case f (wDB w) of
      (Some err, db') \<Rightarrow> (failed err, withDB w db')
    | (None, db') \<Rightarrow> (ok, withDB w db'))"

lemma commit_inv:
  assumes "world_inv w" "\<And>db. db_inv db \<Longrightarrow> db_inv (snd (f db))"
  shows "world_inv (snd (commit f failed ok w))"
  using assms(1) assms(2) [of "wDB w"] by (auto simp: commit_def world_inv_def split: prod.splits option.splits)

section \<open>Playbooks\<close>

record playbook_payload =
  ppName :: string
  ppDescription :: string
  ppPlaybook :: "playbook option"
  ppPlaybookYAML :: string

text \<open>The bytes of the body or the read error, what JSON makes of them, and the YAML decoder.\<close>

definition decodePlaybookWritePayload ::
  "(string \<Rightarrow> string + playbook) \<Rightarrow> err \<Rightarrow> string + playbook_payload \<Rightarrow> string + gotime playbook_record" where
  "decodePlaybookWritePayload yaml readErr body =
     (case readErr of Some e \<Rightarrow> Inl (''failed to read request body: '' @ e)
      | None \<Rightarrow>
     (case body of Inl e \<Rightarrow> Inl (''invalid JSON: '' @ e)
      | Inr inp \<Rightarrow>
     (let finish = (\<lambda>pb. Inr \<lparr>prID = [],
              prName = (if ppName inp = [] then (case pb of None \<Rightarrow> [] | Some p \<Rightarrow> pbName p) else ppName inp),
              prDescription = ppDescription inp, prPlaybook = pb,
              prCreatedAt = zero_time, prUpdatedAt = zero_time\<rparr>)
      in if TrimSpace (ppPlaybookYAML inp) \<noteq> [] then
           (case yaml (ppPlaybookYAML inp) of
              Inl e \<Rightarrow> Inl (''invalid YAML in playbook_yaml: '' @ e)
            | Inr playbook \<Rightarrow> finish (Some playbook))
         else finish (ppPlaybook inp))))"

datatype playbook_body =
    PlaybookList "gotime playbook_record list"
  | PlaybookDetail "gotime playbook_record" string
  | PlaybookSaved "gotime playbook_record"
  | PlaybookStatus string

text \<open>\<^verbatim>\<open>errors.Is\<close> on the two sentinel errors, by the texts the service wraps them in.\<close>

definition notFoundErr :: "string \<Rightarrow> bool" where
  "notFoundErr e \<longleftrightarrow> e = ''assign playbook to agent: '' @ ErrAgentNotFound \<or>
     e = ''assign playbook to agent: '' @ ErrPlaybookNotFound"

definition assignPlaybook ::
  "driver \<Rightarrow> clock \<Rightarrow> 8 word list \<Rightarrow> handler \<Rightarrow> string + string \<Rightarrow> string \<Rightarrow> world \<Rightarrow> playbook_body response \<times> world" where
  "assignPlaybook drv clk rnd e body playbookID w =
     (case body of
        Inl err \<Rightarrow> (writeError 400 (''invalid JSON: '' @ err), w)
      | Inr agentID \<Rightarrow>
         (case AssignPlaybookToAgent drv clk rnd (eServerURL e) playbookID agentID w of
            (Some err, w') \<Rightarrow> (if notFoundErr err then writeError 404 err else writeError 500 err, w')
          | (None, w') \<Rightarrow> (writeJSON 200 (PlaybookStatus ''assigned''), w')))"

text \<open>The checks both writes make of a decoded payload.\<close>

definition checkPayload :: "string + gotime playbook_record \<Rightarrow> string + gotime playbook_record" where
  "checkPayload p = (case p of Inl e \<Rightarrow> Inl e
     | Inr rec \<Rightarrow> (case prPlaybook rec of
         None \<Rightarrow> Inl ''playbook or playbook_yaml field is required''
       | Some pb \<Rightarrow> if pbJobs pb = [] then Inl ''playbook must contain at least one job'' else Inr rec))"

definition HandleRootPlaybooks ::
  "driver \<Rightarrow> clock \<Rightarrow> 8 word list \<Rightarrow> (playbook \<Rightarrow> string + string) \<Rightarrow> handler \<Rightarrow> request \<Rightarrow>
   string + gotime playbook_record \<Rightarrow> string + string \<Rightarrow> world \<Rightarrow> playbook_body response \<times> world" where
  "HandleRootPlaybooks drv clk rnd toYAML e r payload assignBody w =
     (let id' = pathID (rPath r) ''/api/v1/playbooks''; sub = pathSub (rPath r) ''/api/v1/playbooks''; db = wDB w in
      if rMethod r = ''GET'' then
        (if id' = [] then (writeJSON 200 (PlaybookList (ListPlaybooks drv db)), w)
         else case GetPlaybook drv db id' of
             None \<Rightarrow> (writeError 404 ''playbook not found'', w)
           | Some pb \<Rightarrow> (case toYAML (the (prPlaybook pb)) of
               Inl err \<Rightarrow> (writeError 500 ''failed to render playbook YAML'', w)
             | Inr y \<Rightarrow> (writeJSON 200 (PlaybookDetail pb y), w)))
      else if rMethod r = ''POST'' then
        (if id' \<noteq> [] \<and> sub = ''assign'' then assignPlaybook drv clk rnd e assignBody id' w
         else (case checkPayload payload of
             Inl err \<Rightarrow> (writeError 400 err, w)
           | Inr rec \<Rightarrow>
               (let rec' = rec\<lparr>prID := NewID (clk 0) rnd, prCreatedAt := clk 1, prUpdatedAt := clk 2\<rparr> in
                commit (SavePlaybook drv rec') (\<lambda>err. writeError 500 ''failed to save playbook'') (writeJSON 201 (PlaybookSaved rec')) w)))
      else if rMethod r = ''PUT'' then
        (if id' = [] then (writeError 400 ''playbook ID required in path'', w)
         else case GetPlaybook drv db id' of
             None \<Rightarrow> (writeError 404 ''playbook not found'', w)
           | Some existing \<Rightarrow> (case checkPayload payload of
               Inl err \<Rightarrow> (writeError 400 err, w)
             | Inr rec \<Rightarrow>
                 (let rec' = rec\<lparr>prID := prID existing, prCreatedAt := prCreatedAt existing, prUpdatedAt := clk 0\<rparr> in
                  commit (SavePlaybook drv rec') (\<lambda>err. writeError 500 ''failed to update playbook'') (writeJSON 200 (PlaybookSaved rec')) w)))
      else if rMethod r = ''DELETE'' then
        (if id' = [] then (writeError 400 ''playbook ID required in path'', w)
         else commit (DeletePlaybook drv id') (\<lambda>err. writeError 500 ''failed to delete playbook'') (writeJSON 200 (PlaybookStatus ''deleted'')) w)
      else (writeError 405 ''method not allowed'', w))"

section \<open>Commands\<close>

datatype agent_body =
    AgentList "gotime agent list"
  | AgentDetail "gotime agent"
  | AgentStatusBody string
  | CommandAccepted string
  | CommandState string "string list \<times> bool \<times> int \<times> string"

text \<open>The body of a command request: the command and the shell.\<close>

definition HandleCommand ::
  "driver \<Rightarrow> clock \<Rightarrow> 8 word list \<Rightarrow> request \<Rightarrow> string + string \<times> string \<Rightarrow> string \<Rightarrow> string \<Rightarrow> world \<Rightarrow>
   agent_body response \<times> world" where
  "HandleCommand drv clk rnd r body agentID subPath w =
     (let cmdID = TrimPrefix subPath ''/'' in
      if rMethod r = ''POST'' then
        (if cmdID \<noteq> [] then (writeError 405 ''method not allowed'', w)
         else case body of
           Inl err \<Rightarrow> (writeError 400 (''invalid JSON: '' @ err), w)
         | Inr (command0, shell) \<Rightarrow>
            (let command = TrimSpace command0 in
             if command = [] then (writeError 400 ''command is required'', w)
             else case GetAgent drv (wDB w) agentID of
               None \<Rightarrow> (writeError 404 ''agent not found'', w)
             | Some agent \<Rightarrow>
                if aShells agent \<noteq> [] \<and> shell \<noteq> [] \<and> shell \<notin> set (aShells agent)
                  then (writeError 400 (''shell '' @ shell @ '' is not available on this agent''), w)
                else if \<not> IsConnected (wHub w) agentID then (writeError 409 ''agent is not connected'', w)
                else
                  (let newCmdID = NewID (clk 0) rnd;
                       cmds = Create newCmdID agentID command (wCmds w);
                       (sent, hub') = Send agentID (MsgCommand (clk 1)
                          \<lparr>wcCmdID = newCmdID, wcCommand = command, wcShell = shell\<rparr>) (wHub w);
                       w' = w\<lparr>wCmds := cmds, wHub := hub'\<rparr>
                   in if \<not> sent then (writeError 409 ''failed to deliver command to agent'', w')
                      else (writeJSON 202 (CommandAccepted newCmdID), w'))))
      else if rMethod r = ''GET'' then
        (if cmdID = [] then (writeError 400 ''cmd_id required in path'', w)
         else case Get (wCmds w) cmdID of
           None \<Rightarrow> (writeError 404 ''command not found'', w)
         | Some sess \<Rightarrow>
            if csAgentID sess \<noteq> agentID then (writeError 404 ''command not found'', w)
            else (writeJSON 200 (CommandState cmdID (Snapshot sess)), w))
      else (writeError 405 ''method not allowed'', w))"

section \<open>Agents\<close>

text \<open>The patch of an agent: a playbook id and a status, empty for no change.\<close>

definition HandleRootAgents ::
  "driver \<Rightarrow> clock \<Rightarrow> 8 word list \<Rightarrow> request \<Rightarrow> string + string \<times> string \<Rightarrow> string + string \<times> string \<Rightarrow> world \<Rightarrow>
   agent_body response \<times> world" where
  "HandleRootAgents drv clk rnd r patchBody cmdBody w =
     (let id' = pathID (rPath r) ''/api/v1/agents''; sub = pathSub (rPath r) ''/api/v1/agents''; db = wDB w in
      if HasPrefix sub ''command'' then HandleCommand drv clk rnd r cmdBody id' (TrimPrefix sub ''command'') w
      else if rMethod r = ''GET'' then
        (if id' = [] then (writeJSON 200 (AgentList (ListAgents drv db)), w)
         else case GetAgent drv db id' of
             None \<Rightarrow> (writeError 404 ''agent not found'', w)
           | Some a \<Rightarrow> (writeJSON 200 (AgentDetail a), w))
      else if rMethod r = ''PUT'' then
        (if id' = [] then (writeError 400 ''agent ID required in path'', w)
         else case GetAgent drv db id' of
             None \<Rightarrow> (writeError 404 ''agent not found'', w)
           | Some existing \<Rightarrow> (case patchBody of
               Inl err \<Rightarrow> (writeError 400 (''invalid JSON: '' @ err), w)
             | Inr (playbookID, status) \<Rightarrow>
                 (let a = existing\<lparr>aPlaybookID := (if playbookID \<noteq> [] then playbookID else aPlaybookID existing),
                                   aStatus := (if status \<noteq> [] then status else aStatus existing)\<rparr> in
                  commit (SaveAgent drv a) (\<lambda>err. writeError 500 ''failed to update agent'') (writeJSON 200 (AgentDetail a)) w)))
      else if rMethod r = ''DELETE'' then
        (if id' = [] then (writeError 400 ''agent ID required in path'', w)
         else commit (DeleteAgent drv id') (\<lambda>err. writeError 500 ''failed to delete agent'') (writeJSON 200 (AgentStatusBody ''deleted'')) w)
      else (writeError 405 ''method not allowed'', w))"

section \<open>Deployments and status\<close>

datatype deployment_body =
    DeploymentList "deployment_state list"
  | DeploymentLogs "gotime log_entry list"
  | DeploymentDetail deployment_state
  | DeploymentStatusBody string

definition HandleRootDeployments :: "driver \<Rightarrow> request \<Rightarrow> world \<Rightarrow> deployment_body response \<times> world" where
  "HandleRootDeployments drv r w =
     (let id' = pathID (rPath r) ''/api/v1/deployments''; parts = pathParts (rPath r) ''/api/v1/deployments''; db = wDB w in
      if rMethod r = ''GET'' then
        (if id' = [] then (writeJSON 200 (DeploymentList (ListDeployments drv db)), w)
         else if length parts = 2 \<and> parts ! 1 = ''logs''
           then (writeJSON 200 (DeploymentLogs (GetLogsForDeployment drv db id')), w)
         else case GetDeployment drv db id' of
             None \<Rightarrow> (writeError 404 ''deployment not found'', w)
           | Some dep \<Rightarrow> (writeJSON 200 (DeploymentDetail dep), w))
      else if rMethod r = ''DELETE'' then
        (if id' = [] then (writeError 400 ''deployment ID required in path'', w)
         else commit (DeleteDeployment drv id') (\<lambda>err. writeError 500 (''failed to delete deployment: '' @ err)) (writeJSON 200 (DeploymentStatusBody ''deleted'')) w)
      else (writeError 405 ''method not allowed'', w))"

definition HandleStatus ::
  "driver \<Rightarrow> request \<Rightarrow> world \<Rightarrow> (gotime agent list \<times> deployment_state list) response \<times> world" where
  "HandleStatus drv r w =
     (if rMethod r \<noteq> ''GET'' then (writeError 405 ''method not allowed'', w)
      else (writeJSON 200 (StatusSnapshot drv (wDB w)), w))"

section \<open>Secrets\<close>

datatype secret_body = SecretNames "string list" | SecretValue string string | SecretStatus string

definition secretName :: "request \<Rightarrow> string" where
  "secretName r = TrimPrefix (TrimPrefix (rPath r) ''/api/v1/secrets'') ''/''"

definition HandleSecrets :: "driver \<Rightarrow> request \<Rightarrow> string + string \<Rightarrow> world \<Rightarrow> secret_body response \<times> world" where
  "HandleSecrets drv r body w =
     (let name = secretName r; db = wDB w in
      if rMethod r = ''GET'' then
        (if name = [] then (writeJSON 200 (SecretNames (ListSecretNames drv db)), w)
         else case GetSecret drv db name of
             None \<Rightarrow> (writeError 404 ''secret not found'', w)
           | Some val \<Rightarrow> (writeJSON 200 (SecretValue name val), w))
      else if rMethod r = ''PUT'' then
        (if name = [] then (writeError 400 ''secret name required in path'', w)
         else case body of
             Inl err \<Rightarrow> (writeError 400 (''invalid JSON: '' @ err), w)
           | Inr val \<Rightarrow> (commit (SetSecret drv name val) (\<lambda>err. writeError 500 ''failed to store secret'') (writeJSON 200 (SecretStatus ''ok'')) w))
      else if rMethod r = ''DELETE'' then
        (if name = [] then (writeError 400 ''secret name required in path'', w)
         else commit (DeleteSecret drv name) (\<lambda>err. writeError 500 ''failed to delete secret'') (writeJSON 200 (SecretStatus ''deleted'')) w)
      else (writeError 405 ''method not allowed'', w))"

section \<open>Invariants\<close>

lemma assignPlaybook_inv [inv_intros]:
  assumes "world_inv w"
  shows "world_inv (snd (assignPlaybook drv clk rnd e body p w))"
proof (cases body)
  case (Inr k)
  obtain er w' where "AssignPlaybookToAgent drv clk rnd (eServerURL e) p k w = (er, w')" by fastforce
  with AssignPlaybookToAgent_inv [OF assms, of drv clk rnd "eServerURL e" p k] Inr show ?thesis
    by (simp add: assignPlaybook_def split: option.split)
qed (simp add: assignPlaybook_def assms)

lemma HandleRootPlaybooks_inv [inv_intros]:
  "world_inv w \<Longrightarrow> world_inv (snd (HandleRootPlaybooks drv clk rnd y e r payload ab w))"
  by (simp add: HandleRootPlaybooks_def Let_def assignPlaybook_inv commit_inv SavePlaybook_inv DeletePlaybook_inv
      split: option.split sum.split)

lemma HandleCommand_inv [inv_intros]:
  "world_inv w \<Longrightarrow> world_inv (snd (HandleCommand drv clk rnd r body k sub w))"
  using Send_inv [of "wHub w"]
  by (simp add: HandleCommand_def Let_def world_inv_def case_prod_beta split: option.split sum.split)

lemma HandleRootAgents_inv [inv_intros]:
  "world_inv w \<Longrightarrow> world_inv (snd (HandleRootAgents drv clk rnd r pbody cbody w))"
  by (simp add: HandleRootAgents_def Let_def HandleCommand_inv commit_inv SaveAgent_inv DeleteAgent_inv
      split: option.split sum.split prod.split)

lemma HandleRootDeployments_inv [inv_intros]:
  "world_inv w \<Longrightarrow> world_inv (snd (HandleRootDeployments drv r w))"
  by (simp add: HandleRootDeployments_def Let_def commit_inv DeleteDeployment_inv split: option.split)

lemma HandleSecrets_inv [inv_intros]: "world_inv w \<Longrightarrow> world_inv (snd (HandleSecrets drv r body w))"
  by (simp add: HandleSecrets_def Let_def commit_inv SetSecret_inv DeleteSecret_inv split: option.split sum.split)

end
