(* ===== verification/Go_Paths.thy ===== *)
theory Go_Paths
  imports Go_Strings
begin

text \<open>
  The part of Go's \<^verbatim>\<open>path/filepath\<close> the program uses, on Unix: \<^verbatim>\<open>Clean\<close>,
  \<^verbatim>\<open>Join\<close> and \<^verbatim>\<open>Dir\<close>, and what they guarantee of a path built from a trusted
  directory and a name that comes from outside.
\<close>

section \<open>Cleaning a path\<close>

text \<open>
  One element of the path on top of the elements kept so far, the last one first: an empty
  element and a dot are dropped, a double dot removes the element before it, is dropped at the
  root and kept at the start of a relative path.
\<close>

definition cleanStep :: "bool \<Rightarrow> string list \<Rightarrow> string \<Rightarrow> string list" where
  "cleanStep rooted out p =
     (if p = [] \<or> p = ''.'' then out
      else if p = ''..'' then
        (if out \<noteq> [] \<and> hd out \<noteq> ''..'' then tl out
         else if rooted then out
         else p # out)
      else p # out)"

definition rootedPath :: "string \<Rightarrow> bool" where
  "rootedPath path \<longleftrightarrow> path \<noteq> [] \<and> hd path = CHR ''/''"

text \<open>The elements of the cleaned path.\<close>

definition cleanParts :: "string \<Rightarrow> string list" where
  "cleanParts path = rev (foldl (cleanStep (rootedPath path)) [] (Split path (CHR ''/'')))"

definition Clean :: "string \<Rightarrow> string" where
  "Clean path = (if path = [] then ''.'' else
     let body = Join (cleanParts path) ''/''
     in if rootedPath path then CHR ''/'' # body else if body = [] then ''.'' else body)"

text \<open>\<^verbatim>\<open>filepath.Join\<close>: leading empty elements are skipped.\<close>

definition joinPaths :: "string list \<Rightarrow> string" where
  "joinPaths elems = (case dropWhile (\<lambda>e. e = []) elems of [] \<Rightarrow> [] | es \<Rightarrow> Clean (Join es ''/''))"

abbreviation joinPath :: "string \<Rightarrow> string \<Rightarrow> string" where
  "joinPath a b \<equiv> joinPaths [a, b]"

text \<open>\<^verbatim>\<open>filepath.Dir\<close>: all but the last element, cleaned.\<close>

definition Dir :: "string \<Rightarrow> string" where
  "Dir path = Clean (rev (dropWhile (\<lambda>c. c \<noteq> CHR ''/'') (rev path)))"

section \<open>Splitting and joining\<close>

lemma Split_sep: "Split (a @ c # b) c = Split a c @ Split b c"
proof (induction a)
  case (Cons x a)
  then show ?case by (cases "Split a c") auto
qed simp

lemma Split_plain: "c \<notin> set s \<Longrightarrow> Split s c = [s]"
  by (induction s) auto

lemma Split_Join:
  "ps \<noteq> [] \<Longrightarrow> list_all (\<lambda>p. c \<notin> set p) ps \<Longrightarrow> Split (Join ps [c]) c = ps"
proof (induction ps)
  case (Cons p ps)
  then show ?case by (cases "ps = []") (simp_all add: Join_Cons Split_sep Split_plain)
qed simp

section \<open>Clean paths\<close>

text \<open>The stacks \<open>cleanStep\<close> builds: double dots only at the bottom, and none under a root.\<close>

fun cleanStack :: "bool \<Rightarrow> string list \<Rightarrow> bool" where
  "cleanStack rooted [] \<longleftrightarrow> True"
| "cleanStack rooted (p # out) \<longleftrightarrow> cleanStack rooted out \<and> p \<noteq> [] \<and> p \<noteq> ''.'' \<and> CHR ''/'' \<notin> set p \<and>
     (p = ''..'' \<longrightarrow> \<not> rooted \<and> (out = [] \<or> hd out = ''..''))"

lemma cleanStep_stack:
  "cleanStack rooted out \<Longrightarrow> CHR ''/'' \<notin> set p \<Longrightarrow> cleanStack rooted (cleanStep rooted out p)"
  by (cases out) (auto simp: cleanStep_def)

lemma foldl_cleanStack:
  "list_all (\<lambda>p. CHR ''/'' \<notin> set p) ps \<Longrightarrow> cleanStack rooted out \<Longrightarrow>
   cleanStack rooted (foldl (cleanStep rooted) out ps)"
  by (induction ps arbitrary: out) (auto intro: cleanStep_stack)

lemma foldl_clean_rev: "cleanStack rooted out \<Longrightarrow> foldl (cleanStep rooted) [] (rev out) = out"
  by (induction out) (auto simp: cleanStep_def)

lemma Split_parts: "list_all (\<lambda>p. c \<notin> set p) (Split s c)"
  by (auto simp: list_all_iff dest: Split_no_sep)

lemma cleanParts_stack: "cleanStack (rootedPath path) (rev (cleanParts path))"
  by (simp add: cleanParts_def foldl_cleanStack Split_parts)

lemma cleanStack_parts: "cleanStack rooted out \<Longrightarrow> list_all (\<lambda>p. p \<noteq> [] \<and> CHR ''/'' \<notin> set p) out"
  by (induction out) auto

lemma cleanParts_plain: "list_all (\<lambda>p. p \<noteq> [] \<and> CHR ''/'' \<notin> set p) (cleanParts path)"
  using cleanStack_parts [OF cleanParts_stack [of path]] by (simp add: list_all_iff)

lemma Join_parts:
  assumes "list_all (\<lambda>p. p \<noteq> [] \<and> CHR ''/'' \<notin> set p) ps" "ps \<noteq> []"
  shows "Split (Join ps ''/'') (CHR ''/'') = ps" "Join ps ''/'' \<noteq> []" "hd (Join ps ''/'') \<noteq> CHR ''/''"
proof -
  show "Split (Join ps ''/'') (CHR ''/'') = ps"
    using assms by (intro Split_Join) (auto simp: list_all_iff)
  show "Join ps ''/'' \<noteq> []" "hd (Join ps ''/'') \<noteq> CHR ''/''"
    using assms by (cases ps; cases "tl ps = []"; cases "hd ps"; auto simp: Join_Cons)+
qed

lemma rooted_Clean: "path \<noteq> [] \<Longrightarrow> rootedPath (Clean path) = rootedPath path"
  using Join_parts [OF cleanParts_plain [of path]]
  by (cases "cleanParts path = []") (auto simp: Clean_def Let_def rootedPath_def)

text \<open>Cleaning the elements of a cleaned path again gives the same elements.\<close>

lemma foldl_Clean:
  assumes "path \<noteq> []"
  shows "foldl (cleanStep (rootedPath path)) [] (Split (Clean path) (CHR ''/'')) = rev (cleanParts path)"
proof (cases "cleanParts path = []")
  case True
  with assms show ?thesis by (simp add: Clean_def cleanStep_def)
next
  case False
  note split = Join_parts(1) [OF cleanParts_plain False]
  have "Split (Clean path) (CHR ''/'') = (if rootedPath path then [[]] else []) @ cleanParts path"
    using assms split Join_parts(2) [OF cleanParts_plain False] Split_sep [of "[]"] by (simp add: Clean_def)
  moreover have "cleanStep r [] [] = []" for r by (simp add: cleanStep_def)
  ultimately show ?thesis
    using foldl_clean_rev [OF cleanParts_stack [of path]] by (cases "rootedPath path") simp_all
qed

lemma rooted_append: "path \<noteq> [] \<Longrightarrow> rootedPath (path @ rest) = rootedPath path"
  by (simp add: rootedPath_def)

lemma Clean_nonempty [simp]: "Clean path \<noteq> []"
  by (simp add: Clean_def Let_def)

lemma Clean_Clean_append:
  assumes "path \<noteq> []"
  shows "Clean (Clean path @ CHR ''/'' # rest) = Clean (path @ CHR ''/'' # rest)"
proof -
  have "cleanParts (Clean path @ CHR ''/'' # rest) = cleanParts (path @ CHR ''/'' # rest)"
    using assms foldl_Clean [OF assms]
    by (simp add: cleanParts_def rooted_append rooted_Clean Split_sep)
  moreover have "rootedPath (Clean path @ CHR ''/'' # rest) = rootedPath (path @ CHR ''/'' # rest)"
    using assms by (simp add: rooted_append rooted_Clean)
  ultimately show ?thesis
    unfolding Clean_def [of "Clean path @ CHR ''/'' # rest"] Clean_def [of "path @ CHR ''/'' # rest"] by simp
qed

text \<open>Joining in two steps is joining at once.\<close>

lemma joinPath_joinPath: "dir \<noteq> [] \<Longrightarrow> joinPath (joinPath dir a) b = joinPaths [dir, a, b]"
  using Clean_Clean_append [of "dir @ CHR ''/'' # a" b] by (simp add: joinPaths_def)

section \<open>Staying below a directory\<close>

text \<open>Elements without a double dot only add to the path.\<close>

lemma foldl_cleanStep_plain:
  "''..'' \<notin> set ps \<Longrightarrow>
   foldl (cleanStep rooted) out ps = rev (filter (\<lambda>p. p \<noteq> [] \<and> p \<noteq> ''.'') ps) @ out"
  by (induction ps arbitrary: out) (auto simp: cleanStep_def)

lemma cleanParts_below:
  assumes "dir \<noteq> []" "''..'' \<notin> set (Split rest (CHR ''/''))"
  shows "cleanParts (dir @ CHR ''/'' # rest) =
    cleanParts dir @ filter (\<lambda>p. p \<noteq> [] \<and> p \<noteq> ''.'') (Split rest (CHR ''/''))"
  using assms by (simp add: cleanParts_def rooted_append Split_sep foldl_cleanStep_plain)

end
