(* ===== verification/Artifacts.thy ===== *)
theory Artifacts
  imports Api Go_Paths
begin

text \<open>
  The artifact endpoint: \<^verbatim>\<open>handlers/artifacts.go\<close>. The directory tree the files live in
  is a map from cleaned paths to contents; what the operating system does with each call is a
  parameter, the record \<open>fs\<close>. The query of the request, its content type and its body, the
  bytes read and the error that ended the reading if any, are the record \<open>artifact_input\<close>.
  A download is \<^verbatim>\<open>http.ServeContent\<close> for a request without range and precondition
  headers: the whole file with status 200.
\<close>

section \<open>Files\<close>

type_synonym disk = "string \<rightharpoonup> string"

text \<open>
  \<open>fsCopy\<close> is \<^verbatim>\<open>io.Copy\<close> into a created file: the number of bytes written and the error.
  \<open>fsKept\<close> holds for a file that \<^verbatim>\<open>os.RemoveAll\<close> fails to remove.
\<close>

record fs =
  fsOpen :: "string \<Rightarrow> err"
  fsMkdirAll :: "string \<Rightarrow> err"
  fsCreate :: "string \<Rightarrow> err"
  fsCopy :: "string \<Rightarrow> string \<Rightarrow> nat \<times> err"
  fsClose :: "string \<Rightarrow> err"
  fsKept :: "string \<Rightarrow> bool"

definition okFs :: fs where
  "okFs = \<lparr>fsOpen = (\<lambda>p. None), fsMkdirAll = (\<lambda>p. None), fsCreate = (\<lambda>p. None),
     fsCopy = (\<lambda>p b. (length b, None)), fsClose = (\<lambda>p. None), fsKept = (\<lambda>p. False)\<rparr>"

definition openFile :: "fs \<Rightarrow> string \<Rightarrow> disk \<Rightarrow> string option" where
  "openFile f p d = (if fsOpen f p \<noteq> None then None else d p)"

definition removeAll :: "fs \<Rightarrow> string \<Rightarrow> disk \<Rightarrow> disk" where
  "removeAll f dir d = (\<lambda>p. if (p = dir \<or> HasPrefix p (dir @ ''/'')) \<and> \<not> fsKept f p then None else d p)"

record artifact_input =
  aiQuery :: smap
  aiContentType :: string
  aiBody :: string
  aiReadErr :: err

datatype artifact_body =
    ArtifactList "gotime artifact list"
  | ArtifactMeta "gotime artifact"
  | ArtifactFile string string string
  | ArtifactSaved "gotime artifact"
  | ArtifactStatus string

section \<open>Access\<close>

text \<open>Root or any agent with a live token; the two checks read the clock one after the other.\<close>

definition knownClient :: "digest \<Rightarrow> jwt_lib \<Rightarrow> driver \<Rightarrow> clock \<Rightarrow> handler \<Rightarrow> request \<Rightarrow> db \<Rightarrow> bool" where
  "knownClient sha jwt drv clk e r db \<longleftrightarrow> isRootRequest jwt (clk 0) e r \<or>
     (case agentIDFromToken sha drv (clk 1) r db of Inl err \<Rightarrow> False | Inr agentID \<Rightarrow> True)"

text \<open>The access policy of a download: \<open>None\<close> for access, or the answer that refuses it.\<close>

definition denyAccess ::
  "digest \<Rightarrow> jwt_lib \<Rightarrow> driver \<Rightarrow> clock \<Rightarrow> handler \<Rightarrow> request \<Rightarrow> db \<Rightarrow> gotime artifact \<Rightarrow> (int \<times> string) option" where
  "denyAccess sha jwt drv clk e r db a =
     (if arAccessPolicy a \<noteq> AccessPublic then
        (if \<not> isRootRequest jwt (clk 0) e r then
          (case agentIDFromToken sha drv (clk 1) r db of
             Inl err \<Rightarrow> Some (401, ''authenticated access required'')
           | Inr agentID \<Rightarrow>
               if arAccessPolicy a = AccessRestricted \<and> agentID \<notin> set (arAllowedAgents a)
               then Some (403, ''access to this artifact is restricted'') else None)
         else None)
      else None)"

definition octetStream :: string where "octetStream = ''application/octet-stream''"

definition artifactPath :: "handler \<Rightarrow> gotime artifact \<Rightarrow> string" where
  "artifactPath e a = joinPaths [eArtifactsDir e, arID a, arFileName a]"

section \<open>The methods\<close>

definition findArtifact :: "driver \<Rightarrow> db \<Rightarrow> string \<Rightarrow> gotime artifact option" where
  "findArtifact drv db k = (case GetArtifact drv db k of
      Some a \<Rightarrow> Some a | None \<Rightarrow> GetArtifactByName drv db k)"

definition getArtifact ::
  "digest \<Rightarrow> jwt_lib \<Rightarrow> driver \<Rightarrow> fs \<Rightarrow> clock \<Rightarrow> handler \<Rightarrow> request \<Rightarrow> string \<Rightarrow> string \<Rightarrow> disk \<Rightarrow> db \<Rightarrow> artifact_body response" where
  "getArtifact sha jwt drv f clk e r k sub d db =
     (if k = [] then
        (if \<not> knownClient sha jwt drv clk e r db
         then writeError 401 ''authentication required to list artifacts''
         else writeJSON 200 (ArtifactList (ListArtifacts drv db)))
      else if sub = ''meta'' then
        (case GetArtifact drv db k of
           None \<Rightarrow> writeError 404 ''artifact not found''
         | Some a \<Rightarrow> writeJSON 200 (ArtifactMeta a))
      else (case findArtifact drv db k of
         None \<Rightarrow> writeError 404 ''artifact not found''
       | Some a \<Rightarrow>
          (case denyAccess sha jwt drv clk e r db a of
             Some (code, msg) \<Rightarrow> writeError code msg
           | None \<Rightarrow>
              (case openFile f (artifactPath e a) d of
                 None \<Rightarrow> writeError 500 ''artifact file missing on server''
               | Some content \<Rightarrow>
                   writeJSON 200 (ArtifactFile (if arContentType a = [] then octetStream else arContentType a)
                     (arFileName a) content)))))"

text \<open>The metadata of an upload.\<close>

definition newArtifact :: "string \<Rightarrow> string \<Rightarrow> string \<Rightarrow> int \<Rightarrow> gotime \<Rightarrow> artifact_input \<Rightarrow> gotime artifact" where
  "newArtifact artID name filename written now q =
     (let policy = smap_get (aiQuery q) ''access_policy'';
          allowed = Split (smap_get (aiQuery q) ''allowed_agents'') (CHR '','')
      in \<lparr>arID = artID, arName = name, arFileName = filename, arSize = written,
          arContentType = (if aiContentType q = [] then octetStream else aiContentType q),
          arAccessPolicy = (if policy = [] then AccessAuthenticated else policy),
          arAllowedAgents = (if allowed = [[]] then [] else allowed), arUploadedAt = now\<rparr>)"

definition uploadArtifact ::
  "digest \<Rightarrow> jwt_lib \<Rightarrow> driver \<Rightarrow> fs \<Rightarrow> clock \<Rightarrow> 8 word list \<Rightarrow> handler \<Rightarrow> request \<Rightarrow> artifact_input \<Rightarrow> disk \<Rightarrow> world \<Rightarrow>
   artifact_body response \<times> disk \<times> world" where
  "uploadArtifact sha jwt drv f clk rnd e r q d w =
     (if \<not> knownClient sha jwt drv clk e r (wDB w)
      then (writeError 401 ''authentication required to upload artifacts'', d, w)
      else
       (let name0 = smap_get (aiQuery q) ''name''; filename0 = smap_get (aiQuery q) ''filename'';
            filename = (if filename0 = [] then name0 else filename0);
            name = (if name0 = [] then filename else name0)
        in if filename = [] then (writeError 400 '''filename' query parameter is required'', d, w)
        else
         (let artID = NewID (clk 2) rnd;
              artDir = joinPath (eArtifactsDir e) artID
          in if fsMkdirAll f artDir \<noteq> None
             then (writeError 500 ''failed to create artifact directory'', d, w)
          else
           (let destPath = joinPath artDir filename
            in if fsCreate f destPath \<noteq> None
               then (writeError 500 ''failed to create artifact file'', d, w)
            else
             (let (written, writeErr) = fsCopy f destPath (aiBody q);
                  d' = d(destPath \<mapsto> take written (aiBody q));
                  art = newArtifact artID name filename (int written) (clk 3) q
              in if writeErr \<noteq> None \<or> aiReadErr q \<noteq> None \<or> fsClose f destPath \<noteq> None
                 then (writeError 500 ''failed to write artifact'', d', w)
                 else (case SaveArtifact drv art (wDB w) of
                     (Some err, db') \<Rightarrow> (writeError 500 ''failed to save artifact metadata'', d', withDB w db')
                   | (None, db') \<Rightarrow> (writeJSON 201 (ArtifactSaved art), d', withDB w db')))))))"

text \<open>The allowed agents of a patch: trimmed, without the empty ones.\<close>

definition patchedAgents :: "smap \<Rightarrow> string list \<Rightarrow> string list" where
  "patchedAgents qs old =
     (let allowedClients = smap_get qs ''allowed_agents'' in
      if allowedClients \<noteq> [] then filter (\<lambda>c. c \<noteq> []) (map TrimSpace (Split allowedClients (CHR '','')))
      else if ''allowed_agents'' \<in> fst ` set qs then []
      else old)"

definition patchArtifact ::
  "digest \<Rightarrow> jwt_lib \<Rightarrow> driver \<Rightarrow> clock \<Rightarrow> handler \<Rightarrow> request \<Rightarrow> artifact_input \<Rightarrow> string \<Rightarrow> world \<Rightarrow> artifact_body response \<times> world" where
  "patchArtifact sha jwt drv clk e r q k w =
     (if \<not> knownClient sha jwt drv clk e r (wDB w)
      then (writeError 401 ''authentication required to modify artifacts'', w)
      else if k = [] then (writeError 400 ''artifact ID required in path'', w)
      else (case GetArtifact drv (wDB w) k of
          None \<Rightarrow> (writeError 404 ''artifact not found'', w)
        | Some a \<Rightarrow>
           (let policy = smap_get (aiQuery q) ''access_policy'';
                a' = a\<lparr>arAccessPolicy := (if policy \<noteq> [] then policy else arAccessPolicy a),
                       arAllowedAgents := patchedAgents (aiQuery q) (arAllowedAgents a)\<rparr>
            in commit (SaveArtifact drv a') (\<lambda>err. writeError 500 (''failed to update artifact: '' @ err))
                 (writeJSON 200 (ArtifactSaved a')) w)))"

definition removeArtifact ::
  "digest \<Rightarrow> jwt_lib \<Rightarrow> driver \<Rightarrow> fs \<Rightarrow> clock \<Rightarrow> handler \<Rightarrow> request \<Rightarrow> string \<Rightarrow> disk \<Rightarrow> world \<Rightarrow> artifact_body response \<times> disk \<times> world" where
  "removeArtifact sha jwt drv f clk e r k d w =
     (if \<not> knownClient sha jwt drv clk e r (wDB w)
      then (writeError 401 ''authentication required to delete artifacts'', d, w)
      else if k = [] then (writeError 400 ''artifact ID required in path'', d, w)
      else (case GetArtifact drv (wDB w) k of
          None \<Rightarrow> (writeError 404 ''artifact not found'', d, w)
        | Some a \<Rightarrow>
           (let (rsp, w') = commit (DeleteArtifact drv k) (\<lambda>err. writeError 500 ''failed to delete artifact'')
                   (writeJSON 200 (ArtifactStatus ''deleted'')) w
            in (rsp, removeAll f (joinPath (eArtifactsDir e) (arID a)) d, w'))))"

definition HandleArtifacts ::
  "digest \<Rightarrow> jwt_lib \<Rightarrow> driver \<Rightarrow> fs \<Rightarrow> clock \<Rightarrow> 8 word list \<Rightarrow> handler \<Rightarrow> request \<Rightarrow> artifact_input \<Rightarrow> disk \<Rightarrow> world \<Rightarrow>
   artifact_body response \<times> disk \<times> world" where
  "HandleArtifacts sha jwt drv f clk rnd e r q d w =
     (let k = pathID (rPath r) ''/artifacts''; sub = pathSub (rPath r) ''/artifacts'' in
      if rMethod r = ''GET'' then (getArtifact sha jwt drv f clk e r k sub d (wDB w), d, w)
      else if rMethod r = ''POST'' then uploadArtifact sha jwt drv f clk rnd e r q d w
      else if rMethod r = ''PATCH'' then (let (rsp, w') = patchArtifact sha jwt drv clk e r q k w in (rsp, d, w'))
      else if rMethod r = ''DELETE'' then removeArtifact sha jwt drv f clk e r k d w
      else (writeError 405 ''method not allowed'', d, w))"

section \<open>Invariants\<close>

lemma uploadArtifact_inv [inv_intros]:
  assumes "world_inv w"
  shows "world_inv (snd (snd (uploadArtifact sha jwt drv f clk rnd e r q d w)))"
proof -
  have "world_inv (withDB w (snd (SaveArtifact drv a (wDB w))))" for a
    using assms SaveArtifact_inv [of "wDB w" drv a] by (simp add: world_inv_def)
  then have saved: "world_inv (snd (snd (case fst (SaveArtifact drv a (wDB w)) of
      None \<Rightarrow> (r2, d1, withDB w (snd (SaveArtifact drv a (wDB w))))
    | Some err \<Rightarrow> (r1, d1, withDB w (snd (SaveArtifact drv a (wDB w)))))))" for a r1 r2 d1
    by (auto split: option.split)
  show ?thesis
    by (simp only: uploadArtifact_def Let_def case_prod_beta if_distrib [of snd] snd_conv assms saved split: if_split) blast
qed

lemma patchArtifact_inv [inv_intros]:
  "world_inv w \<Longrightarrow> world_inv (snd (patchArtifact sha jwt drv clk e r q k w))"
  by (simp add: patchArtifact_def Let_def commit_inv SaveArtifact_inv split: option.split)

lemma removeArtifact_inv [inv_intros]:
  "world_inv w \<Longrightarrow> world_inv (snd (snd (removeArtifact sha jwt drv f clk e r k d w)))"
  by (simp add: removeArtifact_def Let_def case_prod_beta commit_inv DeleteArtifact_inv split: option.split)

lemma HandleArtifacts_inv [inv_intros]:
  "world_inv w \<Longrightarrow> world_inv (snd (snd (HandleArtifacts sha jwt drv f clk rnd e r q d w)))"
  by (simp add: HandleArtifacts_def Let_def case_prod_beta uploadArtifact_inv patchArtifact_inv removeArtifact_inv)

section \<open>Who may read an artifact\<close>

text \<open>The specification of the access policy, over the client a request comes from.\<close>

datatype client = RootClient | AgentClient string | Anonymous

definition clientOf :: "digest \<Rightarrow> jwt_lib \<Rightarrow> driver \<Rightarrow> clock \<Rightarrow> handler \<Rightarrow> request \<Rightarrow> db \<Rightarrow> client" where
  "clientOf sha jwt drv clk e r db =
     (if isRootRequest jwt (clk 0) e r then RootClient
      else case agentIDFromToken sha drv (clk 1) r db of Inl err \<Rightarrow> Anonymous | Inr i \<Rightarrow> AgentClient i)"

fun permits :: "gotime artifact \<Rightarrow> client \<Rightarrow> bool" where
  "permits a RootClient = True"
| "permits a (AgentClient i) = (arAccessPolicy a = AccessRestricted \<longrightarrow> i \<in> set (arAllowedAgents a))"
| "permits a Anonymous = (arAccessPolicy a = AccessPublic)"

lemma denyAccess_None_iff:
  "denyAccess sha jwt drv clk e r db a = None \<longleftrightarrow> permits a (clientOf sha jwt drv clk e r db)"
  by (auto simp: denyAccess_def clientOf_def split: sum.splits)

lemma knownClient_iff: "knownClient sha jwt drv clk e r db \<longleftrightarrow> clientOf sha jwt drv clk e r db \<noteq> Anonymous"
  by (auto simp: knownClient_def clientOf_def split: sum.splits)

lemma permits_cong:
  "arAccessPolicy a = arAccessPolicy b \<Longrightarrow> arAllowedAgents a = arAllowedAgents b \<Longrightarrow> permits a c = permits b c"
  by (cases c) simp_all

section \<open>Paths of identifiers\<close>

lemma NewID_no_slash: "CHR ''/'' \<notin> set (NewID t rnd)"
proof -
  have "CHR ''/'' \<notin> set ulidAlphabet" by (simp add: ulidAlphabet_def)
  then show ?thesis using newULID_alphabet unfolding NewID_def by blast
qed

lemma NewID_plain: "NewID t rnd \<noteq> []" "NewID t rnd \<noteq> ''.''" "NewID t rnd \<noteq> ''..''"
  using newULID_length [of "word_of_int (UnixMilli t)" rnd] unfolding NewID_def by auto

lemma pathParts_plain:
  assumes "CHR ''/'' \<notin> set k" "k \<noteq> []"
  shows "pathParts (pre @ CHR ''/'' # k) pre = [k]"
proof -
  have "takeWhile (\<lambda>x. x \<noteq> CHR ''/'') k = k" "dropWhile (\<lambda>x. x \<noteq> CHR ''/'') k = []"
    using assms(1) by (auto simp: takeWhile_eq_all_conv dropWhile_eq_Nil_conv)
  moreover have "TrimPrefix (CHR ''/'' # k) ''/'' = k" using TrimPrefix_append [of "''/''" k] by simp
  ultimately show ?thesis by (simp add: pathParts_def SplitN2_def)
qed

text \<open>Where an upload is written.\<close>

lemma cleanParts_upload:
  assumes "eArtifactsDir e \<noteq> []" "''..'' \<notin> set (Split filename (CHR ''/''))"
  shows "cleanParts (eArtifactsDir e @ CHR ''/'' # NewID t rnd @ CHR ''/'' # filename) =
    cleanParts (eArtifactsDir e) @ NewID t rnd # filter (\<lambda>p. p \<noteq> [] \<and> p \<noteq> ''.'') (Split filename (CHR ''/''))"
  using assms NewID_plain [of t rnd]
  by (subst cleanParts_below) (auto simp: Split_sep Split_plain [OF NewID_no_slash])

section \<open>Uploads that succeed\<close>

text \<open>What \<^verbatim>\<open>io.Copy\<close> promises: without an error everything was written.\<close>

definition copies_all :: "fs \<Rightarrow> bool" where
  "copies_all f \<longleftrightarrow> (\<forall>p b. snd (fsCopy f p b) = None \<longrightarrow> fst (fsCopy f p b) = length b)"

lemma upload_cases:
  assumes "uploadArtifact sha jwt drv f clk rnd e r q d w = (rsp, d', w')" "rspStatus rsp = 201"
  obtains name filename written where
    "filename \<noteq> []" "rsp = writeJSON 201 (ArtifactSaved (newArtifact (NewID (clk 2) rnd) name filename (int written) (clk 3) q))"
    "fsCopy f (joinPath (joinPath (eArtifactsDir e) (NewID (clk 2) rnd)) filename) (aiBody q) = (written, None)"
    "d' = d(joinPath (joinPath (eArtifactsDir e) (NewID (clk 2) rnd)) filename \<mapsto> take written (aiBody q))"
    "SaveArtifact drv (newArtifact (NewID (clk 2) rnd) name filename (int written) (clk 3) q) (wDB w) = (None, wDB w')"
  using assms
  by (auto simp: uploadArtifact_def Let_def writeError_def case_prod_beta split: if_splits option.splits)
     (metis option.collapse prod.collapse)+

lemma newArtifact_select [simp]:
  "arID (newArtifact k n fn z now q) = k" "arFileName (newArtifact k n fn z now q) = fn"
  "arContentType (newArtifact k n fn z now q) \<noteq> []"
  by (simp_all add: newArtifact_def Let_def octetStream_def)

text \<open>A saved artifact is read back, but for the moment of its first upload.\<close>

lemma saved_artifact:
  assumes "SaveArtifact drv a db = (None, db')"
  shows "\<exists>b. GetArtifact okDrv db' (arID a) = Some b \<and> arID b = arID a \<and> arFileName b = arFileName a \<and>
    arContentType b = arContentType a \<and> arAccessPolicy b = arAccessPolicy a \<and> arAllowedAgents b = arAllowedAgents a"
proof -
  have "db' = db\<lparr>tArtifacts := upsert arID mergeArtifact (artifactRow a) (tArtifacts db)\<rparr>"
    using assms by (auto simp: SaveArtifact_def exec_def split: option.splits)
  then show ?thesis
    by (auto simp: GetArtifact_def artifacts.row_upsert scanArtifact_def mergeArtifact_def artifactRow_def
        split: option.splits dest: row_SomeD)
qed

section \<open>Properties\<close>

text \<open>
  C18. A file leaves the server exactly when the access policy of its artifact permits it to the
  client of the request: anyone for a public artifact, root for every artifact, an agent with a
  live token for an artifact that is not restricted or lists the agent.
\<close>

theorem download_policy:
  "(\<exists>ct name d' w'. HandleArtifacts sha jwt drv f clk rnd e r q d w =
      (writeJSON 200 (ArtifactFile ct name content), d', w')) \<longleftrightarrow>
   rMethod r = ''GET'' \<and> pathID (rPath r) ''/artifacts'' \<noteq> [] \<and> pathSub (rPath r) ''/artifacts'' \<noteq> ''meta'' \<and>
   (\<exists>a. findArtifact drv (wDB w) (pathID (rPath r) ''/artifacts'') = Some a \<and>
     permits a (clientOf sha jwt drv clk e r (wDB w)) \<and> openFile f (artifactPath e a) d = Some content)"
  (is "?L \<longleftrightarrow> ?R")
proof
  assume ?L
  then have m: "rMethod r = ''GET''"
    by (auto simp: HandleArtifacts_def Let_def uploadArtifact_def patchArtifact_def removeArtifact_def commit_def
        writeJSON_def writeError_def case_prod_beta split: if_splits option.splits prod.splits)
  with \<open>?L\<close> show ?R
    by (auto simp: HandleArtifacts_def getArtifact_def Let_def writeJSON_def writeError_def
        denyAccess_None_iff [symmetric] split: if_splits option.splits)
next
  assume ?R
  then obtain a where "findArtifact drv (wDB w) (pathID (rPath r) ''/artifacts'') = Some a"
      "denyAccess sha jwt drv clk e r (wDB w) a = None" "openFile f (artifactPath e a) d = Some content"
    by (auto simp: denyAccess_None_iff)
  with \<open>?R\<close> have "HandleArtifacts sha jwt drv f clk rnd e r q d w = (writeJSON 200 (ArtifactFile
      (if arContentType a = [] then octetStream else arContentType a) (arFileName a) content), d, w)"
    by (simp add: HandleArtifacts_def getArtifact_def)
  then show ?L by blast
qed

text \<open>
  C19. A request without root credentials and without a live agent token changes neither the
  database nor a file, whatever its method, and gets no list of the artifacts.
\<close>

theorem anonymous_changes_nothing:
  assumes "clientOf sha jwt drv clk e r (wDB w) = Anonymous"
    "HandleArtifacts sha jwt drv f clk rnd e r q d w = (rsp, d', w')"
  shows "d' = d \<and> w' = w \<and> (\<forall>as. rspBody rsp \<noteq> Inr (ArtifactList as))"
proof -
  have "\<not> knownClient sha jwt drv clk e r (wDB w)" using assms(1) by (simp add: knownClient_iff)
  with assms(2) show ?thesis
    by (auto simp: HandleArtifacts_def Let_def uploadArtifact_def patchArtifact_def removeArtifact_def getArtifact_def
        writeError_def writeJSON_def split: if_splits option.splits)
qed

definition noJwt :: jwt_lib where
  "noJwt = \<lparr>jwtSign = (\<lambda>k c. Inl ''no key''), jwtParse = (\<lambda>k a t s. None)\<rparr>"

theorem anonymous_changes_nothing_witness:
  "snd (HandleArtifacts sampleSha noJwt okDrv okFs (\<lambda>i. 0) [] sampleHandler (sampleRequest\<lparr>rPath := ''/artifacts''\<rparr>)
     \<lparr>aiQuery = [(''name'', ''f'')], aiContentType = [], aiBody = ''x'', aiReadErr = None\<rparr> Map.empty (sampleWorld [])) =
   (Map.empty, sampleWorld [])"
proof -
  have "clientOf sampleSha noJwt okDrv (\<lambda>i. 0) sampleHandler (sampleRequest\<lparr>rPath := ''/artifacts''\<rparr>) (wDB (sampleWorld [])) = Anonymous"
    by (simp add: clientOf_def isRootRequest_def sampleRequest_def agentIDFromToken_def rawTokenFromRequest_def HasPrefix_def
        GetAgentTokenByHash_def sampleWorld_def emptyDB_def Let_def)
  then show ?thesis
    using anonymous_changes_nothing [of sampleSha noJwt okDrv "\<lambda>i. 0" sampleHandler "sampleRequest\<lparr>rPath := ''/artifacts''\<rparr>" "sampleWorld []"
        okFs "[]" "\<lparr>aiQuery = [(''name'', ''f'')], aiContentType = [], aiBody = ''x'', aiReadErr = None\<rparr>" "Map.empty"]
    by (metis prod.collapse)
qed

text \<open>
  C20. What was uploaded is what is downloaded: after an upload that was answered with 201, a
  download by its id from a client the new artifact permits returns the bytes of the upload
  with the content type and the file name of the artifact.
\<close>

theorem upload_download:
  assumes "HandleArtifacts sha jwt drv f clk rnd e r q d w = (writeJSON 201 (ArtifactSaved art), d', w')"
    "rMethod r = ''POST''" "copies_all f" "eArtifactsDir e \<noteq> []"
    "rMethod r' = ''GET''" "rPath r' = ''/artifacts/'' @ arID art"
    "permits art (clientOf sha jwt okDrv clk' e r' (wDB w'))"
  shows "HandleArtifacts sha jwt okDrv okFs clk' rnd' e r' q' d' w' =
    (writeJSON 200 (ArtifactFile (arContentType art) (arFileName art) (aiBody q)), d', w')"
proof -
  have up: "uploadArtifact sha jwt drv f clk rnd e r q d w = (writeJSON 201 (ArtifactSaved art), d', w')"
    using assms(1,2) by (simp add: HandleArtifacts_def)
  obtain name filename written where c:
    "art = newArtifact (NewID (clk 2) rnd) name filename (int written) (clk 3) q"
    "fsCopy f (joinPath (joinPath (eArtifactsDir e) (NewID (clk 2) rnd)) filename) (aiBody q) = (written, None)"
    "d' = d(joinPath (joinPath (eArtifactsDir e) (NewID (clk 2) rnd)) filename \<mapsto> take written (aiBody q))"
    "SaveArtifact drv art (wDB w) = (None, wDB w')"
    by (rule upload_cases [OF up]) (auto simp: writeJSON_def)
  have "written = length (aiBody q)" using assms(3) c(2) unfolding copies_all_def by (metis fst_conv snd_conv)
  with c(3) have stored: "d' (artifactPath e art) = Some (aiBody q)"
    using joinPath_joinPath [OF assms(4)] by (simp add: artifactPath_def c(1))
  obtain b where b: "GetArtifact okDrv (wDB w') (arID art) = Some b" "arID b = arID art" "arFileName b = arFileName art"
    "arContentType b = arContentType art" "arAccessPolicy b = arAccessPolicy art" "arAllowedAgents b = arAllowedAgents art"
    using saved_artifact [OF c(4)] by blast
  have "denyAccess sha jwt okDrv clk' e r' (wDB w') b = None"
    using assms(7) b permits_cong denyAccess_None_iff by metis
  moreover have "pathParts (rPath r') ''/artifacts'' = [arID art]"
    using pathParts_plain [of "arID art" "''/artifacts''"] NewID_no_slash NewID_plain assms(6) by (simp add: c(1))
  moreover have "artifactPath e b = artifactPath e art" using b by (simp add: artifactPath_def)
  ultimately show ?thesis
    using assms(5) b stored NewID_plain
    by (simp add: HandleArtifacts_def getArtifact_def pathID_def pathSub_def findArtifact_def openFile_def okFs_def c(1))
qed

definition rootRequest :: "string \<Rightarrow> string \<Rightarrow> request" where
  "rootRequest m p = sampleRequest\<lparr>rMethod := m, rPath := p, rBasicAuth := Some (''root'', ''pw'')\<rparr>"

definition sampleUpload :: artifact_input where
  "sampleUpload = \<lparr>aiQuery = [(''name'', ''f'')], aiContentType = [], aiBody = ''x'', aiReadErr = None\<rparr>"

lemma rootRequest_root: "isRootRequest noJwt now sampleHandler (rootRequest m p)"
  by (simp add: isRootRequest_def rootRequest_def sampleRequest_def sampleHandler_def HasPrefix_def)

lemma rootRequest_select [simp]: "rMethod (rootRequest m p) = m" "rPath (rootRequest m p) = p"
  by (simp_all add: rootRequest_def)

theorem upload_download_witness:
  "\<exists>(art :: gotime artifact) d' w'. HandleArtifacts sampleSha noJwt okDrv okFs (\<lambda>i. 0) [] sampleHandler
       (rootRequest ''GET'' (''/artifacts/'' @ arID art)) sampleUpload d' w' =
     (writeJSON 200 (ArtifactFile octetStream ''f'' ''x''), d', w')"
proof -
  obtain art d' w' where up: "HandleArtifacts sampleSha noJwt okDrv okFs (\<lambda>i. 0) [] sampleHandler (rootRequest ''POST'' ''/artifacts'')
      sampleUpload Map.empty (sampleWorld []) = (writeJSON 201 (ArtifactSaved art), d', w')"
    "arContentType art = octetStream" "arFileName art = ''f''"
    by (simp add: HandleArtifacts_def uploadArtifact_def knownClient_def rootRequest_root okFs_def sampleUpload_def
        SaveArtifact_def newArtifact_def Let_def)
  have "copies_all okFs" "eArtifactsDir sampleHandler \<noteq> []"
    "permits art (clientOf sampleSha noJwt okDrv (\<lambda>i. 0) sampleHandler (rootRequest ''GET'' (''/artifacts/'' @ arID art)) (wDB w'))"
    by (simp add: copies_all_def okFs_def, simp add: sampleHandler_def, simp add: clientOf_def rootRequest_root)
  from upload_download [OF up(1) _ this(1,2) _ _ this(3), of "[]" sampleUpload] up(2,3)
  have "HandleArtifacts sampleSha noJwt okDrv okFs (\<lambda>i. 0) [] sampleHandler (rootRequest ''GET'' (''/artifacts/'' @ arID art))
      sampleUpload d' w' = (writeJSON 200 (ArtifactFile octetStream ''f'' (aiBody sampleUpload)), d', w')" by simp
  moreover have "aiBody sampleUpload = ''x''" by (simp add: sampleUpload_def)
  ultimately have "HandleArtifacts sampleSha noJwt okDrv okFs (\<lambda>i. 0) [] sampleHandler (rootRequest ''GET'' (''/artifacts/'' @ arID art))
      sampleUpload d' w' = (writeJSON 200 (ArtifactFile octetStream ''f'' ''x''), d', w')" by (simp only:)
  then show ?thesis by blast
qed

text \<open>
  C21. An upload whose file name has no double-dot element is written below the directory of its
  own artifact: the elements of the path are those of the artifacts directory, the new id, and
  then the name.
\<close>

theorem upload_stays_below:
  assumes "eArtifactsDir e \<noteq> []" "''..'' \<notin> set (Split (arFileName art) (CHR ''/''))"
    "HandleArtifacts sha jwt drv f clk rnd e r q d w = (writeJSON 201 (ArtifactSaved art), d', w')" "rMethod r = ''POST''"
  shows "\<exists>p. (\<forall>p'. p' \<noteq> p \<longrightarrow> d' p' = d p') \<and> p = Clean (eArtifactsDir e @ ''/'' @ arID art @ ''/'' @ arFileName art) \<and>
    prefix (cleanParts (eArtifactsDir e) @ [arID art]) (cleanParts (eArtifactsDir e @ ''/'' @ arID art @ ''/'' @ arFileName art))"
proof -
  have up: "uploadArtifact sha jwt drv f clk rnd e r q d w = (writeJSON 201 (ArtifactSaved art), d', w')"
    using assms(3,4) by (simp add: HandleArtifacts_def)
  obtain name filename written where c:
    "art = newArtifact (NewID (clk 2) rnd) name filename (int written) (clk 3) q"
    "d' = d(joinPath (joinPath (eArtifactsDir e) (NewID (clk 2) rnd)) filename \<mapsto> take written (aiBody q))"
    by (rule upload_cases [OF up]) (auto simp: writeJSON_def)
  have "joinPath (joinPath (eArtifactsDir e) (NewID (clk 2) rnd)) filename =
      Clean (eArtifactsDir e @ ''/'' @ arID art @ ''/'' @ arFileName art)"
    using assms(1) by (simp add: joinPath_joinPath c(1)) (simp add: joinPaths_def)
  moreover have "prefix (cleanParts (eArtifactsDir e) @ [arID art])
      (cleanParts (eArtifactsDir e @ ''/'' @ arID art @ ''/'' @ arFileName art))"
    using cleanParts_upload [OF assms(1), of filename "clk 2" rnd] assms(2) by (simp add: c(1))
  ultimately show ?thesis using c(2) by auto
qed

theorem upload_stays_below_witness:
  "\<exists>art d' w' p. HandleArtifacts sampleSha noJwt okDrv okFs (\<lambda>i. 0) [] sampleHandler (rootRequest ''POST'' ''/artifacts'')
       sampleUpload Map.empty (sampleWorld []) = (writeJSON 201 (ArtifactSaved art), d', w') \<and>
     (\<forall>p'. p' \<noteq> p \<longrightarrow> d' p' = None) \<and> p = Clean (''d/'' @ arID art @ ''/f'')"
proof -
  obtain art d' w' where up: "HandleArtifacts sampleSha noJwt okDrv okFs (\<lambda>i. 0) [] sampleHandler (rootRequest ''POST'' ''/artifacts'')
      sampleUpload Map.empty (sampleWorld []) = (writeJSON 201 (ArtifactSaved art), d', w')" "arFileName art = ''f''"
    by (simp add: HandleArtifacts_def uploadArtifact_def knownClient_def rootRequest_root okFs_def sampleUpload_def
        SaveArtifact_def newArtifact_def Let_def)
  have dir: "eArtifactsDir sampleHandler = ''d''" by (simp add: sampleHandler_def)
  obtain p where "\<forall>p'. p' \<noteq> p \<longrightarrow> d' p' = None" "p = Clean (''d/'' @ arID art @ ''/f'')"
    using upload_stays_below [OF _ _ up(1)] up(2) by (auto simp: dir)
  with up show ?thesis by blast
qed

text \<open>
  With double dots in the file name the path leaves the artifacts directory: an agent with a
  token chooses the file the server writes.
\<close>

lemma upload_escapes: "joinPath (joinPath ''/srv/files'' (NewID t rnd)) ''../../../etc/job'' = ''/etc/job''"
proof -
  have "Split (''/srv/files/'' @ NewID t rnd @ ''/../../../etc/job'') (CHR ''/'') =
      [[], ''srv'', ''files'', NewID t rnd, ''..'', ''..'', ''..'', ''etc'', ''job'']"
    using Split_sep [of "NewID t rnd" "CHR ''/''" "''../../../etc/job''"]
    by (simp add: Split_plain [OF NewID_no_slash])
  then have "cleanParts (''/srv/files/'' @ NewID t rnd @ ''/../../../etc/job'') = [''etc'', ''job'']"
    using NewID_plain [of t rnd] by (simp add: cleanParts_def cleanStep_def)
  then have "Clean (''/srv/files/'' @ NewID t rnd @ ''/../../../etc/job'') = ''/etc/job''"
    by (simp add: Clean_def rootedPath_def)
  then show ?thesis by (simp add: joinPath_joinPath) (simp add: joinPaths_def)
qed

end
