(* ===== verification/Ui.thy ===== *)
theory Ui
  imports Service
begin

text \<open>
  The HTML pages of the server: \<^verbatim>\<open>handlers/ui_templates.go\<close> and
  \<^verbatim>\<open>handlers/ui_assets.go\<close>. A page is its headers, the template it is rendered with and
  the data the template gets; the template language and the embedded files are parameters, the
  error of parsing a template and the contents of the files. Integers of the page arithmetic are
  64-bit and wrap. A handler that would panic on a slice out of bounds returns \<open>None\<close>.
\<close>

section \<open>Integers\<close>

definition wrap64 :: "int \<Rightarrow> int" where
  "wrap64 x = sint (word_of_int x :: 64 word)"

definition maxUint64 :: int where "maxUint64 = 2 ^ 64 - 1"
definition maxInt64 :: int where "maxInt64 = 2 ^ 63 - 1"

text \<open>
  \<^verbatim>\<open>strconv.Atoi\<close> with its error ignored: zero for a text that is no number, the nearest
  bound for a number out of range. \<open>parseUint\<close> is the loop of \<^verbatim>\<open>ParseUint\<close> in base ten;
  it stops at an overflow without reading the rest.
\<close>

definition isDigit :: "char \<Rightarrow> bool" where
  "isDigit c \<longleftrightarrow> 48 \<le> (of_char c :: int) \<and> (of_char c :: int) \<le> 57"

definition digitVal :: "char \<Rightarrow> int" where "digitVal c = of_char c - 48"

fun parseUint :: "int \<Rightarrow> string \<Rightarrow> int option" where
  "parseUint n [] = Some n"
| "parseUint n (c # cs) =
     (if \<not> isDigit c then None
      else if n \<ge> maxUint64 div 10 + 1 then Some maxUint64
      else if n * 10 + digitVal c > maxUint64 then Some maxUint64
      else parseUint (n * 10 + digitVal c) cs)"

definition Atoi :: "string \<Rightarrow> int" where
  "Atoi s =
     (let neg = HasPrefix s ''-'';
          body = (if neg \<or> HasPrefix s ''+'' then drop 1 s else s)
      in case (if body = [] then None else parseUint 0 body) of
           None \<Rightarrow> 0
         | Some un \<Rightarrow>
             if \<not> neg \<and> un \<ge> 2 ^ 63 then maxInt64
             else if neg \<and> un > 2 ^ 63 then - (2 ^ 63)
             else if neg then - un else un)"

section \<open>Pages of a list\<close>

definition uiPageSize :: int where "uiPageSize = 20"

definition pageParam :: "smap \<Rightarrow> int" where
  "pageParam q = (let p = Atoi (smap_get q ''page'') in if p < 1 then 1 else p)"

text \<open>
  \<^verbatim>\<open>int(math.Ceil(float64(total) / float64(size)))\<close>. The quotient of two lengths below
  \<open>2 ^ 48\<close> rounds to a float with the same ceiling, so the exact one is taken.
\<close>

definition totalPages :: "int \<Rightarrow> int \<Rightarrow> int" where
  "totalPages tot sz = (if tot = 0 then 1 else (tot + sz - 1) div sz)"

definition paginate :: "'a list \<Rightarrow> int \<Rightarrow> int \<Rightarrow> 'a list option" where
  "paginate items page sz =
     (let start = wrap64 (wrap64 (page - 1) * sz); len = int (length items) in
      if start \<ge> len then Some []
      else (let end0 = wrap64 (start + sz); end1 = (if end0 > len then len else end0) in
            if 0 \<le> start \<and> start \<le> end1
            then Some (take (nat (end1 - start)) (drop (nat start) items)) else None))"

section \<open>Pages\<close>

record nav_item =
  niLabel :: string
  niURL :: string
  niActive :: bool

definition buildNav :: "string \<Rightarrow> nav_item list" where
  "buildNav active = map (\<lambda>(l, u). \<lparr>niLabel = l, niURL = u, niActive = (active = l)\<rparr>)
     [(''Home'', ''/ui''), (''Agents'', ''/ui/agents''), (''Vault'', ''/ui/vault''), (''Playbooks'', ''/ui/playbooks''),
      (''Deployments'', ''/ui/deployments''), (''Artifacts'', ''/ui/artifacts'')]"

record page_data =
  pgTitle :: string
  pgNavItems :: "nav_item list"
  pgSearch :: string

definition newPage :: "string \<Rightarrow> string \<Rightarrow> string \<Rightarrow> page_data" where
  "newPage title active search = \<lparr>pgTitle = title, pgNavItems = buildNav active, pgSearch = search\<rparr>"

record home_stats_data =
  hsAgents :: nat
  hsPlaybooks :: nat
  hsDeployments :: nat
  hsArtifacts :: nat

record agent_ui_row =
  urAgent :: "gotime agent"
  urDeployStep :: string
  urStatusStr :: string

record playbook_ui_row =
  upRecord :: "gotime playbook_record"
  upJobs :: nat
  upSteps :: nat

text \<open>The fields the tables share, and the counters of the agents table.\<close>

record 'r table_data =
  tdRows :: "'r list"
  tdQuery :: string
  tdPage :: int
  tdTotalPages :: int
  tdTotal :: nat

record agents_table_data = "agent_ui_row table_data" +
  tdShown :: nat
  tdConnected :: nat
  tdDeploying :: nat

datatype ui_data =
    PageData page_data
  | HomeStats home_stats_data
  | AgentsTable agents_table_data
  | ArtifactsTable "gotime artifact table_data"
  | DeploymentsTable "deployment_state table_data"
  | PlaybooksTable "playbook_ui_row table_data" "gotime agent list"
  | VaultTable "string table_data"
  | LogsData string "gotime log_entry list"

section \<open>Rendering\<close>

datatype html = HttpError int string | Html smap string ui_data | AssetFile smap string

definition securityHeaders :: smap where
  "securityHeaders =
    [(''Content-Security-Policy'', ''default-src 'self'; style-src 'self' 'unsafe-inline'; script-src 'self' 'unsafe-inline'; frame-ancestors 'none'; form-action 'self'; object-src '' @ [CHR 0x27] @ ''none'' @ [CHR 0x27]),
     (''X-Frame-Options'', ''DENY''), (''X-Content-Type-Options'', ''nosniff''),
     (''Referrer-Policy'', ''strict-origin-when-cross-origin'')]"

definition noStore :: string where "noStore = ''no-store, no-cache, must-revalidate''"

definition htmlHeaders :: smap where
  "htmlHeaders = securityHeaders @ [(''Content-Type'', ''text/html; charset=utf-8''), (''Cache-Control'', noStore)]"

definition renderPage :: "(string list \<Rightarrow> err) \<Rightarrow> string \<Rightarrow> page_data \<Rightarrow> html" where
  "renderPage parse page data =
     (case parse [''ui/templates/layout.html'', ''ui/templates/pages/'' @ page @ ''.html''] of
        Some e \<Rightarrow> HttpError 500 (''template parse error: '' @ e)
      | None \<Rightarrow> Html htmlHeaders ''layout'' (PageData data))"

definition renderPartialTemplate :: "(string list \<Rightarrow> err) \<Rightarrow> string \<Rightarrow> ui_data \<Rightarrow> html" where
  "renderPartialTemplate parse name data =
     (case parse [''ui/templates/partials/'' @ name @ ''.html''] of
        Some e \<Rightarrow> HttpError 500 (''template parse error: '' @ e)
      | None \<Rightarrow> Html htmlHeaders (name @ ''.html'') data)"

definition ServeUIAsset :: "(string \<rightharpoonup> string) \<Rightarrow> string \<Rightarrow> html" where
  "ServeUIAsset uiFS path =
     (let importPath = ''ui/assets/'' @ drop (length ''/ui/assets/'') path in
      case uiFS importPath of
        None \<Rightarrow> HttpError 404 ''not found''
      | Some data \<Rightarrow>
          AssetFile ((if length importPath > 3 \<and> HasSuffix importPath ''.js''
              then [(''Content-Type'', ''text/javascript; charset=utf-8'')]
            else if length importPath > 4 \<and> HasSuffix importPath ''.css''
              then [(''Content-Type'', ''text/css; charset=utf-8'')] else []) @
            securityHeaders @ [(''Cache-Control'', noStore), (''Pragma'', ''no-cache''), (''Expires'', ''0'')]) data)"

section \<open>Page handlers\<close>

definition HandleHomeUI :: "(string list \<Rightarrow> err) \<Rightarrow> smap \<Rightarrow> html" where
  "HandleHomeUI parse q = renderPage parse ''home'' (newPage ''Dashboard'' ''Home'' [])"

definition HandleAgentsUI :: "(string list \<Rightarrow> err) \<Rightarrow> smap \<Rightarrow> html" where
  "HandleAgentsUI parse q = renderPage parse ''agents'' (newPage ''Agents'' ''Agents'' (smap_get q ''q''))"

definition HandleArtifactsUI :: "(string list \<Rightarrow> err) \<Rightarrow> smap \<Rightarrow> html" where
  "HandleArtifactsUI parse q = renderPage parse ''artifacts'' (newPage ''Artifacts'' ''Artifacts'' [])"

definition HandlePlaybooksUI :: "(string list \<Rightarrow> err) \<Rightarrow> smap \<Rightarrow> html" where
  "HandlePlaybooksUI parse q = renderPage parse ''playbooks'' (newPage ''Playbooks'' ''Playbooks'' [])"

definition HandleDeploymentsUI :: "(string list \<Rightarrow> err) \<Rightarrow> smap \<Rightarrow> html" where
  "HandleDeploymentsUI parse q = renderPage parse ''deployments'' (newPage ''Deployments'' ''Deployments'' [])"

definition HandleVaultUI :: "(string list \<Rightarrow> err) \<Rightarrow> smap \<Rightarrow> html" where
  "HandleVaultUI parse q = renderPage parse ''vault'' (newPage ''Vault'' ''Vault'' [])"

section \<open>Partial handlers\<close>

text \<open>The filter: the lowered query inside the lowered text, everything for an empty query.\<close>

definition hayMatches :: "smap \<Rightarrow> string list \<Rightarrow> bool" where
  "hayMatches q hay = (let qs = ToLower (smap_get q ''q'') in qs = [] \<or> Contains (ToLower (Join hay '' '')) qs)"

text \<open>A page of the filtered rows with what the template shows beside it.\<close>

definition tablePage :: "smap \<Rightarrow> 'r list \<Rightarrow> nat \<Rightarrow> 'r table_data option" where
  "tablePage q filtered tot =
     map_option (\<lambda>rows. \<lparr>tdRows = rows, tdQuery = smap_get q ''q'', tdPage = pageParam q,
        tdTotalPages = totalPages (int (length filtered)) uiPageSize, tdTotal = tot\<rparr>)
      (paginate filtered (pageParam q) uiPageSize)"

definition HandlePartialHomeStats :: "(string list \<Rightarrow> err) \<Rightarrow> driver \<Rightarrow> db \<Rightarrow> html" where
  "HandlePartialHomeStats parse drv db =
     (let (agents, deployments) = StatusSnapshot drv db in
      renderPartialTemplate parse ''home-stats'' (HomeStats
        \<lparr>hsAgents = length agents, hsPlaybooks = length (ListPlaybooks drv db),
         hsDeployments = length (filter (\<lambda>d. dStatus d = DeploymentStatusRunning) deployments),
         hsArtifacts = length (ListArtifacts drv db)\<rparr>))"

definition agentFields :: "gotime agent \<Rightarrow> string list" where
  "agentFields a = [aHostname a, aOS a, aVendor a, aModel a, aIPAddress a, aID a]"

definition depByAgent :: "deployment_state list \<Rightarrow> (string \<rightharpoonup> deployment_state)" where
  "depByAgent deployments = foldl (\<lambda>m d. m(dAgentID d \<mapsto> d)) Map.empty deployments"

definition agentUiRow :: "deployment_state list \<Rightarrow> gotime agent \<Rightarrow> agent_ui_row" where
  "agentUiRow deployments a = \<lparr>urAgent = a,
     urDeployStep = (case depByAgent deployments (aID a) of None \<Rightarrow> ''-'' | Some dep \<Rightarrow> ''#'' @ Itoa (dResumeStepIndex dep)),
     urStatusStr = aStatus a\<rparr>"

definition HandlePartialAgents :: "(string list \<Rightarrow> err) \<Rightarrow> driver \<Rightarrow> smap \<Rightarrow> db \<Rightarrow> html option" where
  "HandlePartialAgents parse drv q db =
     (let (agents, deployments) = StatusSnapshot drv db;
          filtered = filter (\<lambda>a. hayMatches q (agentFields a)) agents;
          count = (\<lambda>st. length (filter (\<lambda>a. aStatus a = st) filtered))
      in map_option (\<lambda>paged. renderPartialTemplate parse ''agents-table'' (AgentsTable
           \<lparr>tdRows = map (agentUiRow deployments) paged, tdQuery = smap_get q ''q'', tdPage = pageParam q,
            tdTotalPages = totalPages (int (length filtered)) uiPageSize, tdTotal = length agents,
            tdShown = length filtered, tdConnected = count AgentStatusConnected, tdDeploying = count AgentStatusDeploying\<rparr>))
         (paginate filtered (pageParam q) uiPageSize))"

definition HandlePartialArtifacts :: "(string list \<Rightarrow> err) \<Rightarrow> driver \<Rightarrow> smap \<Rightarrow> db \<Rightarrow> html option" where
  "HandlePartialArtifacts parse drv q db =
     (let all = ListArtifacts drv db;
          filtered = filter (\<lambda>a. hayMatches q [arID a, arName a, arFileName a]) all
      in map_option (\<lambda>t. renderPartialTemplate parse ''artifacts-table'' (ArtifactsTable t)) (tablePage q filtered (length all)))"

definition HandlePartialDeployments :: "(string list \<Rightarrow> err) \<Rightarrow> driver \<Rightarrow> smap \<Rightarrow> db \<Rightarrow> html option" where
  "HandlePartialDeployments parse drv q db =
     (let all = ListDeployments drv db;
          filtered = filter (\<lambda>d. hayMatches q [dID d, dAgentID d, dPlaybookID d, dHostname d, dPlaybookName d]) all
      in map_option (\<lambda>t. renderPartialTemplate parse ''deployments-table'' (DeploymentsTable t)) (tablePage q filtered (length all)))"

definition HandlePartialDeploymentLogs :: "(string list \<Rightarrow> err) \<Rightarrow> driver \<Rightarrow> string \<Rightarrow> db \<Rightarrow> html" where
  "HandlePartialDeploymentLogs parse drv path db =
     (let k = TrimSuffix (TrimPrefix path ''/ui/partials/deployments/'') ''/logs''
      in renderPartialTemplate parse ''deployments-logs'' (LogsData k (GetLogsForDeployment drv db k)))"

definition playbookUiRow :: "gotime playbook_record \<Rightarrow> playbook_ui_row" where
  "playbookUiRow pb = (case prPlaybook pb of
      None \<Rightarrow> \<lparr>upRecord = pb, upJobs = 0, upSteps = 0\<rparr>
    | Some p \<Rightarrow> \<lparr>upRecord = pb, upJobs = length (pbJobs p), upSteps = foldl (\<lambda>n j. n + length (jSteps j)) 0 (pbJobs p)\<rparr>)"

definition HandlePartialPlaybooks :: "(string list \<Rightarrow> err) \<Rightarrow> driver \<Rightarrow> smap \<Rightarrow> db \<Rightarrow> html option" where
  "HandlePartialPlaybooks parse drv q db =
     (let all = ListPlaybooks drv db; agents = ListAgents drv db;
          filtered = map playbookUiRow (filter (\<lambda>pb. hayMatches q [prID pb, prName pb, prDescription pb]) all)
      in map_option (\<lambda>t. renderPartialTemplate parse ''playbooks-table'' (PlaybooksTable t agents)) (tablePage q filtered (length all)))"

definition HandlePartialVault :: "(string list \<Rightarrow> err) \<Rightarrow> driver \<Rightarrow> smap \<Rightarrow> db \<Rightarrow> html option" where
  "HandlePartialVault parse drv q db =
     (let all = ListSecretNames drv db;
          filtered = filter (\<lambda>n. hayMatches q [n]) all
      in map_option (\<lambda>t. renderPartialTemplate parse ''vault-table'' (VaultTable t)) (tablePage q filtered (length all)))"

section \<open>Functions of the templates\<close>

definition statusLabel :: "string \<Rightarrow> string" where
  "statusLabel s = (if ToLower s = ''completed'' then ''completed'' else if ToLower s = ''failed'' then ''failed'' else s)"

definition statusClass :: "string \<Rightarrow> string" where
  "statusClass s = (let l = ToLower s in
     if l = ''completed'' then ''success'' else if l = ''failed'' then ''danger''
     else if l \<in> {''running'', ''connected'', ''deploying''} then ''info''
     else if l = ''rebooting'' then ''warning'' else ''muted'')"

definition policyClass :: "string \<Rightarrow> string" where
  "policyClass p = (if p = ''public'' then ''badge-warning'' else ''badge-success'')"

definition policyLabel :: "string \<Rightarrow> string" where
  "policyLabel p = (if p = ''public'' then ''Public'' else if p = ''restricted'' then ''Restricted'' else ''Authenticated'')"

definition shellsList :: "string list \<Rightarrow> string" where
  "shellsList shells = Join shells '',''"

text \<open>\<^verbatim>\<open>seq\<close>: making a slice of negative length panics.\<close>

definition seqPages :: "int \<Rightarrow> int list option" where
  "seqPages n = (if n < 0 then None else Some [1 .. n])"

section \<open>Numbers in texts\<close>

lemma wrap64_id: "- (2 ^ 63) \<le> x \<Longrightarrow> x < 2 ^ 63 \<Longrightarrow> wrap64 x = x"
  unfolding wrap64_def by (subst sint_sbintrunc') (simp add: signed_take_bit_int_eq_self)

lemma isDigit_char:
  assumes "k < 10"
  shows "isDigit (char_of (48 + k :: nat))" "digitVal (char_of (48 + k :: nat)) = int k"
proof -
  have "(of_char (char_of (48 + k :: nat)) :: int) = int (of_char (char_of (48 + k :: nat)))"
    by (simp only: of_nat_of_char)
  also have "\<dots> = 48 + int k" unfolding of_char_of using assms by simp
  finally show "isDigit (char_of (48 + k :: nat))" "digitVal (char_of (48 + k :: nat)) = int k"
    using assms by (simp_all add: isDigit_def digitVal_def)
qed

lemma parseUint_snoc:
  assumes "parseUint n s = Some m" "m < 2 ^ 59" "k < 10" "0 \<le> n"
  shows "parseUint n (s @ [char_of (48 + k :: nat)]) = Some (m * 10 + int k)"
  using assms
proof (induction n s rule: parseUint.induct)
  case (1 n)
  then show ?case by (simp add: isDigit_char maxUint64_def)
next
  case (2 n c cs)
  then show ?case by (auto simp: maxUint64_def isDigit_def digitVal_def split: if_splits)
qed

lemma parseUint_digits: "n < 2 ^ 62 \<Longrightarrow> parseUint 0 (nat_digits n) = Some (int n)"
proof (induction n rule: nat_digits.induct)
  case (1 n)
  show ?case
  proof (cases "n < 10")
    case True
    then show ?thesis using isDigit_char [of n] by (subst nat_digits.simps) (simp add: maxUint64_def)
  next
    case False
    with 1 have "parseUint 0 (nat_digits (n div 10)) = Some (int (n div 10))" "int (n div 10) < 2 ^ 59" by auto
    from parseUint_snoc [OF this, of "n mod 10"] False
    have "parseUint 0 (nat_digits n) = Some (int (n div 10) * 10 + int (n mod 10))" by (subst nat_digits.simps) simp
    moreover have "int (n div 10) * 10 + int (n mod 10) = int n" by presburger
    ultimately show ?thesis by (simp only:)
  qed
qed

lemma nat_digits_head: "\<exists>k cs. k < 10 \<and> nat_digits n = char_of (48 + k :: nat) # cs"
proof (induction n rule: nat_digits.induct)
  case (1 n)
  then show ?case by (cases "n < 10"; subst nat_digits.simps) fastforce+
qed

lemma digit_no_sign: "k < 10 \<Longrightarrow> (of_char c :: int) < 48 \<Longrightarrow> char_of (48 + k :: nat) \<noteq> c"
  using isDigit_char(1) [of k] by (auto simp: isDigit_def)

lemma Atoi_Itoa: "0 \<le> i \<Longrightarrow> i < 2 ^ 62 \<Longrightarrow> Atoi (Itoa i) = i"
proof -
  assume i: "0 \<le> i" "i < 2 ^ 62"
  obtain k cs where k: "k < 10" "nat_digits (nat i) = char_of (48 + k :: nat) # cs" using nat_digits_head by blast
  have "\<not> HasPrefix (nat_digits (nat i)) ''-''" "\<not> HasPrefix (nat_digits (nat i)) ''+''"
    using digit_no_sign [OF k(1)] by (simp_all add: k(2))
  moreover have "parseUint 0 (nat_digits (nat i)) = Some i"
    using i parseUint_digits [of "nat i"] by (simp add: nat_less_iff)
  moreover have "nat_digits (nat i) \<noteq> []" by (simp add: k(2))
  ultimately show "Atoi (Itoa i) = i" using i by (simp add: Atoi_def Itoa_def)
qed

section \<open>Paging\<close>

lemma paginate_page:
  assumes "p < 2 ^ 57"
  shows "paginate items (int p + 1) uiPageSize = Some (take 20 (drop (20 * p) items))"
proof -
  have start: "wrap64 (wrap64 (int p + 1 - 1) * uiPageSize) = int (20 * p)"
    using assms by (simp add: wrap64_id uiPageSize_def)
  have stop: "wrap64 (int (20 * p) + uiPageSize) = int (20 * p + 20)"
    using assms by (simp add: wrap64_id uiPageSize_def)
  show ?thesis
    unfolding paginate_def Let_def start stop
    by (cases "length items \<le> 20 * p + 20")
       (auto simp del: of_nat_add of_nat_mult simp: nat_int nat_diff_distrib)
qed

lemma concat_pages: "concat (map (\<lambda>p. take k (drop (k * p) xs)) [0..<n]) = take (k * n) xs"
  by (induction n) (simp_all add: take_add [symmetric] add.commute)

lemma totalPages_nat: "totalPages (int n) uiPageSize = int (if n = 0 then 1 else (n + 19) div 20)"
  by (simp add: totalPages_def uiPageSize_def zdiv_int add.commute)

lemma pages_cover: "length xs \<le> 20 * (if length xs = 0 then 1 else (length xs + 19) div 20)"
  by auto

text \<open>The pages of a list, from the first to the last.\<close>

lemma pages_complete:
  assumes "length items < 2 ^ 57"
  shows "\<exists>pages. map (\<lambda>p. paginate items p uiPageSize) [1 .. totalPages (int (length items)) uiPageSize] = map Some pages \<and>
    concat pages = items \<and> list_all (\<lambda>page. length page \<le> 20) pages"
proof -
  define n where "n = (if length items = 0 then 1 else (length items + 19) div 20)"
  let ?page = "\<lambda>p. take 20 (drop (20 * p) items)"
  have "totalPages (int (length items)) uiPageSize = int n" by (simp add: totalPages_nat n_def)
  moreover have "[1 .. int n] = map (\<lambda>p. int p + 1) [0..<n]"
    by (rule nth_equalityI) auto
  moreover have "n < 2 ^ 57" using assms by (auto simp: n_def)
  then have "map (\<lambda>p. paginate items (int p + 1) uiPageSize) [0..<n] = map Some (map ?page [0..<n])"
    by (simp add: paginate_page)
  moreover have "concat (map ?page [0..<n]) = items"
    using pages_cover [of items] by (simp add: concat_pages n_def)
  ultimately show ?thesis
    by (intro exI [of _ "map ?page [0..<n]"]) (simp add: comp_def list_all_iff)
qed

lemma pageParam_Itoa: "1 \<le> i \<Longrightarrow> i < 2 ^ 62 \<Longrightarrow> pageParam ((''page'', Itoa i) # q) = i"
  by (simp add: pageParam_def Atoi_Itoa)

lemma hayMatches_page [simp]: "hayMatches ((''page'', t) # q) hay = hayMatches q hay"
  by (simp add: hayMatches_def)

lemma paginate_maxInt64: "paginate items maxInt64 uiPageSize = None"
proof -
  have "wrap64 (wrap64 (maxInt64 - 1) * uiPageSize) = - 40" "wrap64 (- 40 + uiPageSize) = - 20" by code_simp+
  then show ?thesis unfolding paginate_def Let_def by simp
qed

section \<open>Properties\<close>

text \<open>
  C39. Going through the pages of the agents table from the first to the last shows every agent
  that matches the search exactly once, in the order of the list, at most twenty on a page.
\<close>

theorem agents_pages_complete:
  assumes "\<And>files. parse files = None"
    "matching = filter (\<lambda>a. hayMatches q (agentFields a)) (ListAgents drv db)" "length matching < 2 ^ 57"
  shows "\<exists>tables. map (\<lambda>p. HandlePartialAgents parse drv ((''page'', Itoa p) # q) db)
       [1 .. totalPages (int (length matching)) uiPageSize] =
     map (\<lambda>t. Some (Html htmlHeaders ''agents-table.html'' (AgentsTable t))) tables \<and>
     map urAgent (concat (map tdRows tables)) = matching \<and> list_all (\<lambda>t. length (tdRows t) \<le> 20) tables"
proof -
  let ?n = "totalPages (int (length matching)) uiPageSize"
  let ?row = "agentUiRow (ListDeployments drv db)"
  let ?count = "\<lambda>st. length (filter (\<lambda>a. aStatus a = st) matching)"
  define table where "table = (\<lambda>p rows. \<lparr>tdRows = map ?row rows, tdQuery = smap_get q ''q'', tdPage = p,
     tdTotalPages = ?n, tdTotal = length (ListAgents drv db), tdShown = length matching,
     tdConnected = ?count AgentStatusConnected, tdDeploying = ?count AgentStatusDeploying\<rparr>)"
  obtain pages where pages: "map (\<lambda>p. paginate matching p uiPageSize) [1 .. ?n] = map Some pages"
      "concat pages = matching" "list_all (\<lambda>page. length page \<le> 20) pages"
    using pages_complete [OF assms(3)] by blast
  have n: "?n < 2 ^ 62" using assms(3) by (auto simp: totalPages_nat)
  have len: "length pages = length [1 .. ?n]" using arg_cong [OF pages(1), of length] by simp
  have "HandlePartialAgents parse drv ((''page'', Itoa ([1 .. ?n] ! i)) # q) db =
      Some (Html htmlHeaders ''agents-table.html'' (AgentsTable (table ([1 .. ?n] ! i) (pages ! i))))"
    if "i < length pages" for i
  proof -
    have "[1 .. ?n] ! i \<in> set [1 .. ?n]" using that len by simp
    then have "pageParam ((''page'', Itoa ([1 .. ?n] ! i)) # q) = [1 .. ?n] ! i"
      using n by (intro pageParam_Itoa) auto
    moreover have "paginate matching ([1 .. ?n] ! i) uiPageSize = Some (pages ! i)"
      using arg_cong [OF pages(1), of "\<lambda>xs. xs ! i"] that len by simp
    ultimately show ?thesis
      by (simp add: HandlePartialAgents_def StatusSnapshot_def assms(1) assms(2) [symmetric] renderPartialTemplate_def
          table_def del: filter_filter)
  qed
  then have "map (\<lambda>p. HandlePartialAgents parse drv ((''page'', Itoa p) # q) db) [1 .. ?n] =
      map (\<lambda>t. Some (Html htmlHeaders ''agents-table.html'' (AgentsTable t))) (map2 table [1 .. ?n] pages)"
    using len by (intro nth_equalityI) simp_all
  moreover have "map tdRows (map2 table [1 .. ?n] pages) = map (map ?row) pages"
    using len by (intro nth_equalityI) (simp_all add: table_def)
  moreover have "map urAgent (concat (map (map ?row) pages)) = matching"
    using pages(2) by (simp add: map_concat comp_def agentUiRow_def)
  moreover have "list_all (\<lambda>t. length (tdRows t) \<le> 20) (map2 table [1 .. ?n] pages)"
    using pages(3) len by (auto simp: list_all_length table_def)
  ultimately show ?thesis by (intro exI [of _ "map2 table [1 .. ?n] pages"]) simp
qed

theorem agents_pages_complete_witness:
  "\<exists>tables. map (\<lambda>p. HandlePartialAgents (\<lambda>files. None) okDrv [(''page'', Itoa p)] emptyDB) [1] =
     map (\<lambda>t. Some (Html htmlHeaders ''agents-table.html'' (AgentsTable t))) tables \<and>
     map urAgent (concat (map tdRows tables)) = []"
proof -
  have none: "filter (\<lambda>a. hayMatches [] (agentFields a)) (ListAgents okDrv emptyDB) = []"
    by (simp add: ListAgents_def emptyDB_def)
  have small: "length ([] :: gotime agent list) < 2 ^ 57" by simp
  have one: "[1 .. totalPages (int (length ([] :: gotime agent list))) uiPageSize] = [1]"
    by (simp add: totalPages_def)
  obtain tables where "map (\<lambda>p. HandlePartialAgents (\<lambda>files. None) okDrv [(''page'', Itoa p)] emptyDB) [1] =
      map (\<lambda>t. Some (Html htmlHeaders ''agents-table.html'' (AgentsTable t))) tables"
      "map urAgent (concat (map tdRows tables)) = []"
    using agents_pages_complete [of "\<lambda>files. None" "[]" "[]" okDrv emptyDB, OF refl none [symmetric] small, unfolded one]
    by blast
  then show ?thesis by blast
qed

text \<open>
  A page number beyond the range of the machine integers brings the handler down: the
  parser returns the largest integer, the start of the page wraps to a negative number and the
  slice panics, whatever the table holds.
\<close>

lemma huge_page_panics:
  "pageParam [(''page'', ''99999999999999999999'')] = maxInt64 \<and>
   paginate items maxInt64 uiPageSize = None \<and>
   HandlePartialVault parse drv [(''page'', ''99999999999999999999'')] db = None"
proof -
  have p: "pageParam [(''page'', ''99999999999999999999'')] = maxInt64" by code_simp
  then show ?thesis by (simp add: HandlePartialVault_def tablePage_def paginate_maxInt64 Let_def)
qed

end
