(* ===== verification/Server.thy ===== *)
theory Server
  imports Artifacts Ui
begin

text \<open>
  The assembled HTTP server: \<^verbatim>\<open>server/server.go\<close>. \<open>patterns\<close> are the routes
  \<^verbatim>\<open>NewServer\<close> registers, \<open>muxHandler\<close> is what \<^verbatim>\<open>http.ServeMux\<close> makes of them:
  a path that is not clean is redirected to the clean one, a path whose subtree alone is
  registered to the path with a slash, and of the patterns that match the longest wins.
  \<open>serve\<close> is one request through the middleware and its handler; a handler that panics gives
  no response. The server's life is the transition system of its requests, the messages of the
  agents, the ends of their connections and the turns of the write pumps, each a step.
\<close>

section \<open>Routes\<close>

datatype route =
    RHealthz | RRegister | RUILogin | RWs | RRefresh | RStatus | RAssets
  | RHomeUI | RAgentsUI | RVaultUI | RPlaybooksUI | RDeploymentsUI | RArtifactsUI
  | RPlaybooks | RAgents | RDeployments | RArtifacts | RSecrets
  | RPartialHomeStats | RPartialAgents | RPartialArtifacts | RPartialDeployments | RPartialDeploymentLogs
  | RPartialPlaybooks | RPartialVault

definition patterns :: "(string \<times> route) list" where
  "patterns =
    [(''/healthz'', RHealthz),
     (''/api/v1/register'', RRegister),
     (''/api/v1/ui/login'', RUILogin),
     (''/api/v1/ws'', RWs),
     (''/api/v1/token/refresh'', RRefresh),
     (''/api/v1/status'', RStatus),
     (''/ui/assets/'', RAssets),
     (''/ui'', RHomeUI), (''/ui/'', RHomeUI),
     (''/ui/agents'', RAgentsUI), (''/ui/vault'', RVaultUI), (''/ui/playbooks'', RPlaybooksUI),
     (''/ui/deployments'', RDeploymentsUI), (''/ui/artifacts'', RArtifactsUI), (''/ui/artifacts/'', RArtifactsUI),
     (''/api/v1/playbooks'', RPlaybooks), (''/api/v1/playbooks/'', RPlaybooks),
     (''/api/v1/agents'', RAgents), (''/api/v1/agents/'', RAgents),
     (''/api/v1/deployments'', RDeployments), (''/api/v1/deployments/'', RDeployments),
     (''/artifacts'', RArtifacts), (''/artifacts/'', RArtifacts),
     (''/api/v1/secrets'', RSecrets), (''/api/v1/secrets/'', RSecrets),
     (''/ui/partials/home-stats'', RPartialHomeStats), (''/ui/partials/agents'', RPartialAgents),
     (''/ui/partials/artifacts'', RPartialArtifacts), (''/ui/partials/deployments'', RPartialDeployments),
     (''/ui/partials/deployments/'', RPartialDeploymentLogs), (''/ui/partials/playbooks'', RPartialPlaybooks),
     (''/ui/partials/vault'', RPartialVault)]"

definition matchesPattern :: "string \<Rightarrow> string \<Rightarrow> bool" where
  "matchesPattern path pat \<longleftrightarrow> (if HasSuffix pat ''/'' then HasPrefix path pat else path = pat)"

text \<open>The longest of the patterns that match.\<close>

fun longestMatch :: "string \<Rightarrow> (string \<times> route) list \<Rightarrow> (string \<times> route) option" where
  "longestMatch path [] = None"
| "longestMatch path ((pat, rt) # ps) =
     (case longestMatch path ps of
        Some (pat', rt') \<Rightarrow> if matchesPattern path pat \<and> length pat' < length pat then Some (pat, rt) else Some (pat', rt')
      | None \<Rightarrow> if matchesPattern path pat then Some (pat, rt) else None)"

definition cleanPath :: "string \<Rightarrow> string" where
  "cleanPath p = (if p = [] then ''/'' else
     let p' = (if hd p = CHR ''/'' then p else CHR ''/'' # p); np = Clean p'
     in if last p' = CHR ''/'' \<and> np \<noteq> ''/'' then np @ ''/'' else np)"

datatype routed = Redirect string | Found route | NoRoute

definition muxHandler :: "string \<Rightarrow> string \<Rightarrow> routed" where
  "muxHandler meth path0 =
     (let path = (if meth = ''CONNECT'' then path0 else cleanPath path0);
          best = longestMatch path patterns
      in if map_option fst best \<noteq> Some path \<and> \<not> HasSuffix path ''/'' \<and>
            map_option fst (longestMatch (path @ ''/'') patterns) = Some (path @ ''/'')
         then Redirect (path @ ''/'')
         else if path \<noteq> path0 then Redirect path
         else (case best of None \<Rightarrow> NoRoute | Some (pat, rt) \<Rightarrow> Found rt))"

section \<open>Serving a request\<close>

text \<open>
  What surrounds the server: the digest, the JWT library, the database driver, the file system,
  the clock, the random bytes a request draws, the YAML library, the templates, the embedded
  files and the status \<^verbatim>\<open>ServeMux\<close> redirects with.
\<close>

record env =
  vSha :: digest
  vJwt :: jwt_lib
  vDrv :: driver
  vFs :: fs
  vClk :: clock
  vRnd :: "8 word list"
  vTokenRnd :: "8 word list"
  vTokenBytes :: "8 word list"
  vFromYAML :: "string \<Rightarrow> string + playbook"
  vToYAML :: "playbook \<Rightarrow> string + string"
  vParse :: "string list \<Rightarrow> err"
  vUiFS :: "string \<rightharpoonup> string"
  vRedirectStatus :: int

text \<open>The body of a request as each decoder sees it, and the outcome of the upgrade.\<close>

record server_input =
  siRegistration :: "string + registration_request"
  siPassword :: "string + string"
  siReadErr :: err
  siPayload :: "string + playbook_payload"
  siAgentID :: "string + string"
  siPatch :: "string + string \<times> string"
  siCommand :: "string + string \<times> string"
  siSecret :: "string + string"
  siArtifact :: artifact_input
  siAcceptErr :: err

datatype body =
    BOk
  | BRedirect string
  | BSwitching string
  | BNothing
  | BRegistered "string \<times> string"
  | BLogin string
  | BToken string
  | BStatus "gotime agent list \<times> deployment_state list"
  | BPlaybook playbook_body
  | BAgent agent_body
  | BDeployment deployment_body
  | BSecret secret_body
  | BArtifact artifact_body
  | BPage html
  | BPartial html
  | BPanic

definition mapBody :: "('a \<Rightarrow> 'b) \<Rightarrow> 'a response \<Rightarrow> 'b response" where
  "mapBody f rsp = \<lparr>rspStatus = rspStatus rsp, rspChallenge = rspChallenge rsp, rspBody = map_sum id f (rspBody rsp)\<rparr>"

text \<open>A panic of the handler: \<^verbatim>\<open>net/http\<close> closes the connection without a response.\<close>

definition panicked :: "body response" where "panicked = writeJSON 0 BPanic"

text \<open>The response and the next state of a handler, with its body among those of the server.\<close>

definition via :: "('a \<Rightarrow> body) \<Rightarrow> 'a response \<times> 'w \<Rightarrow> body response \<times> 'w" where
  "via f = map_prod (mapBody f) id"

record server =
  svWorld :: world
  svDisk :: disk

text \<open>The status of a rendered page.\<close>

fun htmlStatus :: "html \<Rightarrow> int" where
  "htmlStatus (HttpError code msg) = code"
| "htmlStatus _ = 200"

abbreviation page :: "html \<Rightarrow> body response" where
  "page h \<equiv> writeJSON (htmlStatus h) (BPage h)"

abbreviation partial :: "html \<Rightarrow> body response" where
  "partial h \<equiv> writeJSON (htmlStatus h) (BPartial h)"

text \<open>The handlers behind the root middleware.\<close>

definition rootHandler :: "env \<Rightarrow> handler \<Rightarrow> route \<Rightarrow> server_input \<Rightarrow> request \<Rightarrow> world \<Rightarrow> body response \<times> world" where
  "rootHandler v e rt inp r w =
     (let drv = vDrv v; clk = (\<lambda>i. vClk v (1 + i)); q = aiQuery (siArtifact inp); db = wDB w;
          html = (\<lambda>h. (partial h, w));
          htmlOrPanic = (\<lambda>h. (case h of None \<Rightarrow> panicked | Some h \<Rightarrow> partial h, w))
      in case rt of
           RStatus \<Rightarrow> via BStatus (HandleStatus drv r w)
         | RPlaybooks \<Rightarrow> via BPlaybook (HandleRootPlaybooks drv clk (vRnd v) (vToYAML v) e r
             (decodePlaybookWritePayload (vFromYAML v) (siReadErr inp) (siPayload inp)) (siAgentID inp) w)
         | RAgents \<Rightarrow> via BAgent (HandleRootAgents drv clk (vRnd v) r (siPatch inp) (siCommand inp) w)
         | RDeployments \<Rightarrow> via BDeployment (HandleRootDeployments drv r w)
         | RSecrets \<Rightarrow> via BSecret (HandleSecrets drv r (siSecret inp) w)
         | RPartialHomeStats \<Rightarrow> html (HandlePartialHomeStats (vParse v) drv db)
         | RPartialAgents \<Rightarrow> htmlOrPanic (HandlePartialAgents (vParse v) drv q db)
         | RPartialArtifacts \<Rightarrow> htmlOrPanic (HandlePartialArtifacts (vParse v) drv q db)
         | RPartialDeployments \<Rightarrow> htmlOrPanic (HandlePartialDeployments (vParse v) drv q db)
         | RPartialDeploymentLogs \<Rightarrow> html (HandlePartialDeploymentLogs (vParse v) drv (rPath r) db)
         | RPartialPlaybooks \<Rightarrow> htmlOrPanic (HandlePartialPlaybooks (vParse v) drv q db)
         | _ \<Rightarrow> htmlOrPanic (HandlePartialVault (vParse v) drv q db))"

definition serveWS :: "env \<Rightarrow> handler \<Rightarrow> server_input \<Rightarrow> request \<Rightarrow> world \<Rightarrow> body response \<times> world" where
  "serveWS v e inp r w =
     (case openWS (vSha v) (vDrv v) (vClk v) (vRnd v) e r (siAcceptErr inp) w of
        Refused rsp \<Rightarrow> (mapBody (\<lambda>u. BNothing) rsp, w)
      | NotUpgraded \<Rightarrow> (writeJSON 400 BNothing, w)
      | Panicked \<Rightarrow> (panicked, w)
      | Opened k w' \<Rightarrow> (writeJSON 101 (BSwitching k), w'))"

definition serveRegister :: "env \<Rightarrow> handler \<Rightarrow> server_input \<Rightarrow> request \<Rightarrow> world \<Rightarrow> body response \<times> world" where
  "serveRegister v e inp r w = map_prod (mapBody BRegistered) (withDB w)
     (HandleAgentRegister (vSha v) (vDrv v) (vClk v) (vRnd v) (vTokenRnd v) (vTokenBytes v) e r (siRegistration inp) (wDB w))"

definition serveRefresh :: "env \<Rightarrow> handler \<Rightarrow> request \<Rightarrow> world \<Rightarrow> body response \<times> world" where
  "serveRefresh v e = RequireAgentAuth (vSha v) (vDrv v) (vClk v) (\<lambda>r w. map_prod (mapBody BToken) (withDB w)
     (HandleTokenRefresh (vSha v) (vDrv v) (\<lambda>i. vClk v (2 + i)) (vTokenBytes v) (vTokenRnd v) e r (wDB w)))"

definition serveRoute :: "env \<Rightarrow> handler \<Rightarrow> route \<Rightarrow> server_input \<Rightarrow> request \<Rightarrow> server \<Rightarrow> body response \<times> server" where
  "serveRoute v e rt inp r s =
     (let w = svWorld s; q = aiQuery (siArtifact inp);
          pure = (\<lambda>rsp. (rsp, s)); on = (\<lambda>(rsp, w'). (rsp, s\<lparr>svWorld := w'\<rparr>))
      in case rt of
           RHealthz \<Rightarrow> pure (writeJSON 200 BOk)
         | RRegister \<Rightarrow> on (serveRegister v e inp r w)
         | RUILogin \<Rightarrow> pure (mapBody BLogin (HandleUILogin (vJwt v) (vClk v) e r (siPassword inp)))
         | RWs \<Rightarrow> on (serveWS v e inp r w)
         | RRefresh \<Rightarrow> on (serveRefresh v e r w)
         | RAssets \<Rightarrow> pure (page (ServeUIAsset (vUiFS v) (rPath r)))
         | RHomeUI \<Rightarrow> pure (page (HandleHomeUI (vParse v) q))
         | RAgentsUI \<Rightarrow> pure (page (HandleAgentsUI (vParse v) q))
         | RVaultUI \<Rightarrow> pure (page (HandleVaultUI (vParse v) q))
         | RPlaybooksUI \<Rightarrow> pure (page (HandlePlaybooksUI (vParse v) q))
         | RDeploymentsUI \<Rightarrow> pure (page (HandleDeploymentsUI (vParse v) q))
         | RArtifactsUI \<Rightarrow> pure (page (HandleArtifactsUI (vParse v) q))
         | RArtifacts \<Rightarrow> (let (rsp, d', w') = HandleArtifacts (vSha v) (vJwt v) (vDrv v) (vFs v) (vClk v) (vRnd v) e r (siArtifact inp)
                (svDisk s) w in (mapBody BArtifact rsp, \<lparr>svWorld = w', svDisk = d'\<rparr>))
         | _ \<Rightarrow> on (RequireRootAuth (vJwt v) (vClk v 0) e (rootHandler v e rt inp) r w))"

definition serve :: "env \<Rightarrow> handler \<Rightarrow> server_input \<Rightarrow> request \<Rightarrow> server \<Rightarrow> body response \<times> server" where
  "serve v e inp r s =
     (case muxHandler (rMethod r) (rPath r) of
        Redirect p \<Rightarrow> (writeJSON (vRedirectStatus v) (BRedirect p), s)
      | NoRoute \<Rightarrow> (writeError 404 ''404 page not found'', s)
      | Found rt \<Rightarrow> serveRoute v e rt inp r s)"

text \<open>The level a request is logged at.\<close>

definition logLevel :: "int \<Rightarrow> string \<Rightarrow> string" where
  "logLevel status path =
     (if status \<ge> 500 then ''error'' else if status \<ge> 400 then ''warn''
      else if path = ''/api/v1/ws'' then ''info'' else ''debug'')"

text \<open>\<^verbatim>\<open>dualAuth\<close>, which no route uses.\<close>

definition dualAuth ::
  "digest \<Rightarrow> jwt_lib \<Rightarrow> driver \<Rightarrow> clock \<Rightarrow> handler \<Rightarrow> (request \<Rightarrow> world \<Rightarrow> 'b response \<times> world) \<Rightarrow> request \<Rightarrow> world \<Rightarrow>
   'b response \<times> world" where
  "dualAuth sha jwt drv clk e next r w =
     (if rBasicAuth r \<noteq> None then RequireRootAuth jwt (clk 0) e next r w
      else RequireAgentAuth sha drv clk next r w)"

section \<open>The life of the server\<close>

inductive server_step :: "server \<Rightarrow> server \<Rightarrow> bool" where
  request: "server_step s (snd (serve v e inp r s))"
| message: "server_step s (s\<lparr>svWorld := handleWSMessage drv clk agentID env (svWorld s)\<rparr>)"
| disconnect: "server_step s (s\<lparr>svWorld := closeWS drv agentID (svWorld s)\<rparr>)"
| pump: "hub_step (wHub (svWorld s)) h \<Longrightarrow> server_step s (s\<lparr>svWorld := (svWorld s)\<lparr>wHub := h\<rparr>\<rparr>)"

definition initialServer :: "db \<Rightarrow> disk \<Rightarrow> server" where
  "initialServer db d = \<lparr>svWorld = \<lparr>wDB = db, wHub = NewHub, wCmds = NewCommandStore\<rparr>, svDisk = d\<rparr>"

definition server_inv :: "server \<Rightarrow> bool" where
  "server_inv s \<longleftrightarrow> world_inv (svWorld s)"

section \<open>Which route a path takes\<close>

lemma longestMatch_in: "longestMatch path ps = Some (pat, rt) \<Longrightarrow> (pat, rt) \<in> set ps \<and> matchesPattern path pat"
  by (induction path ps rule: longestMatch.induct) (auto split: option.splits if_splits)

lemma muxHandler_Found:
  assumes "muxHandler meth path = Found rt"
  obtains pat where "(pat, rt) \<in> set patterns" "matchesPattern path pat"
  using assms longestMatch_in [of path patterns]
  by (auto simp: muxHandler_def Let_def split: if_splits option.splits)

text \<open>The routes that can change something for a client without root credentials.\<close>

definition openRoute :: "route \<Rightarrow> bool" where
  "openRoute rt \<longleftrightarrow> rt \<in> {RRegister, RWs, RRefresh, RArtifacts}"

text \<open>Their paths.\<close>

definition openPath :: "string \<Rightarrow> bool" where
  "openPath path \<longleftrightarrow> path \<in> {''/api/v1/register'', ''/api/v1/ws'', ''/api/v1/token/refresh'', ''/artifacts''} \<or>
     HasPrefix path ''/artifacts/''"

lemma open_patterns: "filter (\<lambda>(pat, rt). openRoute rt) patterns =
  [(''/api/v1/register'', RRegister), (''/api/v1/ws'', RWs), (''/api/v1/token/refresh'', RRefresh),
   (''/artifacts'', RArtifacts), (''/artifacts/'', RArtifacts)]"
  by (simp add: patterns_def openRoute_def)

lemma openRoute_path:
  assumes "muxHandler meth path = Found rt" "openRoute rt"
  shows "openPath path"
proof -
  obtain pat where pat: "(pat, rt) \<in> set patterns" "matchesPattern path pat" using muxHandler_Found [OF assms(1)] .
  then have "(pat, rt) \<in> set (filter (\<lambda>(pat, rt). openRoute rt) patterns)" using assms(2) by simp
  then have "pat \<in> {''/api/v1/register'', ''/api/v1/ws'', ''/api/v1/token/refresh'', ''/artifacts'', ''/artifacts/''}"
    unfolding open_patterns by auto
  moreover have "\<not> HasSuffix ''/api/v1/register'' ''/''" "\<not> HasSuffix ''/api/v1/ws'' ''/''"
    "\<not> HasSuffix ''/api/v1/token/refresh'' ''/''" "\<not> HasSuffix ''/artifacts'' ''/''" "HasSuffix ''/artifacts/'' ''/''"
    by (simp_all add: HasSuffix_def)
  ultimately show ?thesis using pat(2) unfolding matchesPattern_def openPath_def by fastforce
qed

text \<open>What only root may see.\<close>

fun rootData :: "body \<Rightarrow> bool" where
  "rootData (BStatus x) = True"
| "rootData (BPlaybook x) = True"
| "rootData (BAgent x) = True"
| "rootData (BDeployment x) = True"
| "rootData (BSecret x) = True"
| "rootData (BPartial x) = True"
| "rootData _ = False"

section \<open>The invariant of the server\<close>

lemma snd_via [simp]: "snd (via f x) = snd x"
  by (simp add: via_def)

lemma HandleStatus_world [simp]: "snd (HandleStatus drv r w) = w"
  by (simp add: HandleStatus_def)

lemma rootHandler_inv: "world_inv w \<Longrightarrow> world_inv (snd (rootHandler v e rt inp r w))"
  by (cases rt) (simp_all add: rootHandler_def Let_def inv_intros)

lemma serveRegister_inv: "world_inv w \<Longrightarrow> world_inv (snd (serveRegister v e inp r w))"
  by (simp add: serveRegister_def world_inv_def HandleAgentRegister_inv)

lemma serveRefresh_inv: "world_inv w \<Longrightarrow> world_inv (snd (serveRefresh v e r w))"
  unfolding serveRefresh_def
  by (rule agent_guard.guard_inv) (simp_all add: world_inv_def HandleTokenRefresh_inv)

lemma serveWS_inv: "world_inv w \<Longrightarrow> world_inv (snd (serveWS v e inp r w))"
  by (auto simp: serveWS_def intro: openWS_inv split: ws_open.split)

lemma rootRoute_inv:
  "world_inv w \<Longrightarrow> world_inv (snd (RequireRootAuth jwt now e (rootHandler v e rt inp) r w))"
  by (rule root_guard.guard_inv) (simp_all add: rootHandler_inv)

lemma serveRoute_inv: "server_inv s \<Longrightarrow> server_inv (snd (serveRoute v e rt inp r s))"
  using HandleArtifacts_inv [of "svWorld s"]
  by (cases rt) (simp_all add: serveRoute_def server_inv_def Let_def case_prod_beta serveRegister_inv serveRefresh_inv
      serveWS_inv rootRoute_inv)

lemma server_step_inv: "server_step s s' \<Longrightarrow> server_inv s \<Longrightarrow> server_inv s'"
proof (induction rule: server_step.induct)
  case (request s v e inp r)
  then show ?case by (simp add: serve_def serveRoute_inv split: routed.split)
next
  case (pump s h)
  then show ?case using hub_step_inv by (simp add: server_inv_def world_inv_def)
qed (simp_all add: server_inv_def handleWSMessage_inv closeWS_inv)

text \<open>
  The server is a transition system over any database that satisfies the invariant, the empty
  one in particular.
\<close>

lemma initial_inv: "db_inv db \<Longrightarrow> server_inv (initialServer db d)"
  by (simp add: server_inv_def initialServer_def world_inv_def)

interpretation server_system: transition_system "initialServer emptyDB d" server_step server_inv for d
  by unfold_locales (simp add: initial_inv, rule server_step_inv)

definition server_reach :: "disk \<Rightarrow> server \<Rightarrow> bool" where
  "server_reach d s \<longleftrightarrow> server_step\<^sup>*\<^sup>* (initialServer emptyDB d) s"

section \<open>Bodies of responses\<close>

lemma mapBody_InrD: "rspBody (mapBody f rsp) = Inr b \<Longrightarrow> \<exists>x. b = f x"
  by (cases "rspBody rsp") (auto simp: mapBody_def)

lemma via_InrD: "rspBody (fst (via f x)) = Inr b \<Longrightarrow> \<exists>y. b = f y"
  by (auto simp: via_def dest: mapBody_InrD)

lemma not_mapBody_panic: "(\<And>x. f x \<noteq> BPanic) \<Longrightarrow> rspBody (mapBody f rsp) \<noteq> Inr BPanic"
  using mapBody_InrD by metis

lemma paginate_total: "1 \<le> p \<Longrightarrow> p < 2 ^ 57 \<Longrightarrow> paginate items p uiPageSize \<noteq> None"
  using paginate_page [of "nat (p - 1)" items] by (simp add: nat_less_iff)

lemma pageParam_pos: "1 \<le> pageParam q"
  by (simp add: pageParam_def Let_def)

lemma tablePage_total: "pageParam q < 2 ^ 57 \<Longrightarrow> tablePage q items n \<noteq> None"
  using paginate_total [OF pageParam_pos] by (simp add: tablePage_def)

lemma rootHandler_panic:
  assumes "rspBody (fst (rootHandler v e rt inp r w)) = Inr BPanic"
  shows "2 ^ 57 \<le> pageParam (aiQuery (siArtifact inp))"
proof (rule ccontr)
  assume "\<not> ?thesis"
  then have "pageParam (aiQuery (siArtifact inp)) < 2 ^ 57" by simp
  note total = tablePage_total [OF this] paginate_total [OF pageParam_pos this]
  have tables: "HandlePartialAgents p drv (aiQuery (siArtifact inp)) db \<noteq> None" "HandlePartialArtifacts p drv (aiQuery (siArtifact inp)) db \<noteq> None"
    "HandlePartialDeployments p drv (aiQuery (siArtifact inp)) db \<noteq> None" "HandlePartialPlaybooks p drv (aiQuery (siArtifact inp)) db \<noteq> None"
    "HandlePartialVault p drv (aiQuery (siArtifact inp)) db \<noteq> None" for p drv db
    using total by (simp_all add: HandlePartialAgents_def HandlePartialArtifacts_def HandlePartialDeployments_def
        HandlePartialPlaybooks_def HandlePartialVault_def Let_def case_prod_beta)
  show False
    using assms tables [of "vParse v" "vDrv v" "wDB w"]
    by (cases rt) (auto simp: rootHandler_def Let_def writeJSON_def dest!: via_InrD split: option.splits)
qed

section \<open>A sample server\<close>

definition sampleEnv :: env where
  "sampleEnv = \<lparr>vSha = sampleSha, vJwt = noJwt, vDrv = okDrv, vFs = okFs, vClk = (\<lambda>i. 0), vRnd = [], vTokenRnd = [],
     vTokenBytes = [], vFromYAML = (\<lambda>y. Inl ''no YAML''), vToYAML = (\<lambda>p. Inl ''no YAML''), vParse = (\<lambda>files. None),
     vUiFS = Map.empty, vRedirectStatus = 301\<rparr>"

definition sampleInput :: "smap \<Rightarrow> server_input" where
  "sampleInput q = \<lparr>siRegistration = Inr sampleRegistration, siPassword = Inl ''EOF'', siReadErr = None, siPayload = Inl ''EOF'',
     siAgentID = Inl ''EOF'', siPatch = Inl ''EOF'', siCommand = Inl ''EOF'', siSecret = Inl ''EOF'',
     siArtifact = \<lparr>aiQuery = q, aiContentType = [], aiBody = [], aiReadErr = None\<rparr>, siAcceptErr = None\<rparr>"

lemma sample_routes:
  "muxHandler ''GET'' ''/ui/partials/vault'' = Found RPartialVault"
  "muxHandler ''GET'' ''/api/v1/secrets/KEY'' = Found RSecrets"
  "muxHandler ''GET'' ''/api/v1//secrets'' = Redirect ''/api/v1/secrets''"
  "muxHandler ''GET'' ''/ui/assets'' = Redirect ''/ui/assets/''"
  "muxHandler ''GET'' ''/ui/anything'' = Found RHomeUI"
  "muxHandler ''GET'' ''/api/v1/unknown'' = NoRoute"
  by code_simp+

lemma sampleRequest_anonymous: "\<not> isRootRequest noJwt now sampleHandler (sampleRequest\<lparr>rMethod := m, rPath := p\<rparr>)"
  by (simp add: isRootRequest_def sampleRequest_def HasPrefix_def)

section \<open>Properties\<close>

text \<open>
  C4. The server from its start on: after any requests, agent messages, disconnects and pump
  turns, with any failures of the database and the files, the tables and the hub satisfy their
  invariants, and an agent that connects never makes the server panic.
\<close>

theorem server_safe:
  assumes "server_reach d s"
  shows "db_inv (wDB (svWorld s)) \<and> hub_inv (wHub (svWorld s)) \<and>
    openWS sha drv clk rnd e r acceptErr (svWorld s) \<noteq> Panicked"
  using server_system.inv_reach [OF assms [unfolded server_reach_def]] openWS_no_panic [of "svWorld s"]
  by (auto simp: server_inv_def world_inv_def)

theorem server_safe_witness:
  "db_inv (wDB (svWorld (snd (serve sampleEnv sampleHandler (sampleInput []) (sampleRequest\<lparr>rPath := ''/api/v1/register''\<rparr>)
     (initialServer emptyDB Map.empty)))))"
proof -
  have "server_reach Map.empty (snd (serve sampleEnv sampleHandler (sampleInput []) (sampleRequest\<lparr>rPath := ''/api/v1/register''\<rparr>)
     (initialServer emptyDB Map.empty)))"
    unfolding server_reach_def by (rule r_into_rtranclp) (rule server_step.request)
  from server_safe [OF this] show ?thesis by blast
qed

text \<open>
  C5. Without root credentials a request changes nothing on any path but the registration, the
  agent socket, the token refresh and the artifacts, and nowhere does it see the status, a
  playbook, an agent, a deployment, a secret or a table of the UI.
\<close>

theorem guarded_paths:
  assumes "\<not> isRootRequest (vJwt v) (vClk v 0) e r"
  shows "(openPath (rPath r) \<or> snd (serve v e inp r s) = s) \<and>
    (\<forall>b. rspBody (fst (serve v e inp r s)) = Inr b \<longrightarrow> \<not> rootData b)"
proof (cases "muxHandler (rMethod r) (rPath r)")
  case (Found rt)
  have "snd (serveRoute v e rt inp r s) = s" if "\<not> openRoute rt"
    using that assms by (cases rt) (simp_all add: serveRoute_def Let_def openRoute_def RequireRootAuth_other)
  moreover have "\<not> rootData b" if "rspBody (fst (serveRoute v e rt inp r s)) = Inr b" for b
    using that assms
    by (cases rt) (auto simp: serveRoute_def Let_def RequireRootAuth_other writeError_def writeJSON_def
        serveRegister_def serveRefresh_def serveWS_def RequireAgentAuth_def panicked_def case_prod_beta
        dest!: mapBody_InrD split: sum.splits ws_open.splits)
  ultimately show ?thesis using openRoute_path [OF Found] Found by (auto simp: serve_def)
qed (auto simp: serve_def writeJSON_def writeError_def)

theorem guarded_paths_witness:
  "snd (serve sampleEnv sampleHandler (sampleInput []) (sampleRequest\<lparr>rMethod := ''GET'', rPath := ''/api/v1/secrets/KEY''\<rparr>)
     (initialServer emptyDB Map.empty)) = initialServer emptyDB Map.empty"
proof -
  have "\<not> isRootRequest (vJwt sampleEnv) (vClk sampleEnv 0) sampleHandler (sampleRequest\<lparr>rMethod := ''GET'', rPath := ''/api/v1/secrets/KEY''\<rparr>)"
    using sampleRequest_anonymous by (simp add: sampleEnv_def)
  from guarded_paths [OF this, of "sampleInput []" "initialServer emptyDB Map.empty"] show ?thesis
    by (simp add: openPath_def)
qed

text \<open>
  C40. The only requests that make the reachable server panic are those of root for a page of a
  table beyond any real table: agents, artifacts, registrations and every other request of a
  client are answered.
\<close>

theorem panics_only_on_huge_pages:
  assumes "server_reach d s" "rspBody (fst (serve v e inp r s)) = Inr BPanic"
  shows "isRootRequest (vJwt v) (vClk v 0) e r \<and> 2 ^ 57 \<le> pageParam (aiQuery (siArtifact inp))"
proof (cases "muxHandler (rMethod r) (rPath r)")
  case (Found rt)
  have inv: "world_inv (svWorld s)"
    using server_system.inv_reach [OF assms(1) [unfolded server_reach_def]] by (simp add: server_inv_def)
  have "rspBody (fst (RequireRootAuth (vJwt v) (vClk v 0) e (rootHandler v e rt inp) r (svWorld s))) = Inr BPanic"
    using assms(2) Found openWS_no_panic [OF inv]
    by (cases rt) (auto simp: serve_def serveRoute_def Let_def writeError_def writeJSON_def
        serveRegister_def serveRefresh_def serveWS_def RequireAgentAuth_def case_prod_beta
        dest!: mapBody_InrD split: sum.splits ws_open.splits)
  then show ?thesis
    using rootHandler_panic
    by (cases "isRootRequest (vJwt v) (vClk v 0) e r")
      (auto simp: RequireRootAuth_root RequireRootAuth_other writeError_def)
qed (use assms(2) in \<open>simp_all add: serve_def writeJSON_def writeError_def\<close>)

theorem panics_only_on_huge_pages_witness:
  "2 ^ 57 \<le> pageParam [(''page'', ''99999999999999999999'')]"
proof -
  let ?r = "rootRequest ''GET'' ''/ui/partials/vault''"
  let ?inp = "sampleInput [(''page'', ''99999999999999999999'')]"
  have q: "aiQuery (siArtifact ?inp) = [(''page'', ''99999999999999999999'')]" by (simp add: sampleInput_def)
  have "pageParam [(''page'', ''99999999999999999999'')] = maxInt64" by code_simp
  then have "HandlePartialVault p drv [(''page'', ''99999999999999999999'')] db = None" for p drv db
    by (simp add: HandlePartialVault_def tablePage_def paginate_maxInt64 Let_def)
  then have "rspBody (fst (serve sampleEnv sampleHandler ?inp ?r (initialServer emptyDB Map.empty))) = Inr BPanic"
    by (simp add: serve_def sample_routes serveRoute_def RequireRootAuth_root rootRequest_root rootHandler_def q
        sampleEnv_def panicked_def writeJSON_def Let_def)
  from panics_only_on_huge_pages [OF _ this, of Map.empty] show ?thesis
    by (simp add: q server_reach_def)
qed

end
