(* ===== verification/Identity.thy ===== *)
theory Identity
  imports Common_Types
begin

text \<open>
  The package \<^verbatim>\<open>agent/identity\<close>: what the agent finds out about its machine, on each of the
  three systems it is built for, and the identifier the server knows the machine by. What the
  package reads is a record \<open>machine\<close>: files, the output of commands (\<open>None\<close> for an error or
  the timeout of five seconds), the host name, the network interfaces, the executables on the
  path, and the attributes the \<^verbatim>\<open>plist\<close> library decodes on a Mac (\<open>None\<close> if the file cannot
  be opened or decoded; otherwise the marketing name of a model if its entry has one).
\<close>

datatype goos = Linux | Darwin | Windows

fun goosName :: "goos \<Rightarrow> string" where
  "goosName Linux = ''linux''"
| "goosName Darwin = ''darwin''"
| "goosName Windows = ''windows''"

record machine =
  mGOOS :: goos
  mGOARCH :: string
  mOsHostname :: string
  mOpen :: "string \<Rightarrow> string option"
  mOutput :: "string list \<Rightarrow> string option"
  mPlist :: "(string \<Rightarrow> string option) option"
  mInterfaces :: "(string \<times> string) list"
  mLookPath :: "string \<Rightarrow> bool"

record platform_info =
  piPlatform :: string
  piHostname :: string
  piModel :: string
  piVendor :: string
  piMetadata :: smap

section \<open>Values found in files and in the output of commands\<close>

text \<open>The value on a line, \<open>None\<close> where the loop goes on to the next line.\<close>

definition lineValue :: "string \<Rightarrow> string option" where
  "lineValue l =
     (let line = TrimSpace (Trim l [CHR 0x22]) in
      if line = [] then None
      else (let line' = (case Cut line (CHR ''='') of Some (k, rhs) \<Rightarrow> TrimSpace rhs | None \<Rightarrow> line) in
        if line' = [] then None
        else (let line'' = Trim line' [CHR 0x22, CHR '';''] in
          if Contains (ToLower line'') ''<class '' then None else Some line'')))"

fun firstLine :: "string list \<Rightarrow> string option" where
  "firstLine [] = None"
| "firstLine (l # ls) = (case lineValue l of Some v \<Rightarrow> Some v | None \<Rightarrow> firstLine ls)"

fun firstNonEmpty :: "string list \<Rightarrow> string" where
  "firstNonEmpty [] = []"
| "firstNonEmpty (v # vs) =
     (let s = TrimSpace v in
      if s = [] then firstNonEmpty vs
      else (case firstLine (Split s (CHR 0x0A)) of Some line \<Rightarrow> line | None \<Rightarrow> firstNonEmpty vs))"

definition cleanHardwareValue :: "string \<Rightarrow> string" where
  "cleanHardwareValue v =
     (let v' = Trim (TrimSpace v) [CHR 0x00] in
      if EqualFold v' ''unknown'' \<or> EqualFold v' ''none'' \<or> EqualFold v' ''not specified'' then [] else v')"

definition readFile :: "machine \<Rightarrow> string \<Rightarrow> string" where
  "readFile m path = (case mOpen m path of None \<Rightarrow> [] | Some content \<Rightarrow> TrimSpace content)"

definition runAndTrim :: "machine \<Rightarrow> string list \<Rightarrow> string" where
  "runAndTrim m cmd = (case mOutput m cmd of None \<Rightarrow> [] | Some out \<Rightarrow> TrimSpace out)"

section \<open>Linux\<close>

definition osReleaseLine :: "smap \<Rightarrow> string \<Rightarrow> smap" where
  "osReleaseLine vals l =
     (let line = TrimSpace l in
      if line = [] \<or> HasPrefix line ''#'' then vals
      else (case Cut line (CHR ''='') of
              None \<Rightarrow> vals
            | Some (k, v) \<Rightarrow> smap_set k (Trim v [CHR 0x22, CHR 0x27]) vals))"

definition parseOSRelease :: "machine \<Rightarrow> string \<Rightarrow> smap" where
  "parseOSRelease m path = (case mOpen m path of
      None \<Rightarrow> []
    | Some content \<Rightarrow> foldl osReleaseLine [] (Split content (CHR 0x0A)))"

definition osDescription_linux :: "machine \<Rightarrow> string" where
  "osDescription_linux m =
     (let vals = parseOSRelease m ''/etc/os-release'';
          pretty = smap_get vals ''PRETTY_NAME''; name = smap_get vals ''NAME''; version = smap_get vals ''VERSION''
      in if pretty \<noteq> [] then pretty
         else if name \<noteq> [] \<and> version \<noteq> [] then TrimSpace (name @ '' '' @ version)
         else if name \<noteq> [] then name
         else ''linux'')"

definition getModel_linux :: "machine \<Rightarrow> string" where
  "getModel_linux m = firstNonEmpty [readFile m ''/sys/class/dmi/id/product_name'',
     readFile m ''/sys/devices/virtual/dmi/id/product_name'', readFile m ''/proc/device-tree/model'']"

definition getVendor_linux :: "machine \<Rightarrow> string" where
  "getVendor_linux m = firstNonEmpty [readFile m ''/sys/class/dmi/id/sys_vendor'',
     readFile m ''/sys/devices/virtual/dmi/id/sys_vendor'']"

definition hardwareSerial_linux :: "machine \<Rightarrow> string" where
  "hardwareSerial_linux m =
     (let serial = cleanHardwareValue (readFile m ''/sys/class/dmi/id/product_serial'') in
      if serial \<noteq> [] then serial else cleanHardwareValue (readFile m ''/sys/class/dmi/id/chassis_serial''))"

definition vmGUID_linux :: "machine \<Rightarrow> string" where
  "vmGUID_linux m = cleanHardwareValue (firstNonEmpty [readFile m ''/sys/class/dmi/id/product_uuid'',
     readFile m ''/sys/hypervisor/uuid''])"

section \<open>macOS\<close>

definition getModel_darwin :: "machine \<Rightarrow> string" where
  "getModel_darwin m =
     (let model = firstNonEmpty [runAndTrim m [''sysctl'', ''-n'', ''hw.model'']] in
      if model = [] then ''unknown''
      else (case mPlist m of
              None \<Rightarrow> model
            | Some data \<Rightarrow> (case data model of
                  Some marketing \<Rightarrow> if marketing \<noteq> [] then marketing else model
                | None \<Rightarrow> model)))"

fun ioregLine :: "string \<Rightarrow> string list \<Rightarrow> string" where
  "ioregLine needle [] = []"
| "ioregLine needle (line # ls) =
     (let l = TrimSpace line in
      if l = [] then ioregLine needle ls
      else if \<not> Contains (ToLower l) needle then ioregLine needle ls
      else (case Cut l (CHR ''='') of
              None \<Rightarrow> ioregLine needle ls
            | Some (k, rhs) \<Rightarrow> Trim (TrimSpace rhs) [CHR 0x22, CHR '';'']))"

definition ioregValue :: "machine \<Rightarrow> string \<Rightarrow> string" where
  "ioregValue m key =
     (let out = runAndTrim m [''ioreg'', ''-rd1'', ''-c'', ''IOPlatformExpertDevice''] in
      if out = [] then [] else ioregLine (ToLower key) (Split out (CHR 0x0A)))"

definition osDescription_darwin :: "machine \<Rightarrow> string" where
  "osDescription_darwin m =
     (let name = runAndTrim m [''sw_vers'', ''-productName''];
          version = runAndTrim m [''sw_vers'', ''-productVersion'']
      in if name \<noteq> [] \<and> version \<noteq> [] then name @ '' '' @ version
         else if name \<noteq> [] then name
         else ''macOS'')"

section \<open>Windows\<close>

definition wmic :: "machine \<Rightarrow> string \<Rightarrow> string \<Rightarrow> string \<Rightarrow> string" where
  "wmic m alias property cim = firstNonEmpty
     [runAndTrim m [''wmic'', alias, ''get'', property, ''/value''],
      runAndTrim m [''powershell'', ''-NoProfile'', ''-Command'', cim]]"

definition getModel_windows :: "machine \<Rightarrow> string" where
  "getModel_windows m = wmic m ''computersystem'' ''model'' ''(Get-CimInstance Win32_ComputerSystem).Model''"

definition getVendor_windows :: "machine \<Rightarrow> string" where
  "getVendor_windows m = wmic m ''computersystem'' ''manufacturer'' ''(Get-CimInstance Win32_ComputerSystem).Manufacturer''"

definition hardwareSerial_windows :: "machine \<Rightarrow> string" where
  "hardwareSerial_windows m =
     cleanHardwareValue (wmic m ''bios'' ''serialnumber'' ''(Get-CimInstance Win32_BIOS).SerialNumber'')"

definition vmGUID_windows :: "machine \<Rightarrow> string" where
  "vmGUID_windows m =
     cleanHardwareValue (wmic m ''csproduct'' ''uuid'' ''(Get-CimInstance Win32_ComputerSystemProduct).UUID'')"

definition osDescription_windows :: "machine \<Rightarrow> string" where
  "osDescription_windows m =
     (let caption = TrimPrefix (wmic m ''os'' ''caption'' ''(Get-CimInstance Win32_OperatingSystem).Caption'') ''Microsoft ''
      in if caption \<noteq> [] then caption else ''windows'')"

section \<open>The system the agent is built for\<close>

definition getHostname :: "machine \<Rightarrow> string" where
  "getHostname m =
     (let hostname = (if mOsHostname m = [] then ''unknown'' else mOsHostname m)
      in case mGOOS m of Darwin \<Rightarrow> TrimSuffix hostname ''.local'' | _ \<Rightarrow> hostname)"

definition getModel :: "machine \<Rightarrow> string" where
  "getModel m = (case mGOOS m of Linux \<Rightarrow> getModel_linux m | Darwin \<Rightarrow> getModel_darwin m | Windows \<Rightarrow> getModel_windows m)"

definition getVendor :: "machine \<Rightarrow> string" where
  "getVendor m = (case mGOOS m of Linux \<Rightarrow> getVendor_linux m | Darwin \<Rightarrow> ''Apple'' | Windows \<Rightarrow> getVendor_windows m)"

definition hardwareSerial :: "machine \<Rightarrow> string" where
  "hardwareSerial m = (case mGOOS m of
      Linux \<Rightarrow> hardwareSerial_linux m
    | Darwin \<Rightarrow> cleanHardwareValue (ioregValue m ''IOPlatformSerialNumber'')
    | Windows \<Rightarrow> hardwareSerial_windows m)"

definition vmGUID :: "machine \<Rightarrow> string" where
  "vmGUID m = (case mGOOS m of
      Linux \<Rightarrow> vmGUID_linux m
    | Darwin \<Rightarrow> cleanHardwareValue (ioregValue m ''IOPlatformUUID'')
    | Windows \<Rightarrow> vmGUID_windows m)"

definition osDescription :: "machine \<Rightarrow> string" where
  "osDescription m = (case mGOOS m of
      Linux \<Rightarrow> osDescription_linux m | Darwin \<Rightarrow> osDescription_darwin m | Windows \<Rightarrow> osDescription_windows m)"

definition shellCandidates :: "goos \<Rightarrow> (string \<times> string) list" where
  "shellCandidates os = (case os of
      Windows \<Rightarrow> [(''bash'', ''bash''), (''pwsh'', ''pwsh''), (''powershell'', ''powershell.exe''), (''cmd'', ''cmd.exe'')]
    | _ \<Rightarrow> [(''bash'', ''bash''), (''sh'', ''sh''), (''pwsh'', ''pwsh'')])"

definition DetectShells :: "machine \<Rightarrow> string list" where
  "DetectShells m = map fst (filter (\<lambda>(name, exe). mLookPath m exe) (shellCandidates (mGOOS m)))"

section \<open>The identifier of the machine\<close>

definition detectPlatform :: "machine \<Rightarrow> string" where
  "detectPlatform m = (case mGOOS m of Darwin \<Rightarrow> PlatformMac | Windows \<Rightarrow> PlatformWindows | Linux \<Rightarrow> PlatformLinux)"

definition vmMarkers :: "string list" where
  "vmMarkers = [''vmware'', ''virtualbox'', ''kvm'', ''qemu'', ''xen'', ''hyper-v'', ''virtual machine'',
     ''microsoft corporation'', ''amazon ec2'', ''google compute'', ''openstack'', ''parallels'']"

definition isLikelyVM :: "smap \<Rightarrow> bool" where
  "isLikelyVM meta =
     (let v = ToLower (TrimSpace (smap_get meta ''vendor'')) @ '' '' @ ToLower (TrimSpace (smap_get meta ''model''))
      in list_ex (Contains v) vmMarkers)"

definition virtualInterface :: "string \<Rightarrow> bool" where
  "virtualInterface name \<longleftrightarrow> HasPrefix name ''lo'' \<or> HasPrefix name ''veth'' \<or> HasPrefix name ''docker'' \<or>
     HasPrefix name ''virbr'' \<or> HasPrefix name ''br-''"

fun firstStableMAC :: "(string \<times> string) list \<Rightarrow> string" where
  "firstStableMAC [] = []"
| "firstStableMAC ((name, mac) # ifaces) =
     (if mac = [] \<or> mac = ''00:00:00:00:00:00'' then firstStableMAC ifaces
      else if virtualInterface name then firstStableMAC ifaces
      else filter (\<lambda>c. c \<noteq> CHR '':'') mac)"

text \<open>\<open>b\<close> are the eight random bytes of the last resort; the map is returned as changed.\<close>

definition collectID :: "machine \<Rightarrow> 8 word list \<Rightarrow> smap \<Rightarrow> string \<times> smap" where
  "collectID m b meta =
     (if isLikelyVM meta \<and> vmGUID m \<noteq> [] then (vmGUID m, smap_set ''vm_guid'' (vmGUID m) meta)
      else if hardwareSerial m \<noteq> [] then (hardwareSerial m, smap_set ''serial_number'' (hardwareSerial m) meta)
      else if vmGUID m \<noteq> [] then (vmGUID m, smap_set ''vm_guid'' (vmGUID m) meta)
      else (let mac = firstStableMAC (mInterfaces m) in
        if mac \<noteq> [] then (mac, smap_set ''mac_address'' mac meta)
        else (''rnd-'' @ hexEncode b, meta)))"

definition Collect :: "machine \<Rightarrow> 8 word list \<Rightarrow> platform_info" where
  "Collect m b =
     (let meta0 = [(''os'', osDescription m), (''type'', goosName (mGOOS m)), (''arch'', mGOARCH m)];
          vendor = getVendor m; model = getModel m;
          meta1 = (if vendor \<noteq> [] then smap_set ''vendor'' vendor meta0 else meta0);
          meta2 = (if model \<noteq> [] then smap_set ''model'' model meta1 else meta1);
          (uid, meta3) = collectID m b meta2
      in \<lparr>piPlatform = detectPlatform m, piHostname = getHostname m, piModel = model, piVendor = vendor,
          piMetadata = (if uid \<noteq> [] then smap_set ''machine_id'' uid meta3 else meta3)\<rparr>)"

end
