(* ===== verification/Terminal.thy ===== *)
theory Terminal
  imports Server Identity
begin

text \<open>
  What the programs print: \<^verbatim>\<open>terminal/terminal.go\<close>, the level of the log and the writer that
  gives Windows consoles their line ends, \<^verbatim>\<open>common/console.go\<close>, the box around a generated
  credential, and the response writer that \<^verbatim>\<open>logging\<close> of \<^verbatim>\<open>server/server.go\<close> wraps
  around every request. The logging library and the stream below are parameters. The lemmas
  show that the line ends are right and no text is lost, when the box is a rectangle, and
  which requests a log without the debug flag shows.
\<close>

section \<open>Line ends\<close>

text \<open>\<^verbatim>\<open>bytes.ReplaceAll\<close> for a non-empty pattern: matches from the left that do not overlap.\<close>

function ReplaceAll :: "string \<Rightarrow> string \<Rightarrow> string \<Rightarrow> string" where
  "ReplaceAll old new [] = []"
| "ReplaceAll old new (c # s) =
     (if old \<noteq> [] \<and> HasPrefix (c # s) old then new @ ReplaceAll old new (drop (length old) (c # s))
      else c # ReplaceAll old new s)"
  by pat_completeness auto
termination
  by (relation "measure (\<lambda>(old, new, s). length s)") auto

definition LF :: char where "LF = CHR 0x0A"
definition CR :: char where "CR = CHR 0x0D"

text \<open>\<^verbatim>\<open>crlfWriter.Write\<close>: what goes to the stream below, and what the caller is told.\<close>

definition crlfBytes :: "string \<Rightarrow> string" where
  "crlfBytes p = ReplaceAll [LF] [CR, LF] (ReplaceAll [CR, LF] [LF] p)"

definition crlfWrite :: "(string \<Rightarrow> nat \<times> err) \<Rightarrow> string \<Rightarrow> nat \<times> err" where
  "crlfWrite write p = (length p, snd (write (crlfBytes p)))"

text \<open>The stream \<^verbatim>\<open>Setup\<close> gives the logger: the writer is only put in front on Windows.\<close>

definition logStream :: "goos \<Rightarrow> (string \<Rightarrow> nat \<times> err) \<Rightarrow> string \<Rightarrow> nat \<times> err" where
  "logStream os stderr = (case os of Windows \<Rightarrow> crlfWrite stderr | _ \<Rightarrow> stderr)"

lemma LF_CR [simp]: "LF \<noteq> CR" "CR \<noteq> LF"
  by (simp_all add: LF_def CR_def)

lemma ReplaceAll_LF: "ReplaceAll [LF] new s = concat (map (\<lambda>c. if c = LF then new else [c]) s)"
  by (induction s) (auto simp: HasPrefix_def)

text \<open>The text of lines that end in LF, as the first replacement leaves it.\<close>

abbreviation unixText :: "string \<Rightarrow> string" where "unixText \<equiv> ReplaceAll [CR, LF] [LF]"
abbreviation expand :: "string \<Rightarrow> string" where "expand \<equiv> ReplaceAll [LF] [CR, LF]"

lemma expand_simps [simp]: "expand (c # s) = (if c = LF then CR # LF # expand s else c # expand s)"
  by (simp add: ReplaceAll_LF)

lemma expand_head: "expand s \<noteq> LF # t"
  by (cases s) auto

lemma unixText_expand [simp]: "unixText (expand s) = s"
proof (induction s)
  case (Cons c s)
  have "\<not> HasPrefix (c # expand s) [CR, LF]" if "c \<noteq> LF"
    using expand_head [of s] by (cases "expand s") (auto simp: HasPrefix_def)
  with Cons show ?case by (simp add: HasPrefix_def)
qed simp

text \<open>
  Nothing is lost but the kind of line end; what is written once is left alone by a second
  writer; and no line feed comes without its carriage return.
\<close>

lemma crlf_content: "unixText (crlfBytes p) = unixText p"
  by (simp add: crlfBytes_def)

lemma crlf_idempotent: "crlfBytes (crlfBytes p) = crlfBytes p"
  by (simp add: crlfBytes_def)

lemma expand_no_bare: "i < length (expand s) \<Longrightarrow> expand s ! i = LF \<Longrightarrow> 0 < i \<and> expand s ! (i - 1) = CR"
proof (induction s arbitrary: i)
  case (Cons c s)
  show ?case
  proof (cases "c = LF")
    case True
    with Cons.prems show ?thesis
      using Cons.IH [of "i - 2"] by (cases i; cases "i - 1") (auto simp: nth_Cons split: nat.splits)
  next
    case False
    with Cons.prems show ?thesis
      using Cons.IH [of "i - 1"] by (cases i; cases "i - 1") (auto simp: nth_Cons split: nat.splits)
  qed
qed simp

lemma crlf_no_bare: "i < length (crlfBytes p) \<Longrightarrow> crlfBytes p ! i = LF \<Longrightarrow> 0 < i \<and> crlfBytes p ! (i - 1) = CR"
  unfolding crlfBytes_def by (rule expand_no_bare)

lemma unixText_append: "\<not> (HasSuffix p [CR] \<and> HasPrefix q [LF]) \<Longrightarrow> unixText (p @ q) = unixText p @ unixText q"
proof (induction "[CR, LF]" "[LF]" p rule: ReplaceAll.induct)
  case (2 c s)
  have suf: "HasSuffix (x # s) [CR]" if "HasSuffix s [CR]" for x s
    using that by (cases s rule: rev_cases) (auto simp: HasSuffix_def HasPrefix_def)
  show ?case
  proof (cases "HasPrefix (c # s) [CR, LF]")
    case True
    then obtain s' where s': "c = CR" "s = LF # s'" by (cases s) (auto simp: HasPrefix_def)
    have "HasSuffix s' [CR] \<Longrightarrow> HasSuffix (c # s) [CR]" unfolding s' by (intro suf)
    with 2 True show ?thesis by (auto simp: s' HasPrefix_def)
  next
    case False
    have "\<not> HasPrefix (c # s @ q) [CR, LF]"
      using False 2(3) by (cases s; cases q) (auto simp: HasPrefix_def HasSuffix_def)
    with 2 False suf show ?thesis by auto
  qed
qed simp

text \<open>
  The log may hand a text to the writer in pieces of any size, as long as no piece ends
  between the two characters of a line end.
\<close>

lemma crlf_append: "\<not> (HasSuffix p [CR] \<and> HasPrefix q [LF]) \<Longrightarrow> crlfBytes (p @ q) = crlfBytes p @ crlfBytes q"
  unfolding crlfBytes_def by (simp add: unixText_append) (simp add: ReplaceAll_LF)

lemma crlf_split_doubles: "crlfBytes [CR] @ crlfBytes [LF] = [CR, CR, LF]" "crlfBytes [CR, LF] = [CR, LF]"
  by (simp_all add: crlfBytes_def HasPrefix_def)

section \<open>The box around a credential\<close>

definition Repeat :: "string \<Rightarrow> nat \<Rightarrow> string" where
  "Repeat s n = concat (replicate n s)"

text \<open>The six characters of the frame, three bytes of UTF-8 each.\<close>

definition frameChar :: "char \<Rightarrow> string" where
  "frameChar c = [CHR 0xE2, CHR 0x94, c]"

definition bannerRows :: "string \<Rightarrow> string \<Rightarrow> string list" where
  "bannerRows title content =
     (let maxLen = (if length title > length content then length title else length content);
          width = maxLen + 4;
          bar = Repeat (frameChar (CHR 0x80)) width;
          side = frameChar (CHR 0x82);
          titlePadTotal = width - length title;
          leftPad = titlePadTotal div 2;
          rightPad = titlePadTotal - leftPad
      in [frameChar (CHR 0x8C) @ bar @ frameChar (CHR 0x90),
          side @ Repeat '' '' leftPad @ title @ Repeat '' '' rightPad @ side,
          side @ ''  '' @ content @ ''  '' @ side,
          frameChar (CHR 0x94) @ bar @ frameChar (CHR 0x98)])"

definition PrintBannerMessage :: "string \<Rightarrow> string \<Rightarrow> string" where
  "PrintBannerMessage title content =
     [LF] @ concat (map (\<lambda>row. row @ [LF]) (bannerRows title content)) @ [LF]"

text \<open>The columns a text takes: its bytes without the continuation bytes of UTF-8.\<close>

definition continuation :: "char \<Rightarrow> bool" where
  "continuation c \<longleftrightarrow> 0x80 \<le> (of_char c :: nat) \<and> (of_char c :: nat) < 0xC0"

definition columns :: "string \<Rightarrow> nat" where
  "columns s = length (filter (\<lambda>c. \<not> continuation c) s)"

lemma columns_simps [simp]: "columns [] = 0" "columns (s @ t) = columns s + columns t"
    "columns (c # s) = (if continuation c then columns s else Suc (columns s))"
  by (simp_all add: columns_def)

lemma columns_ascii: "list_all graph_char s \<Longrightarrow> columns s = length s"
  by (induction s) (auto simp: graph_char_def continuation_def)

lemma columns_Repeat [simp]: "columns (Repeat s n) = n * columns s"
  by (induction n) (simp_all add: Repeat_def)

lemma columns_frame [simp]: "c \<in> {CHR 0x80, CHR 0x82, CHR 0x8C, CHR 0x90, CHR 0x94, CHR 0x98} \<Longrightarrow> columns (frameChar c) = 1"
  by (auto simp: frameChar_def continuation_def)

text \<open>
  The widths of the four rows. The box closes when the title is no longer than the content, as
  it is for the credentials the server prints; a longer title leaves the row of the content short.
\<close>

lemma banner_widths:
  assumes "columns title = length title" "columns content = length content"
  shows "map columns (bannerRows title content) =
    (let w = max (length title) (length content) + 6 in [w, w, length content + 6, w])"
  using assms by (simp add: bannerRows_def Let_def max_def continuation_def frameChar_def)

lemma banner_box:
  assumes "columns title = length title" "columns content = length content" "length title \<le> length content"
  shows "set (map columns (bannerRows title content)) = {length content + 6}"
  using assms unfolding banner_widths [OF assms(1,2)] by (simp add: Let_def max_def)

lemma banner_ragged: "map columns (bannerRows ''TITLE'' ''abc'') = [11, 11, 9, 11]"
  by code_simp

section \<open>The log\<close>

text \<open>The ranks of the levels in \<^verbatim>\<open>log/slog\<close>, and the level \<^verbatim>\<open>Setup\<close> asks the logger for.\<close>

definition levelRank :: "string \<Rightarrow> int" where
  "levelRank l = (if l = LogLevelError then 8 else if l = LogLevelWarn then 4 else if l = LogLevelInfo then 0 else - 4)"

definition SetupLevel :: "bool \<Rightarrow> string" where
  "SetupLevel debug = (if debug then ''debug'' else LogLevelInfo)"

definition shown :: "bool \<Rightarrow> string \<Rightarrow> bool" where
  "shown debug l \<longleftrightarrow> levelRank (SetupLevel debug) \<le> levelRank l"

text \<open>
  \<^verbatim>\<open>loggingResponseWriter\<close>: the calls a handler makes are passed on to the writer below as
  far as it has them, and the status is remembered. The writer below is the record
  \<open>inner\<close>, what it makes of hijacking and pushing, if it can.
\<close>

datatype write_call = WriteHeader int | WriteBody string | Flush

record 'c inner =
  inHijack :: "(string + 'c) option"
  inPush :: "(string \<Rightarrow> err) option"
  inFlushes :: bool

definition ErrNotSupported :: string where "ErrNotSupported = ''feature not supported''"

fun lrwCalls :: "'c inner \<Rightarrow> int \<Rightarrow> write_call list \<Rightarrow> int \<times> write_call list" where
  "lrwCalls inn status [] = (status, [])"
| "lrwCalls inn status (WriteHeader code # cs) =
     (let (st, out) = lrwCalls inn code cs in (st, WriteHeader code # out))"
| "lrwCalls inn status (WriteBody b # cs) =
     (let (st, out) = lrwCalls inn status cs in (st, WriteBody b # out))"
| "lrwCalls inn status (Flush # cs) =
     (let (st, out) = lrwCalls inn status cs in (st, if inFlushes inn then Flush # out else out))"

definition lrwHijack :: "'c inner \<Rightarrow> string + 'c" where
  "lrwHijack inn = (case inHijack inn of None \<Rightarrow> Inl ErrNotSupported | Some r \<Rightarrow> r)"

definition lrwPush :: "'c inner \<Rightarrow> string \<Rightarrow> err" where
  "lrwPush inn target = (case inPush inn of None \<Rightarrow> Some ErrNotSupported | Some push \<Rightarrow> push target)"

text \<open>One request under \<^verbatim>\<open>logging\<close>: what reaches the client, and the line of the log.\<close>

definition logging :: "'c inner \<Rightarrow> request \<Rightarrow> write_call list \<Rightarrow> write_call list \<times> string \<times> string \<times> string \<times> int" where
  "logging inn r calls = (let (status, out) = lrwCalls inn 200 calls
     in (out, logLevel status (rPath r), rMethod r, rPath r, status))"

text \<open>The status \<^verbatim>\<open>net/http\<close> sends: that of the first header, 200 when the body comes first.\<close>

fun sentStatus :: "write_call list \<Rightarrow> int" where
  "sentStatus (WriteHeader code # cs) = code"
| "sentStatus _ = 200"

definition isHeader :: "write_call \<Rightarrow> bool" where
  "isHeader c \<longleftrightarrow> (case c of WriteHeader _ \<Rightarrow> True | _ \<Rightarrow> False)"

lemma lrw_status: "\<not> list_ex isHeader cs \<Longrightarrow> fst (lrwCalls inn st cs) = st"
  by (induction inn st cs rule: lrwCalls.induct) (auto simp: isHeader_def case_prod_beta)

lemma lrw_out: "inFlushes inn \<Longrightarrow> snd (lrwCalls inn st cs) = cs"
  by (induction inn st cs rule: lrwCalls.induct) (simp_all add: case_prod_beta)

text \<open>
  The wrapper changes nothing the client sees, and for a handler that writes its header once
  and first, as all of them do, the log has the status that was sent.
\<close>

lemma logging_transparent: "inFlushes inn \<Longrightarrow> fst (logging inn r calls) = calls"
  by (simp add: logging_def case_prod_beta lrw_out)

lemma logging_status:
  assumes "\<not> list_ex isHeader (tl calls)"
  shows "snd (snd (snd (snd (logging inn r calls)))) = sentStatus calls"
proof (cases calls)
  case (Cons c cs)
  then show ?thesis
    using assms lrw_status [of cs inn 200] lrw_status [of cs inn]
    by (cases c) (simp_all add: logging_def case_prod_beta)
qed (simp add: logging_def)

text \<open>
  Without the debug flag the log shows exactly the failed requests and the WebSocket endpoint,
  as the help text of the flag says.
\<close>

lemma quiet_log: "shown False (fst (snd (logging inn r calls))) \<longleftrightarrow>
    fst (lrwCalls inn 200 calls) \<ge> 400 \<or> rPath r = ''/api/v1/ws''"
  by (simp add: logging_def case_prod_beta logLevel_def shown_def SetupLevel_def levelRank_def)

lemma debug_log: "shown True l"
  by (simp add: shown_def SetupLevel_def levelRank_def)

end
