(* ===== verification/Config.thy ===== *)
theory Config
  imports Common_Types
begin

text \<open>
  The configuration files of server and agent: \<^verbatim>\<open>common/config.go\<close>. Reading a file is a
  parameter, and so is YAML, a third-party library: the decoder of each struct gives an error or
  a value.
\<close>

section \<open>Configuration files\<close>

record server_config =
  scListenAddress :: string
  scDataDir :: string
  scArtifactsDir :: string
  scLogsDir :: string
  scTLSCertFile :: string
  scTLSKeyFile :: string
  scUserJWTSecret :: string
  scTokenExpiryHours :: int

record server_secrets =
  ssRootPassword :: string
  ssRegistrationSecrets :: smap
  ssClientSecrets :: smap

record agent_config =
  acServerURL :: string
  acDisableTLSVerification :: bool
  acRegistrationSecret :: string
  acStateFile :: string
  acWorkDir :: string
  acReconnectIntervalSeconds :: int
  acLogBatchSize :: int
  acTLSCAFile :: string
  acTLSSkipVerify :: bool

definition loadYAML :: "(string \<Rightarrow> string + string) \<Rightarrow> (string \<Rightarrow> string + 'a) \<Rightarrow> string \<Rightarrow> string + 'a" where
  "loadYAML readFile unmarshal path = (case readFile path of
      Inl e \<Rightarrow> Inl (''reading '' @ path @ '': '' @ e)
    | Inr data \<Rightarrow> (case unmarshal data of
        Inl e \<Rightarrow> Inl (''parsing '' @ path @ '': '' @ e)
      | Inr v \<Rightarrow> Inr v))"

definition LoadServerConfig :: "(string \<Rightarrow> string + string) \<Rightarrow> (string \<Rightarrow> string + server_config) \<Rightarrow> string \<Rightarrow> string + server_config" where
  "LoadServerConfig = loadYAML"

definition LoadServerSecrets :: "(string \<Rightarrow> string + string) \<Rightarrow> (string \<Rightarrow> string + server_secrets) \<Rightarrow> string \<Rightarrow> string + server_secrets" where
  "LoadServerSecrets = loadYAML"

definition LoadPlaybook :: "(string \<Rightarrow> string + string) \<Rightarrow> (string \<Rightarrow> string + playbook) \<Rightarrow> string \<Rightarrow> string + playbook" where
  "LoadPlaybook = loadYAML"

definition Validate :: "agent_config \<Rightarrow> err" where
  "Validate c =
     (if TrimSpace (acServerURL c) = [] then Some ''server_url is required''
      else if TrimSpace (acRegistrationSecret c) = [] then Some ''registration_secret is required''
      else None)"

definition LoadAgentConfig :: "(string \<Rightarrow> string + string) \<Rightarrow> (string \<Rightarrow> string + agent_config) \<Rightarrow> string \<Rightarrow> string + agent_config" where
  "LoadAgentConfig readFile unmarshal path = (case loadYAML readFile unmarshal path of
      Inl e \<Rightarrow> Inl e
    | Inr cfg \<Rightarrow> (case Validate cfg of
        Some e \<Rightarrow> Inl (''validating '' @ path @ '': '' @ e)
      | None \<Rightarrow> Inr cfg))"

end
