(* ===== verification/Tls.thy ===== *)
theory Tls
  imports Auth Config
begin

text \<open>
  Certificates: \<^verbatim>\<open>server/tls.go\<close>, the check that a file exists and the self-signed
  certificate the server makes for itself, and \<^verbatim>\<open>agent/tls.go\<close>, the TLS configuration of an
  agent. The cryptography is the record \<open>crypto\<close>, whose calls may each fail; keys and DER
  are opaque texts. What is translated is what the code decides: the template, the order of the
  calls, what it does with each error.
\<close>

section \<open>The server's certificate\<close>

text \<open>\<^verbatim>\<open>os.Stat\<close> gives an error, or whether the path is a directory.\<close>

definition FileExists :: "(string \<Rightarrow> string + bool) \<Rightarrow> string \<Rightarrow> bool" where
  "FileExists stat path = (case stat path of Inl e \<Rightarrow> False | Inr isDir \<Rightarrow> \<not> isDir)"

record cert_template =
  ctSerialNumber :: int
  ctCommonName :: string
  ctNotBefore :: gotime
  ctNotAfter :: gotime
  ctKeyUsage :: "string list"
  ctExtKeyUsage :: "string list"
  ctBasicConstraintsValid :: bool
  ctDNSNames :: "string list"
  ctIPAddresses :: "string list"

record crypto =
  cyGenerateKey :: "string + string"
  cyRandInt :: "int \<Rightarrow> string + int"
  cyCreateCertificate :: "cert_template \<Rightarrow> cert_template \<Rightarrow> string \<Rightarrow> string + string"
  cyMarshalKey :: "string \<Rightarrow> string + string"
  cyEncodePEM :: "string \<Rightarrow> string \<Rightarrow> string"

definition certTemplate :: "gotime \<Rightarrow> int \<Rightarrow> cert_template" where
  "certTemplate now serial =
     (let notBefore = now - 1 * hour; notAfter = notBefore + 365 * 24 * hour
      in \<lparr>ctSerialNumber = serial, ctCommonName = ''kompakt-selfsigned'', ctNotBefore = notBefore, ctNotAfter = notAfter,
          ctKeyUsage = [''KeyEncipherment'', ''DigitalSignature''], ctExtKeyUsage = [''ServerAuth''],
          ctBasicConstraintsValid = True, ctDNSNames = [''localhost''], ctIPAddresses = [''127.0.0.1'']\<rparr>)"

definition GenerateSelfSignedCert :: "crypto \<Rightarrow> gotime \<Rightarrow> string + string \<times> string" where
  "GenerateSelfSignedCert cy now =
     (case cyGenerateKey cy of Inl e \<Rightarrow> Inl e | Inr priv \<Rightarrow>
      (case cyRandInt cy (2 ^ 62) of Inl e \<Rightarrow> Inl e | Inr serial \<Rightarrow>
       (let tmpl = certTemplate now serial in
        case cyCreateCertificate cy tmpl tmpl priv of Inl e \<Rightarrow> Inl e | Inr der \<Rightarrow>
        (let certPEM = cyEncodePEM cy ''CERTIFICATE'' der in
         case cyMarshalKey cy priv of Inl e \<Rightarrow> Inl e | Inr keyBytes \<Rightarrow>
           Inr (certPEM, cyEncodePEM cy ''EC PRIVATE KEY'' keyBytes)))))"

text \<open>
  A certificate that comes out is issued by itself, for the key that comes with it, and it is
  valid from an hour before its making until 365 days after that.
\<close>

definition validAt :: "cert_template \<Rightarrow> gotime \<Rightarrow> bool" where
  "validAt c t \<longleftrightarrow> ctNotBefore c \<le> t \<and> t \<le> ctNotAfter c"

lemma GenerateSelfSignedCert_pair:
  assumes "GenerateSelfSignedCert cy now = Inr (cert, key)"
  obtains priv serial der keyBytes where "cyGenerateKey cy = Inr priv" "cyRandInt cy (2 ^ 62) = Inr serial"
    "cyCreateCertificate cy (certTemplate now serial) (certTemplate now serial) priv = Inr der"
    "cert = cyEncodePEM cy ''CERTIFICATE'' der"
    "cyMarshalKey cy priv = Inr keyBytes" "key = cyEncodePEM cy ''EC PRIVATE KEY'' keyBytes"
  using assms by (auto simp: GenerateSelfSignedCert_def Let_def split: sum.splits)

lemma certTemplate_valid: "validAt (certTemplate now serial) t \<longleftrightarrow> now - hour \<le> t \<and> t \<le> now + 8759 * hour"
  by (auto simp: validAt_def certTemplate_def Let_def)

section \<open>The agent's configuration\<close>

text \<open>\<open>None\<close> is the nil configuration: the defaults of the system.\<close>

datatype tls_config = InsecureSkipVerify | RootCAs string

definition buildTLSConfig :: "(string \<Rightarrow> string + string) \<Rightarrow> (string \<Rightarrow> string option) \<Rightarrow> agent_config \<Rightarrow> string + tls_config option" where
  "buildTLSConfig readFile appendCerts cfg =
     (if \<not> acTLSSkipVerify cfg \<and> acTLSCAFile cfg = [] then Inr None
      else if acTLSSkipVerify cfg then Inr (Some InsecureSkipVerify)
      else case readFile (acTLSCAFile cfg) of
        Inl e \<Rightarrow> Inl (''reading tls_ca_file: '' @ e)
      | Inr pem \<Rightarrow>
          (case appendCerts pem of
             None \<Rightarrow> Inl (''tls_ca_file '' @ Quote (acTLSCAFile cfg) @ '' contains no valid PEM certificates'')
           | Some pool \<Rightarrow> Inr (Some (RootCAs pool))))"

text \<open>Verification is switched off only by the flag; a CA file that gives no certificate is an error.\<close>

lemma buildTLSConfig_insecure:
  "buildTLSConfig rd ap cfg = Inr (Some InsecureSkipVerify) \<longleftrightarrow> acTLSSkipVerify cfg"
  by (auto simp: buildTLSConfig_def split: sum.splits option.splits)

lemma buildTLSConfig_pool:
  assumes "\<not> acTLSSkipVerify cfg" "acTLSCAFile cfg \<noteq> []"
  shows "(\<exists>e. buildTLSConfig rd ap cfg = Inl e) \<or>
    (\<exists>pem pool. rd (acTLSCAFile cfg) = Inr pem \<and> ap pem = Some pool \<and> buildTLSConfig rd ap cfg = Inr (Some (RootCAs pool)))"
  using assms by (auto simp: buildTLSConfig_def split: sum.splits option.splits)

end
