(* ===== verification/Boot.thy ===== *)
theory Boot
  imports Terminal Tls
begin

text \<open>
  The start of the server: \<^verbatim>\<open>cmd/kompakt/main.go\<close>. The operating system is the record \<open>boot_os\<close>: what reading a
  path gives, the errors of creating a directory and of writing a file, what is known of a path,
  the cryptography, the clock and the random bytes; YAML is a third-party library and a
  parameter. \<open>boot\<close> is \<^verbatim>\<open>main\<close> up to the call that serves: it exits with a message or
  serves with a handler, a store and a choice of TLS, and it returns the files it wrote.
  \<open>bootBanners\<close> is what it shows of the secrets it made, \<open>serverExit\<close> the end of serving.
\<close>

section \<open>Defaults and secrets\<close>

definition applyConfigDefaults :: "server_config \<Rightarrow> server_config" where
  "applyConfigDefaults cfg =
     (let dataDir = (if scDataDir cfg = [] then ''kompakt-data'' else scDataDir cfg) in
      cfg\<lparr>scListenAddress := (if scListenAddress cfg = [] then ''localhost:8080'' else scListenAddress cfg),
          scDataDir := dataDir,
          scArtifactsDir := (if scArtifactsDir cfg = [] then joinPath dataDir ''artifacts'' else scArtifactsDir cfg),
          scLogsDir := (if scLogsDir cfg = [] then joinPath dataDir ''logs'' else scLogsDir cfg),
          scTokenExpiryHours := (if scTokenExpiryHours cfg = 0 then 8 else scTokenExpiryHours cfg)\<rparr>)"

definition serverURL :: "server_config \<Rightarrow> string" where
  "serverURL cfg = scListenAddress cfg"

record boot_os =
  bRead :: "string \<Rightarrow> string + string"
  bMkdirAll :: "string \<Rightarrow> err"
  bWrite :: "string \<Rightarrow> err"
  bStat :: "string \<Rightarrow> string + bool"
  bCrypto :: crypto
  bNow :: gotime
  bJwtBytes :: "nat \<Rightarrow> 8 word"
  bRootBytes :: "nat \<Rightarrow> 8 word"
  bRegBytes :: "nat \<Rightarrow> 8 word"
  bOpenErr :: err

text \<open>Since Go 1.24 \<^verbatim>\<open>rand.Read\<close> fills its whole argument and never returns an error.\<close>

definition mustGenerateHex :: "(nat \<Rightarrow> 8 word) \<Rightarrow> nat \<Rightarrow> string" where
  "mustGenerateHex r n = hexEncode (map r [0..<n])"

type_synonym files = "(string \<times> string) list"

text \<open>The secret, and the file written for it if one was.\<close>

definition loadOrCreateSecret :: "boot_os \<Rightarrow> string \<Rightarrow> string \<Rightarrow> string \<times> files" where
  "loadOrCreateSecret os explicit path =
     (if explicit \<noteq> [] then (explicit, [])
      else (let stored = (case bRead os path of Inl e \<Rightarrow> [] | Inr data \<Rightarrow> TrimSpace data);
                s = mustGenerateHex (bJwtBytes os) 32
            in if stored \<noteq> [] then (stored, [])
               else (s, if bWrite os path = None then [(path, s)] else [])))"

section \<open>Certificates\<close>

text \<open>
  The self-signed certificate: the configuration with the paths of the files, or the message of
  the exit, with the files written. It runs before the defaults are applied.
\<close>

definition needsCert :: "boot_os \<Rightarrow> server_config \<Rightarrow> bool" where
  "needsCert os cfg \<longleftrightarrow> (scTLSCertFile cfg \<noteq> [] \<or> scTLSKeyFile cfg \<noteq> []) \<and>
     (scTLSCertFile cfg = [] \<or> scTLSKeyFile cfg = [] \<or>
      \<not> FileExists (bStat os) (scTLSCertFile cfg) \<or> \<not> FileExists (bStat os) (scTLSKeyFile cfg))"

definition prepareTLS :: "boot_os \<Rightarrow> server_config \<Rightarrow> (string + server_config) \<times> files" where
  "prepareTLS os cfg =
     (if \<not> needsCert os cfg then (Inr cfg, [])
      else
       (let certPath = (if scTLSCertFile cfg = [] then joinPath (scDataDir cfg) ''kompakt-selfsigned.crt'' else scTLSCertFile cfg);
            keyPath = (if scTLSKeyFile cfg = [] then joinPath (scDataDir cfg) ''kompakt-selfsigned.key'' else scTLSKeyFile cfg)
        in if bMkdirAll os (Dir certPath) \<noteq> None then (Inl ''failed to create cert dir'', [])
        else case GenerateSelfSignedCert (bCrypto os) (bNow os) of
          Inl e \<Rightarrow> (Inl ''failed to generate self-signed cert'', [])
        | Inr (certPEM, keyPEM) \<Rightarrow>
            if bWrite os certPath \<noteq> None then (Inl ''failed to write cert file'', [])
            else if bWrite os keyPath \<noteq> None then (Inl ''failed to write key file'', [(certPath, certPEM)])
            else (Inr (cfg\<lparr>scTLSCertFile := certPath, scTLSKeyFile := keyPath\<rparr>),
                      [(certPath, certPEM), (keyPath, keyPEM)])))"

section \<open>The start\<close>

definition fillSecrets :: "boot_os \<Rightarrow> server_secrets \<Rightarrow> server_secrets" where
  "fillSecrets os sec = sec\<lparr>
     ssRootPassword := (if ssRootPassword sec = [] then mustGenerateHex (bRootBytes os) 16 else ssRootPassword sec),
     ssRegistrationSecrets := (if ssRegistrationSecrets sec = [] then [(''default'', mustGenerateHex (bRegBytes os) 16)]
        else ssRegistrationSecrets sec)\<rparr>"

definition makeHandler :: "server_config \<Rightarrow> server_secrets \<Rightarrow> handler" where
  "makeHandler cfg sec = \<lparr>eUserJWTSecret = scUserJWTSecret cfg, eRootPassword = ssRootPassword sec,
     eTokenExpiryHours = scTokenExpiryHours cfg, eArtifactsDir = scArtifactsDir cfg, eServerURL = serverURL cfg,
     eRegistrationSecrets = ssRegistrationSecrets sec\<rparr>"

datatype boot = Exited string | Serving handler db bool

definition noSecrets :: server_secrets where
  "noSecrets = \<lparr>ssRootPassword = [], ssRegistrationSecrets = [], ssClientSecrets = []\<rparr>"

text \<open>What remains once the configuration and the secrets are loaded.\<close>

definition bootStore :: "boot_os \<Rightarrow> driver \<Rightarrow> server_config \<Rightarrow> server_secrets \<Rightarrow> db \<Rightarrow> boot" where
  "bootStore os drv cfg sec db =
     (if bMkdirAll os (scArtifactsDir cfg) \<noteq> None \<or> bMkdirAll os (scLogsDir cfg) \<noteq> None then Exited ''mkdir failed''
      else case New drv (bMkdirAll os (scDataDir cfg)) (bOpenErr os) db of
        Inl e \<Rightarrow> Exited ''store init failed''
      | Inr db1 \<Rightarrow>
         (case (if ssClientSecrets sec \<noteq> [] then MergeSecrets drv (ssClientSecrets sec) db1 else (None, db1)) of
            (Some e, db2) \<Rightarrow> Exited ''seeding secrets failed''
          | (None, db2) \<Rightarrow> Serving (makeHandler cfg sec) db2 (scTLSCertFile cfg \<noteq> [] \<and> scTLSKeyFile cfg \<noteq> [])))"

definition boot ::
  "boot_os \<Rightarrow> (string \<Rightarrow> string + server_config) \<Rightarrow> (string \<Rightarrow> string + server_secrets) \<Rightarrow> string \<Rightarrow> string \<Rightarrow> driver \<Rightarrow> db \<Rightarrow>
   boot \<times> files" where
  "boot os yamlConfig yamlSecrets configPath secretsPath drv db =
     (case LoadServerConfig (bRead os) yamlConfig configPath of
        Inl e \<Rightarrow> (Exited ''config load failed'', [])
      | Inr cfg0 \<Rightarrow>
     (case prepareTLS os cfg0 of
        (Inl e, certFiles) \<Rightarrow> (Exited e, certFiles)
      | (Inr cfg1, certFiles) \<Rightarrow>
         (let cfg2 = applyConfigDefaults cfg1;
              sec = (case LoadServerSecrets (bRead os) yamlSecrets secretsPath of Inl e \<Rightarrow> noSecrets | Inr s \<Rightarrow> s)
          in if bMkdirAll os (scDataDir cfg2) \<noteq> None then (Exited ''mkdir failed'', certFiles)
             else
              (let (jwtSecret, jwtFiles) = loadOrCreateSecret os (scUserJWTSecret cfg2) (joinPath (scDataDir cfg2) ''.ui-jwt-secret'')
               in (bootStore os drv (cfg2\<lparr>scUserJWTSecret := jwtSecret\<rparr>) (fillSecrets os sec) db, certFiles @ jwtFiles)))))"

text \<open>
  The credentials \<^verbatim>\<open>main\<close> prints: those it generated, since nobody else knows them.
\<close>

definition bootBanners :: "boot_os \<Rightarrow> server_secrets \<Rightarrow> (string \<times> string) list" where
  "bootBanners os sec =
     (if ssRootPassword sec = [] then [(''GENERATED ROOT PASSWORD'', mustGenerateHex (bRootBytes os) 16)] else []) @
     (if ssRegistrationSecrets sec = [] then [(''GENERATED REGISTRATION SECRET'', mustGenerateHex (bRegBytes os) 16)] else [])"

text \<open>
  The HTTP server and the end of serving. \<open>serveHTTP\<close> is \<^verbatim>\<open>net/http\<close>, given the server and,
  for TLS, the two files: the error its call returns. The result is the code of the exit.
\<close>

record http_server =
  hsAddr :: string
  hsReadTimeout :: int
  hsWriteTimeout :: int
  hsIdleTimeout :: int

definition second :: int where "second = 1000000000"

definition httpServer :: "server_config \<Rightarrow> http_server" where
  "httpServer cfg = \<lparr>hsAddr = scListenAddress cfg, hsReadTimeout = 30 * second, hsWriteTimeout = 60 * second,
     hsIdleTimeout = 120 * second\<rparr>"

definition ErrServerClosed :: string where "ErrServerClosed = ''http: Server closed''"

definition serverExit :: "(http_server \<Rightarrow> (string \<times> string) option \<Rightarrow> err) \<Rightarrow> server_config \<Rightarrow> int" where
  "serverExit serveHTTP cfg =
     (let e = (if scTLSCertFile cfg \<noteq> [] \<and> scTLSKeyFile cfg \<noteq> []
               then serveHTTP (httpServer cfg) (Some (scTLSCertFile cfg, scTLSKeyFile cfg))
               else serveHTTP (httpServer cfg) None)
      in if e \<noteq> None \<and> e \<noteq> Some ErrServerClosed then 1 else 0)"

text \<open>
  The end of the program, with its two goroutines: \<^verbatim>\<open>main\<close> serves until its call returns, and
  the other one waits for a signal and shuts the server down. As \<^verbatim>\<open>net/http\<close> documents it,
  once \<^verbatim>\<open>Shutdown\<close> has begun no request is accepted and the call that serves returns
  \<^verbatim>\<open>ErrServerClosed\<close> at once, while the requests in flight go on; \<open>main\<close> then returns.
\<close>

record main_state =
  mnSignalled :: bool
  mnShutdown :: bool
  mnInFlight :: nat
  mnExited :: bool

definition mainStarted :: main_state where
  "mainStarted = \<lparr>mnSignalled = False, mnShutdown = False, mnInFlight = 0, mnExited = False\<rparr>"

inductive main_step :: "main_state \<Rightarrow> main_state \<Rightarrow> bool" where
  accept: "\<not> mnShutdown s \<Longrightarrow> \<not> mnExited s \<Longrightarrow> main_step s (s\<lparr>mnInFlight := Suc (mnInFlight s)\<rparr>)"
| answer: "mnInFlight s = Suc n \<Longrightarrow> \<not> mnExited s \<Longrightarrow> main_step s (s\<lparr>mnInFlight := n\<rparr>)"
| signal: "\<not> mnExited s \<Longrightarrow> main_step s (s\<lparr>mnSignalled := True\<rparr>)"
| shutdown: "mnSignalled s \<Longrightarrow> \<not> mnExited s \<Longrightarrow> main_step s (s\<lparr>mnShutdown := True\<rparr>)"
| returned: "mnShutdown s \<Longrightarrow> main_step s (s\<lparr>mnExited := True\<rparr>)"

section \<open>What the start guarantees\<close>

lemma joinPath_nonempty: "a \<noteq> [] \<Longrightarrow> joinPath a b \<noteq> []"
  by (simp add: joinPaths_def)

lemma defaults_select:
  "scArtifactsDir (applyConfigDefaults cfg) \<noteq> []" "scTokenExpiryHours (applyConfigDefaults cfg) \<noteq> 0"
  "scListenAddress (applyConfigDefaults cfg) \<noteq> []" "scDataDir (applyConfigDefaults cfg) \<noteq> []"
  by (simp_all add: applyConfigDefaults_def Let_def joinPath_nonempty)

lemma hexEncode_graph: "list_all graph_char (hexEncode b)"
proof -
  have "list_all graph_char ''0123456789abcdef''" by (simp add: graph_char_def)
  then have "graph_char (hex_digit n)" for n by (simp only: hex_digit_def list_all_length) simp
  then show ?thesis by (induction b) (simp_all add: hexEncode_def)
qed

lemma mustGenerateHex_facts [simp]:
  "length (mustGenerateHex r n) = 2 * n" "mustGenerateHex r n = [] \<longleftrightarrow> n = 0" "list_all graph_char (mustGenerateHex r n)"
proof -
  show "length (mustGenerateHex r n) = 2 * n" by (simp add: mustGenerateHex_def)
  then show "mustGenerateHex r n = [] \<longleftrightarrow> n = 0" by (metis length_0_conv mult_eq_0_iff zero_neq_numeral)
qed (simp add: mustGenerateHex_def hexEncode_graph)

lemma loadOrCreateSecret_nonempty: "fst (loadOrCreateSecret os x p) \<noteq> []"
  by (simp add: loadOrCreateSecret_def Let_def)

lemma bootStore_cases:
  assumes "bootStore os drv cfg sec db = Serving e db' tls" "db_inv db"
  shows "e = makeHandler cfg sec" "db_inv db'"
proof -
  obtain db1 where db1: "New drv (bMkdirAll os (scDataDir cfg)) (bOpenErr os) db = Inr db1"
    using assms(1) by (auto simp: bootStore_def split: if_splits sum.splits)
  have inv: "db_inv db1" using New_inv [OF assms(2) db1] .
  obtain er db2 where m: "(if ssClientSecrets sec \<noteq> [] then MergeSecrets drv (ssClientSecrets sec) db1 else (None, db1)) = (er, db2)"
    by fastforce
  then have "db_inv db2" using inv MergeSecrets_inv [OF inv, of drv "ssClientSecrets sec"] by (auto split: if_splits)
  moreover have "Serving e db' tls = Serving (makeHandler cfg sec) db2 (scTLSCertFile cfg \<noteq> [] \<and> scTLSKeyFile cfg \<noteq> [])"
    using assms(1) unfolding bootStore_def db1 sum.case m prod.case by (auto split: if_splits option.splits)
  ultimately show "e = makeHandler cfg sec" "db_inv db'" by simp_all
qed

lemma boot_cases:
  assumes "boot os yc ys cp sp drv db = (Serving e db' tls, fs)"
  obtains cfg sec j where "bootStore os drv ((applyConfigDefaults cfg)\<lparr>scUserJWTSecret := j\<rparr>) (fillSecrets os sec) db = Serving e db' tls"
    "j = fst (loadOrCreateSecret os (scUserJWTSecret (applyConfigDefaults cfg)) (joinPath (scDataDir (applyConfigDefaults cfg)) ''.ui-jwt-secret''))"
  using assms by (auto simp: boot_def Let_def case_prod_beta split: sum.splits if_splits prod.splits)

text \<open>
  The program ends only after a signal; but nothing waits for \<^verbatim>\<open>Shutdown\<close> to drain the
  requests in flight: any number of them can be cut off by the end of \<^verbatim>\<open>main\<close>.
\<close>

lemma exit_signalled: "main_step\<^sup>*\<^sup>* mainStarted s \<Longrightarrow> (mnExited s \<longrightarrow> mnShutdown s) \<and> (mnShutdown s \<longrightarrow> mnSignalled s)"
  by (induction rule: rtranclp_induct) (auto simp: mainStarted_def elim!: main_step.cases)

lemma shutdown_drops_requests: "\<exists>s. main_step\<^sup>*\<^sup>* mainStarted s \<and> mnExited s \<and> mnInFlight s = n"
proof -
  have busy: "main_step\<^sup>*\<^sup>* mainStarted (mainStarted\<lparr>mnInFlight := n\<rparr>)" for n
  proof (induction n)
    case (Suc n)
    with main_step.accept [of "mainStarted\<lparr>mnInFlight := n\<rparr>"] show ?case
      by (auto simp: mainStarted_def intro: rtranclp.rtrancl_into_rtrancl)
  qed (simp add: mainStarted_def)
  let ?s = "mainStarted\<lparr>mnInFlight := n\<rparr>"
  let ?s1 = "?s\<lparr>mnSignalled := True\<rparr>"
  let ?s2 = "?s1\<lparr>mnShutdown := True\<rparr>"
  have "main_step ?s ?s1" "main_step ?s1 ?s2" "main_step ?s2 (?s2\<lparr>mnExited := True\<rparr>)"
    by (rule main_step.signal main_step.shutdown main_step.returned; simp add: mainStarted_def)+
  with busy [of n] have "main_step\<^sup>*\<^sup>* mainStarted (?s2\<lparr>mnExited := True\<rparr>)" by (meson rtranclp.rtrancl_into_rtrancl)
  then show ?thesis by (intro exI [of _ "?s2\<lparr>mnExited := True\<rparr>"]) simp
qed

text \<open>
  After the certificates are prepared either TLS is off and nothing was touched, or both files
  are named and each exists or has just been written. A start that finds both files keeps them.
\<close>

lemma prepareTLS_ready:
  assumes "prepareTLS os cfg = (Inr cfg', fs)"
  shows "if scTLSCertFile cfg = [] \<and> scTLSKeyFile cfg = [] then cfg' = cfg \<and> fs = []
    else scTLSCertFile cfg' \<noteq> [] \<and> scTLSKeyFile cfg' \<noteq> [] \<and>
      (\<forall>p\<in>{scTLSCertFile cfg', scTLSKeyFile cfg'}. FileExists (bStat os) p \<or> p \<in> fst ` set fs)"
proof -
  have name: "joinPath d ''kompakt-selfsigned.crt'' \<noteq> []" "joinPath d ''kompakt-selfsigned.key'' \<noteq> []" for d
    by (cases "d = []"; simp add: joinPaths_def)+
  show ?thesis
  proof (cases "needsCert os cfg")
    case False
    then show ?thesis using assms by (auto simp: prepareTLS_def needsCert_def)
  next
    case True
    then show ?thesis
      using assms name by (auto simp: prepareTLS_def needsCert_def Let_def split: sum.splits if_splits)
  qed
qed

lemma prepareTLS_keeps:
  assumes "FileExists (bStat os) (scTLSCertFile cfg)" "FileExists (bStat os) (scTLSKeyFile cfg)"
    "scTLSCertFile cfg \<noteq> []" "scTLSKeyFile cfg \<noteq> []"
  shows "prepareTLS os cfg = (Inr cfg, [])"
  using assms by (simp add: prepareTLS_def needsCert_def)

text \<open>
  Every credential of the running server was configured or is shown, and each box is a
  rectangle.
\<close>

lemma credentials_known:
  "(eRootPassword (makeHandler cfg (fillSecrets os sec)) = ssRootPassword sec \<and> ssRootPassword sec \<noteq> []) \<or>
     (''GENERATED ROOT PASSWORD'', eRootPassword (makeHandler cfg (fillSecrets os sec))) \<in> set (bootBanners os sec)"
  "(k, v) \<in> set (eRegistrationSecrets (makeHandler cfg (fillSecrets os sec))) \<Longrightarrow>
     (k, v) \<in> set (ssRegistrationSecrets sec) \<or> (''GENERATED REGISTRATION SECRET'', v) \<in> set (bootBanners os sec)"
  by (auto simp: bootBanners_def makeHandler_def fillSecrets_def split: if_splits)

lemma banners_boxed:
  assumes "(title, content) \<in> set (bootBanners os sec)"
  shows "set (map columns (bannerRows title content)) = {38}"
proof -
  have titles: "columns ''GENERATED ROOT PASSWORD'' = 23" "columns ''GENERATED REGISTRATION SECRET'' = 29"
    by code_simp+
  obtain r where b: "title = ''GENERATED ROOT PASSWORD'' \<or> title = ''GENERATED REGISTRATION SECRET''"
      "content = mustGenerateHex r 16"
    using assms by (auto simp only: bootBanners_def set_append set_simps Un_iff insert_iff empty_iff prod.inject split: if_splits)
  have "columns title = length title" "length title \<le> 32" using b(1) titles by auto
  moreover have "length content = 32" "columns content = length content"
    using b(2) columns_ascii [OF mustGenerateHex_facts(3)] by auto
  ultimately show ?thesis using banner_box [of title content] by simp
qed

section \<open>Properties\<close>

text \<open>
  C30. A server that gets as far as serving is locked: whatever the files hold, its root
  password, its signing key and its artifacts directory are not empty, there is a registration
  secret, tokens expire, and its store satisfies the invariant.
\<close>

theorem boot_locked:
  assumes "boot os yc ys cp sp drv db = (Serving e db' tls, fs)" "db_inv db"
  shows "eRootPassword e \<noteq> [] \<and> eUserJWTSecret e \<noteq> [] \<and> eRegistrationSecrets e \<noteq> [] \<and> eArtifactsDir e \<noteq> [] \<and>
    eTokenExpiryHours e \<noteq> 0 \<and> db_inv db'"
proof -
  obtain cfg sec j where b:
    "bootStore os drv ((applyConfigDefaults cfg)\<lparr>scUserJWTSecret := j\<rparr>) (fillSecrets os sec) db = Serving e db' tls"
    "j = fst (loadOrCreateSecret os (scUserJWTSecret (applyConfigDefaults cfg)) (joinPath (scDataDir (applyConfigDefaults cfg)) ''.ui-jwt-secret''))"
    using boot_cases [OF assms(1)] .
  then have "j \<noteq> []" using loadOrCreateSecret_nonempty by simp
  with bootStore_cases [OF b(1) assms(2)] show ?thesis
    using defaults_select [of cfg] by (auto simp: makeHandler_def fillSecrets_def)
qed

definition noCrypto :: crypto where
  "noCrypto = \<lparr>cyGenerateKey = Inl ''none'', cyRandInt = (\<lambda>n. Inl ''none''), cyCreateCertificate = (\<lambda>t p k. Inl ''none''),
     cyMarshalKey = (\<lambda>k. Inl ''none''), cyEncodePEM = (\<lambda>t b. b)\<rparr>"

definition freshOs :: boot_os where
  "freshOs = \<lparr>bRead = (\<lambda>p. Inl ''no such file''), bMkdirAll = (\<lambda>p. None), bWrite = (\<lambda>p. None), bStat = (\<lambda>p. Inl ''no such file''),
     bCrypto = noCrypto, bNow = 0, bJwtBytes = word_of_nat, bRootBytes = word_of_nat, bRegBytes = word_of_nat, bOpenErr = None\<rparr>"

definition emptyConfig :: server_config where
  "emptyConfig = \<lparr>scListenAddress = [], scDataDir = [], scArtifactsDir = [], scLogsDir = [], scTLSCertFile = [],
     scTLSKeyFile = [], scUserJWTSecret = [], scTokenExpiryHours = 0\<rparr>"

text \<open>A first start with an empty configuration file and no secrets file.\<close>

definition firstOs :: boot_os where
  "firstOs = freshOs\<lparr>bRead := (\<lambda>p. if p = ''config.yml'' then Inr [] else Inl ''no such file'')\<rparr>"

definition firstBoot :: "boot \<times> files" where
  "firstBoot = boot firstOs (\<lambda>t. Inr emptyConfig) (\<lambda>t. Inl ''bad'') ''config.yml'' ''secrets.yml'' okDrv emptyDB"

lemma first_serving: "\<exists>e db' fs. firstBoot = (Serving e db' False, fs) \<and> eServerURL e = ''localhost:8080''"
  by (simp add: firstBoot_def boot_def LoadServerConfig_def LoadServerSecrets_def loadYAML_def firstOs_def freshOs_def
      prepareTLS_def needsCert_def emptyConfig_def applyConfigDefaults_def noSecrets_def fillSecrets_def bootStore_def
      makeHandler_def New_def okDrv_def serverURL_def exec_def case_prod_beta Let_def)

theorem boot_locked_witness:
  "\<exists>e db' fs. firstBoot = (Serving e db' False, fs) \<and> eRootPassword e \<noteq> [] \<and> eUserJWTSecret e \<noteq> [] \<and> db_inv db'"
proof -
  obtain e db' fs where f: "firstBoot = (Serving e db' False, fs)" using first_serving by blast
  have "eRootPassword e \<noteq> [] \<and> eUserJWTSecret e \<noteq> [] \<and> db_inv db'"
    using boot_locked [OF f [unfolded firstBoot_def]] by (simp add: firstOs_def freshOs_def)
  with f show ?thesis by blast
qed

text \<open>
  The signing key survives a restart: a key the server generated and could write is the
  key a later start reads from the file, whatever random bytes it draws, so the sessions of the
  UI stay valid.
\<close>

lemma jwt_secret_survives_restart:
  assumes "loadOrCreateSecret os [] path = (s, [(path, s)])" "bRead os' path = Inr s"
  shows "loadOrCreateSecret os' [] path = (s, [])"
proof -
  have s: "s = mustGenerateHex (bJwtBytes os) 32"
    using assms(1) by (auto simp: loadOrCreateSecret_def Let_def split: if_splits sum.splits)
  have "TrimSpace s = s"
    using mustGenerateHex_facts(3) [of "bJwtBytes os" 32] by (intro TrimSpace_graph) (auto simp: s list_all_iff)
  then show ?thesis using assms(2) s by (simp add: loadOrCreateSecret_def)
qed

lemma jwt_secret_survives_restart_example:
  "let s = mustGenerateHex word_of_nat 32 in loadOrCreateSecret (freshOs\<lparr>bRead := (\<lambda>p. Inr s)\<rparr>) [] ''key'' = (s, [])"
proof -
  let ?s = "mustGenerateHex word_of_nat 32"
  have "loadOrCreateSecret freshOs [] ''key'' = (?s, [(''key'', ?s)])"
    by (simp add: loadOrCreateSecret_def freshOs_def Let_def)
  then have "loadOrCreateSecret (freshOs\<lparr>bRead := (\<lambda>p. Inr ?s)\<rparr>) [] ''key'' = (?s, [])"
    by (rule jwt_secret_survives_restart) (simp add: freshOs_def)
  then show ?thesis by (simp add: Let_def)
qed

text \<open>
  The base URL of the artifacts that the server sends to its agents is the listen address, which
  has no scheme: with the default configuration it is \<^verbatim>\<open>localhost:8080/artifacts\<close>.
\<close>

lemma artifacts_url_no_scheme:
  "\<exists>e db' fs. firstBoot = (Serving e db' False, fs) \<and> eServerURL e @ ''/artifacts'' = ''localhost:8080/artifacts'' \<and>
     \<not> HasPrefix (eServerURL e) ''http''"
proof -
  obtain e db' fs where "firstBoot = (Serving e db' False, fs)" "eServerURL e = ''localhost:8080''"
    using first_serving by blast
  then show ?thesis by (intro exI [of _ e] exI [of _ db'] exI [of _ fs]) simp
qed

end
