(* ===== verification/Secret_Refs.thy ===== *)
theory Secret_Refs
  imports Common_Types
begin

text \<open>
  Secret references: \<^verbatim>\<open>ResolveSecrets\<close> and \<^verbatim>\<open>ResolveEnvSecrets\<close> of
  \<^verbatim>\<open>internal/common/types.go\<close>. The loop rewrites the first reference of the text until
  none is left, and it looks at the text it has already inserted: it need not end. The model
  is a partial function whose value \<open>None\<close> is a loop that runs forever. The lemmas give the
  bounds of every slice, termination when no secret value holds a dollar sign, the result on
  templates, and a secret that makes the loop endless.
\<close>

definition secret_prefix :: string where "secret_prefix = ''${{ secrets.''"
definition secret_suffix :: string where "secret_suffix = '' }}''"

text \<open>\<^verbatim>\<open>s[i:j]\<close>, for \<open>i \<le> j \<le> length s\<close>.\<close>

definition slice :: "string \<Rightarrow> nat \<Rightarrow> nat \<Rightarrow> string" where
  "slice s i j = take (j - i) (drop i s)"

partial_function (option) ResolveSecrets :: "string \<Rightarrow> smap \<Rightarrow> string option" where
  "ResolveSecrets result secrets =
     (case Index result secret_prefix of
        None \<Rightarrow> Some result
      | Some start \<Rightarrow>
         (case Index (drop start result) secret_suffix of
            None \<Rightarrow> Some result
          | Some e \<Rightarrow>
             (let end' = e + start;
                  name = TrimSpace (slice result (start + length secret_prefix) end')
              in ResolveSecrets
                   (take start result @ smap_get secrets name @ drop (end' + length secret_suffix) result)
                   secrets)))"

text \<open>The loop over the entries of an env map; it runs forever if one of its entries does.\<close>

fun resolveEntries :: "smap \<Rightarrow> smap \<Rightarrow> smap option" where
  "resolveEntries [] secrets = Some []"
| "resolveEntries ((k, v) # env) secrets =
     (case ResolveSecrets v secrets of None \<Rightarrow> None
      | Some v' \<Rightarrow> (case resolveEntries env secrets of None \<Rightarrow> None
                    | Some out \<Rightarrow> Some ((k, v') # out)))"

definition ResolveEnvSecrets :: "smap \<Rightarrow> smap \<Rightarrow> smap option" where
  "ResolveEnvSecrets env secrets = (if env = [] then Some env else resolveEntries env secrets)"

section \<open>Slice bounds\<close>

lemma secret_prefix_Cons: "secret_prefix = CHR ''$'' # ''{{ secrets.''"
  by (simp add: secret_prefix_def)

text \<open>The closing braces are found behind the prefix, never inside it.\<close>

lemma suffix_behind_prefix:
  assumes "Index (secret_prefix @ t) secret_suffix = Some e"
  shows "length secret_prefix \<le> e"
proof (rule ccontr)
  assume "\<not> length secret_prefix \<le> e"
  then have "e \<in> {0, 1, 2, 3, 4, 5, 6, 7, 8, 9, 10, 11}"
    by (simp add: secret_prefix_def, arith)
  moreover have "HasPrefix (drop e (secret_prefix @ t)) secret_suffix"
    using Index_SomeD [OF assms] by simp
  ultimately show False
    by (elim insertE emptyE) (simp_all add: secret_prefix_def secret_suffix_def)
qed

lemma reference_bounds:
  assumes "Index s secret_prefix = Some start" "Index (drop start s) secret_suffix = Some e"
  shows "start + length secret_prefix \<le> e + start" "e + start + length secret_suffix \<le> length s"
proof -
  obtain t where t: "drop start s = secret_prefix @ t"
    using Index_SomeD [OF assms(1)] by (auto simp: HasPrefix_iff)
  then show "start + length secret_prefix \<le> e + start"
    using suffix_behind_prefix assms(2) by simp
  show "e + start + length secret_suffix \<le> length s"
    using Index_length [OF assms(2)] Index_SomeD [OF assms(1)] unfolding length_drop by linarith
qed

section \<open>Termination\<close>

lemma reference_decomp:
  assumes "Index s secret_prefix = Some start" "Index (drop start s) secret_suffix = Some e"
  shows "\<exists>n. s = take start s @ secret_prefix @ n @ secret_suffix @ drop (e + start + length secret_suffix) s
    \<and> slice s (start + length secret_prefix) (e + start) = n"
proof -
  obtain t where t: "drop start s = secret_prefix @ t"
    using Index_SomeD [OF assms(1)] by (auto simp: HasPrefix_iff)
  have le: "length secret_prefix \<le> e" using suffix_behind_prefix assms(2) t by simp
  have "drop start s = take e (drop start s) @ secret_suffix @ drop (e + length secret_suffix) (drop start s)"
    by (rule Index_Some_decomp [OF assms(2)])
  also have "take e (drop start s) = secret_prefix @ take (e - length secret_prefix) t"
    using t le by simp
  finally have "drop start s = secret_prefix @ take (e - length secret_prefix) t @ secret_suffix @
      drop (e + start + length secret_suffix) s" by (simp add: add.commute add.left_commute)
  then have "s = take start s @ secret_prefix @ take (e - length secret_prefix) t @ secret_suffix @
      drop (e + start + length secret_suffix) s" by (metis append_take_drop_id)
  moreover have "slice s (start + length secret_prefix) (e + start) = take (e - length secret_prefix) t"
  proof -
    have "drop (start + length secret_prefix) s = drop (length secret_prefix) (drop start s)"
      by (simp add: add.commute)
    then show ?thesis unfolding t by (simp add: slice_def)
  qed
  ultimately show ?thesis by blast
qed

definition dollar_free :: "smap \<Rightarrow> bool" where
  "dollar_free secrets \<longleftrightarrow> (\<forall>(k, v)\<in>set secrets. CHR ''$'' \<notin> set v)"

lemma dollar_free_get: "dollar_free secrets \<Longrightarrow> CHR ''$'' \<notin> set (smap_get secrets k)"
  by (cases "map_of secrets k") (auto simp: smap_get_def dollar_free_def dest: map_of_SomeD)

lemma resolve_terminates:
  assumes "dollar_free secrets"
  shows "\<exists>r. ResolveSecrets s secrets = Some r"
proof (induction "count_list s (CHR ''$'')" arbitrary: s rule: less_induct)
  case less
  show ?case
  proof (cases "Index s secret_prefix")
    case None
    then show ?thesis by (simp add: ResolveSecrets.simps)
  next
    case start: (Some start)
    show ?thesis
    proof (cases "Index (drop start s) secret_suffix")
      case None
      with start show ?thesis by (simp add: ResolveSecrets.simps)
    next
      case e: (Some e)
      define s' where "s' = take start s @ smap_get secrets (TrimSpace (slice s (start + length secret_prefix) (e + start)))
        @ drop (e + start + length secret_suffix) s"
      obtain n where "s = take start s @ secret_prefix @ n @ secret_suffix @ drop (e + start + length secret_suffix) s"
        using reference_decomp [OF start e] by blast
      then have "count_list s (CHR ''$'') = count_list (take start s @ secret_prefix @ n @ secret_suffix @
          drop (e + start + length secret_suffix) s) (CHR ''$'')" by (rule arg_cong)
      then have "count_list s (CHR ''$'') = count_list (take start s) (CHR ''$'') + 1 + count_list n (CHR ''$'') +
          count_list (drop (e + start + length secret_suffix) s) (CHR ''$'')"
        unfolding count_list_append by (simp add: secret_prefix_def secret_suffix_def)
      then have "count_list s' (CHR ''$'') < count_list s (CHR ''$'')"
        by (simp add: s'_def dollar_free_get [OF assms] count_notin)
      then obtain r where "ResolveSecrets s' secrets = Some r" using less by blast
      then have "ResolveSecrets s secrets = Some r"
        by (subst ResolveSecrets.simps) (simp add: start e s'_def)
      then show ?thesis ..
    qed
  qed
qed

text \<open>An env map resolves entry by entry, keys and order kept.\<close>

lemma resolveEntries_terminates:
  assumes "dollar_free secrets"
  shows "\<exists>out. resolveEntries env secrets = Some out \<and> map fst out = map fst env"
proof (induction env)
  case Nil
  then show ?case by simp
next
  case (Cons kv env)
  obtain v' where "ResolveSecrets (snd kv) secrets = Some v'"
    using resolve_terminates [OF assms] by blast
  with Cons show ?case by (cases kv) auto
qed

lemma resolveEntries_map_of:
  "resolveEntries env secrets = Some out \<Longrightarrow>
   map_of out k = Option.bind (map_of env k) (\<lambda>v. ResolveSecrets v secrets)"
  by (induction env secrets arbitrary: out rule: resolveEntries.induct)
    (auto split: option.splits if_splits)

section \<open>What is left in the result\<close>

text \<open>A text that holds no complete reference any more.\<close>

definition resolved :: "string \<Rightarrow> bool" where
  "resolved r \<longleftrightarrow> (\<forall>a n b. r \<noteq> a @ secret_prefix @ n @ secret_suffix @ b)"

lemma resolvedI:
  assumes "case Index r secret_prefix of None \<Rightarrow> True
    | Some start \<Rightarrow> Index (drop start r) secret_suffix = None"
  shows "resolved r"
  unfolding resolved_def
proof (intro allI notI)
  fix a n b
  assume r: "r = a @ secret_prefix @ n @ secret_suffix @ b"
  then obtain start where start: "Index r secret_prefix = Some start"
    using Index_append_Some [of a secret_prefix "n @ secret_suffix @ b"] by auto
  with assms have none: "Index (drop start r) secret_suffix = None" by simp
  have "start \<le> length a"
    using Index_least [OF start, of "length a"] r by fastforce
  then have "drop start r = (drop start a @ secret_prefix @ n) @ secret_suffix @ b"
    using r by simp
  with none show False using Index_None_iff by blast
qed

lemma resolve_resolved:
  assumes "ResolveSecrets s secrets = Some r"
  shows "resolved r"
proof (rule ResolveSecrets.raw_induct [where P = "\<lambda>s secrets r. resolved r", OF _ assms])
  fix f s secrets r
  assume IH: "\<And>s secrets r. f s secrets = Some r \<Longrightarrow> resolved r"
    and eq: "(case Index s secret_prefix of None \<Rightarrow> Some s
      | Some start \<Rightarrow> (case Index (drop start s) secret_suffix of None \<Rightarrow> Some s
          | Some e \<Rightarrow> (let end' = e + start;
                  name = TrimSpace (slice s (start + length secret_prefix) end')
              in f (take start s @ smap_get secrets name @ drop (end' + length secret_suffix) s) secrets))) = Some r"
  then show "resolved r"
    by (auto split: option.splits simp: Let_def intro!: resolvedI)
qed

section \<open>Templates\<close>

text \<open>
  A template is literal text with references between; the abstract meaning of resolution is
  to replace each reference by the value of its trimmed name.
\<close>

datatype segment = Lit string | Ref string

fun print_segment :: "segment \<Rightarrow> string" where
  "print_segment (Lit t) = t"
| "print_segment (Ref n) = secret_prefix @ n @ secret_suffix"

fun eval_segment :: "smap \<Rightarrow> segment \<Rightarrow> string" where
  "eval_segment secrets (Lit t) = t"
| "eval_segment secrets (Ref n) = smap_get secrets (TrimSpace n)"

fun segment_ok :: "segment \<Rightarrow> bool" where
  "segment_ok (Lit t) \<longleftrightarrow> CHR ''$'' \<notin> set t"
| "segment_ok (Ref n) \<longleftrightarrow> CHR ''}'' \<notin> set n"

lemma Index_suffix_skip:
  assumes "CHR ''}'' \<notin> set p"
  shows "Index (p @ secret_suffix @ b) secret_suffix = Some (length p)"
  using assms
proof (induction p)
  case Nil
  then show ?case by (simp add: secret_suffix_def)
next
  case (Cons c p)
  have "\<not> HasPrefix ((c # p) @ secret_suffix @ b) secret_suffix"
    using Cons.prems by (cases p) (auto simp: secret_suffix_def)
  with Cons show ?case by simp
qed

lemma first_reference:
  assumes "CHR ''$'' \<notin> set a" "CHR ''}'' \<notin> set m" "s = a @ secret_prefix @ m @ secret_suffix @ b"
  obtains "Index s secret_prefix = Some (length a)"
    "Index (drop (length a) s) secret_suffix = Some (length secret_prefix + length m)"
    "slice s (length a + length secret_prefix) (length secret_prefix + length m + length a) = m"
    "drop (length secret_prefix + length m + length a + length secret_suffix) s = b" "take (length a) s = a"
proof -
  have "CHR ''}'' \<notin> set (secret_prefix @ m)" using assms(2) by (simp add: secret_prefix_def)
  from Index_suffix_skip [OF this, of b] have e: "Index (drop (length a) s) secret_suffix = Some (length secret_prefix + length m)"
    by (simp add: assms(3))
  show thesis
    using that Index_skip [OF assms(1) secret_prefix_Cons] e by (simp add: assms(3) slice_def)
qed

lemma resolve_reference:
  assumes "CHR ''$'' \<notin> set a" "CHR ''}'' \<notin> set n"
  shows "ResolveSecrets (a @ secret_prefix @ n @ secret_suffix @ b) secrets =
    ResolveSecrets (a @ smap_get secrets (TrimSpace n) @ b) secrets"
  by (rule first_reference [OF assms refl, of b]) (subst ResolveSecrets.simps, simp)

lemma resolve_segments:
  assumes "dollar_free secrets" "CHR ''$'' \<notin> set done'" "\<forall>g\<in>set segs. segment_ok g"
  shows "ResolveSecrets (done' @ concat (map print_segment segs)) secrets =
    Some (done' @ concat (map (eval_segment secrets) segs))"
  using assms(2,3)
proof (induction segs arbitrary: done')
  case Nil
  then have "Index done' secret_prefix = None" using Index_notin secret_prefix_Cons by blast
  then show ?case by (simp add: ResolveSecrets.simps)
next
  case (Cons g segs)
  show ?case
  proof (cases g)
    case (Lit t)
    with Cons.IH [of "done' @ t"] Cons.prems show ?thesis by simp
  next
    case (Ref n)
    have "CHR ''$'' \<notin> set (done' @ smap_get secrets (TrimSpace n))"
      using Cons.prems dollar_free_get [OF assms(1)] by simp
    with Cons.IH [of "done' @ smap_get secrets (TrimSpace n)"] Cons.prems Ref show ?thesis
      using resolve_reference [of done' n "concat (map print_segment segs)" secrets] by simp
  qed
qed

section \<open>A secret that names itself\<close>

text \<open>A text whose first reference is to \<open>n\<close>: no dollar sign comes before it.\<close>

definition refersTo :: "string \<Rightarrow> string \<Rightarrow> bool" where
  "refersTo n s \<longleftrightarrow> (\<exists>a m b. s = a @ secret_prefix @ m @ secret_suffix @ b \<and>
     CHR ''$'' \<notin> set a \<and> CHR ''}'' \<notin> set m \<and> TrimSpace m = n)"

lemma refersTo_step:
  assumes "refersTo n (smap_get secrets n)" "CHR ''$'' \<notin> set a"
  shows "refersTo n (a @ smap_get secrets n @ b)"
proof -
  obtain a' m b' where "smap_get secrets n = a' @ secret_prefix @ m @ secret_suffix @ b'" "CHR ''$'' \<notin> set a'"
      "CHR ''}'' \<notin> set m" "TrimSpace m = n"
    using assms(1) unfolding refersTo_def by blast
  with assms(2) show ?thesis
    unfolding refersTo_def by (intro exI [of _ "a @ a'"] exI [of _ m] exI [of _ "b' @ b"]) simp
qed

lemma resolve_loops:
  assumes "refersTo n (smap_get secrets n)" "refersTo n s"
  shows "ResolveSecrets s secrets = None"
proof (rule ccontr)
  assume "ResolveSecrets s secrets \<noteq> None"
  then obtain r where "ResolveSecrets s secrets = Some r" by blast
  moreover have "m = secrets \<longrightarrow> \<not> refersTo n s" if "ResolveSecrets s m = Some r" for s m r
  proof (rule ResolveSecrets.raw_induct [where P = "\<lambda>s m r. m = secrets \<longrightarrow> \<not> refersTo n s", OF _ that])
    fix f s m r
    assume IH: "\<And>s m r. f s m = Some r \<Longrightarrow> m = secrets \<longrightarrow> \<not> refersTo n s"
      and eq: "(case Index s secret_prefix of None \<Rightarrow> Some s
        | Some start \<Rightarrow> (case Index (drop start s) secret_suffix of None \<Rightarrow> Some s
            | Some e \<Rightarrow> (let end' = e + start;
                    name = TrimSpace (slice s (start + length secret_prefix) end')
                in f (take start s @ smap_get m name @ drop (end' + length secret_suffix) s) m))) = Some r"
    show "m = secrets \<longrightarrow> \<not> refersTo n s"
    proof (intro impI notI)
      assume m: "m = secrets" and "refersTo n s"
      then obtain a x b where s: "s = a @ secret_prefix @ x @ secret_suffix @ b" "CHR ''$'' \<notin> set a"
          "CHR ''}'' \<notin> set x" "TrimSpace x = n"
        unfolding refersTo_def by blast
      have "f (a @ smap_get secrets n @ b) secrets = Some r"
        by (rule first_reference [OF s(2,3,1)]) (use eq in \<open>simp add: Let_def m s(4)\<close>)
      with IH refersTo_step [OF assms(1) s(2), of b] show False by blast
    qed
  qed
  ultimately show False using assms(2) by blast
qed

section \<open>Properties\<close>

text \<open>
  C31. When no secret value holds a dollar sign, resolution ends on every text, and what it
  returns holds no complete secret reference any more.
\<close>

theorem secrets_resolution_ends:
  assumes "dollar_free secrets"
  shows "\<exists>r. ResolveSecrets s secrets = Some r \<and> resolved r"
  using resolve_terminates [OF assms] resolve_resolved by blast

theorem secrets_resolution_ends_witness:
  "\<exists>r. ResolveSecrets ''curl ${{ secrets.A }} ${{ secrets.'' [(''A'', ''b c'')] = Some r \<and> resolved r"
  by (rule secrets_resolution_ends) (simp add: dollar_free_def)

text \<open>
  C32. When no secret value holds a dollar sign: on a template, literal text without dollar
  signs with references between whose names hold no closing brace, resolution returns the text with each reference replaced by the value of its trimmed name, and by
  nothing when there is no such secret.
\<close>

theorem secrets_resolution_template:
  assumes "dollar_free secrets" "list_all segment_ok segs"
  shows "ResolveSecrets (concat (map print_segment segs)) secrets =
    Some (concat (map (eval_segment secrets) segs))"
  using resolve_segments [of secrets "[]" segs] assms by (simp add: list_all_iff)

theorem secrets_resolution_template_witness:
  "ResolveSecrets ''u=${{ secrets.USER }};p=${{ secrets.NONE }}'' [(''USER'', ''root'')] = Some ''u=root;p=''"
proof -
  let ?segs = "[Lit ''u='', Ref ''USER'', Lit '';p='', Ref ''NONE'']"
  have "TrimSpace ''USER'' = ''USER''" "TrimSpace ''NONE'' = ''NONE''"
    by (simp_all add: TrimSpace_graph graph_char_def)
  with secrets_resolution_template [of "[(''USER'', ''root'')]" ?segs] show ?thesis
    by (simp add: secret_prefix_def secret_suffix_def dollar_free_def)
qed

text \<open>
  C33. A secret whose value refers to the secret itself makes resolution run forever on every
  text that refers to it, whatever surrounds the two references, as long as each is the first of
  its text: no dollar sign comes before it, and its name holds no closing brace. The loop
  rewrites the text it has just inserted.
\<close>

theorem secrets_resolution_self_reference:
  assumes "smap_get secrets n = u @ secret_prefix @ m @ secret_suffix @ v" "CHR ''$'' \<notin> set u" "CHR ''}'' \<notin> set m" "TrimSpace m = n"
    "CHR ''$'' \<notin> set a" "CHR ''}'' \<notin> set m'" "TrimSpace m' = n"
  shows "ResolveSecrets (a @ secret_prefix @ m' @ secret_suffix @ b) secrets = None"
proof -
  have "refersTo n (smap_get secrets n)" unfolding refersTo_def using assms(1-4) by blast
  moreover have "refersTo n (a @ secret_prefix @ m' @ secret_suffix @ b)" unfolding refersTo_def using assms(5-7) by blast
  ultimately show ?thesis by (rule resolve_loops)
qed

theorem secrets_resolution_self_reference_witness:
  "ResolveSecrets ''key=${{ secrets.A }}'' [(''A'', ''-${{ secrets.A }}-'')] = None"
proof -
  have "TrimSpace ''A'' = ''A''" by (simp add: TrimSpace_graph graph_char_def)
  with secrets_resolution_self_reference [of "[(''A'', ''-${{ secrets.A }}-'')]" "''A''" "''-''" "''A''" "''-''" "''key=''" "''A''" "[]"]
  show ?thesis by (simp add: secret_prefix_def secret_suffix_def)
qed

end
