(* ===== verification/Executor.thy ===== *)
theory Executor
  imports Secret_Refs Go_Paths "HOL-Library.Word"
begin

text \<open>
  The step executor of the agent: \<^verbatim>\<open>internal/agent/executor/executor.go\<close>. The operating
  system and the artifact server are a record of functions, a parameter: starting a process,
  the calls of an HTTP client, creating and opening files. A process may run forever, and so may
  what it leaves behind; the context of the step kills it at the deadline. A step's log lines are
  returned with its result; the result \<open>None\<close> is a step that never returns, for its process,
  for the end of its output, or in \<open>ResolveEnvSecrets\<close>. Strings are bytes: \<open>SanitizeLine\<close> decodes UTF-8 as Go's range loop does.
\<close>

section \<open>Sanitising output\<close>

definition byte :: "char \<Rightarrow> nat" where "byte c = of_char c"

definition between :: "nat \<Rightarrow> nat \<Rightarrow> char \<Rightarrow> bool" where
  "between a b c \<longleftrightarrow> a \<le> byte c \<and> byte c \<le> b"

text \<open>
  The length of a match of \<^verbatim>\<open>ansiEscape\<close> at the start of the text. The character classes
  of the control sequence are disjoint, so the greedy match is the only one.
\<close>

definition ansiMatch :: "string \<Rightarrow> nat option" where
  "ansiMatch s = (case s of
      e # c # rest \<Rightarrow>
        if byte e \<noteq> 0x1b then None
        else if between 0x40 0x5a c \<or> between 0x5c 0x5f c then Some 2
        else if c = CHR ''['' then
          (let p = length (takeWhile (between 0x30 0x3f) rest);
               q = length (takeWhile (between 0x20 0x2f) (drop p rest))
           in case drop (p + q) rest of
                [] \<Rightarrow> None
              | f # _ \<Rightarrow> if between 0x40 0x7e f then Some (p + q + 3) else None)
        else None
    | _ \<Rightarrow> None)"

text \<open>\<^verbatim>\<open>ansiEscape.ReplaceAllString(s, "")\<close>: the matches from left to right.\<close>

function stripAnsi :: "string \<Rightarrow> string" where
  "stripAnsi s = (case s of [] \<Rightarrow> []
     | c # cs \<Rightarrow> (case ansiMatch s of None \<Rightarrow> c # stripAnsi cs
                  | Some n \<Rightarrow> stripAnsi (drop (max n 1) s)))"
  by pat_completeness auto
termination
  by (relation "measure length") auto

declare stripAnsi.simps [simp del]

text \<open>
  The width of the rune at the start of a non-empty text, \<open>None\<close> for a byte that starts no
  valid encoding.
\<close>

definition cont :: "nat \<Rightarrow> nat \<Rightarrow> string \<Rightarrow> nat \<Rightarrow> bool" where
  "cont lo hi s i \<longleftrightarrow> i < length s \<and> between lo hi (s ! i)"

definition runeWidth :: "string \<Rightarrow> nat option" where
  "runeWidth s = (case s of [] \<Rightarrow> None
     | c # _ \<Rightarrow>
        if byte c < 0x80 then Some 1
        else if between 0xc2 0xdf c then (if cont 0x80 0xbf s 1 then Some 2 else None)
        else if between 0xe0 0xef c then
          (if cont (if byte c = 0xe0 then 0xa0 else 0x80) (if byte c = 0xed then 0x9f else 0xbf) s 1 \<and>
              cont 0x80 0xbf s 2 then Some 3 else None)
        else if between 0xf0 0xf4 c then
          (if cont (if byte c = 0xf0 then 0x90 else 0x80) (if byte c = 0xf4 then 0x8f else 0xbf) s 1 \<and>
              cont 0x80 0xbf s 2 \<and> cont 0x80 0xbf s 3 then Some 4 else None)
        else None)"

text \<open>A control character, which the mapping drops; an invalid byte becomes U+FFFD.\<close>

definition dropped :: "char \<Rightarrow> bool" where
  "dropped c \<longleftrightarrow> (byte c < 0x20 \<and> byte c \<noteq> 9) \<or> byte c = 0x7f"

function mapRunes :: "string \<Rightarrow> string" where
  "mapRunes s = (case s of [] \<Rightarrow> []
     | c # cs \<Rightarrow> (case runeWidth s of
          None \<Rightarrow> [CHR 0xef, CHR 0xbf, CHR 0xbd] @ mapRunes cs
        | Some n \<Rightarrow> (if dropped c then [] else take (max n 1) s) @ mapRunes (drop (max n 1) s)))"
  by pat_completeness auto
termination
  by (relation "measure length") auto

declare mapRunes.simps [simp del]

definition SanitizeLine :: "string \<Rightarrow> string" where
  "SanitizeLine s = mapRunes (stripAnsi s)"

section \<open>Reading lines\<close>

text \<open>
  \<^verbatim>\<open>DrainPipeLines\<close> on the chunks the reads return before the error that ends them: the
  lines \<open>each\<close> is called with.
\<close>

definition newline :: char where "newline = CHR 0x0A"

fun drain :: "string \<Rightarrow> string list \<Rightarrow> string list" where
  "drain leftover [] = (if leftover \<noteq> [] then [leftover] else [])"
| "drain leftover (chunk # chunks) =
     (if chunk = [] then drain leftover chunks
      else (let lines = Split (leftover @ chunk) newline
            in butlast lines @ drain (last lines) chunks))"

definition DrainPipeLines :: "string list \<Rightarrow> string list" where
  "DrainPipeLines chunks = drain [] chunks"

text \<open>The calls for a pipe that is never closed: all lines but the one that is not complete.\<close>

fun drainOpen :: "string \<Rightarrow> string list \<Rightarrow> string list" where
  "drainOpen leftover [] = []"
| "drainOpen leftover (chunk # chunks) =
     (if chunk = [] then drainOpen leftover chunks
      else (let lines = Split (leftover @ chunk) newline
            in butlast lines @ drainOpen (last lines) chunks))"

section \<open>The environment\<close>

text \<open>
  A process that was started. It ends by itself after some nanoseconds, with the error of
  \<^verbatim>\<open>Wait\<close>, or never; \<open>chKilled\<close> is that error when it is killed. What is read from its output
  and whether the output comes to an end depend on when it is killed, if at all: a process it
  has left behind holds the pipe open as long as it lives.
\<close>

datatype child_end = ExitsAfter int err | NeverExits

record child =
  chEnd :: child_end
  chKilled :: string
  chOutput :: "int option \<Rightarrow> string list"
  chCloses :: "int option \<Rightarrow> bool"

datatype exec_outcome = PipeFailed string | StartFailed string | Started child

text \<open>
  \<^verbatim>\<open>exec.CommandContext\<close>: a command whose context is done is not started, and a process is
  killed when its context is done before it has ended. \<open>waitChild\<close> is \<^verbatim>\<open>Wait\<close>, which returns
  nothing for a process that runs forever.
\<close>

definition expired :: "int option \<Rightarrow> bool" where
  "expired deadline \<longleftrightarrow> (case deadline of None \<Rightarrow> False | Some d \<Rightarrow> d \<le> 0)"

definition killedAt :: "int option \<Rightarrow> child \<Rightarrow> int option" where
  "killedAt deadline c = (case chEnd c of
      ExitsAfter t e \<Rightarrow> (case deadline of Some d \<Rightarrow> if d < t then Some d else None | None \<Rightarrow> None)
    | NeverExits \<Rightarrow> deadline)"

definition waitChild :: "int option \<Rightarrow> child \<Rightarrow> err option" where
  "waitChild deadline c = (if killedAt deadline c \<noteq> None then Some (Some (chKilled c))
     else (case chEnd c of ExitsAfter t e \<Rightarrow> Some e | NeverExits \<Rightarrow> None))"

text \<open>
  \<open>oExec argv env\<close> makes the pipe and starts a process. \<open>oDo method url token body\<close> is the HTTP exchange, status and body of the
  response; \<open>oCopy\<close> writes a file and returns the bytes written.
\<close>

record os =
  oEnviron :: "string list"
  oExec :: "string list \<Rightarrow> string list \<Rightarrow> exec_outcome"
  oNewRequest :: "string \<Rightarrow> string \<Rightarrow> err"
  oDo :: "int option \<Rightarrow> string \<Rightarrow> string \<Rightarrow> string \<Rightarrow> string \<Rightarrow> string + int \<times> string"
  oMkdirAll :: "string \<Rightarrow> err"
  oCreate :: "string \<Rightarrow> err"
  oCopy :: "string \<Rightarrow> string \<Rightarrow> int \<times> err"
  oOpen :: "string \<Rightarrow> string + string"

section \<open>Running a step\<close>

record result =
  rsErr :: err
  rsNeedsReboot :: bool
  rsRebootReason :: string

definition okResult :: result where
  "okResult = \<lparr>rsErr = None, rsNeedsReboot = False, rsRebootReason = []\<rparr>"

definition errResult :: "string \<Rightarrow> result" where
  "errResult msg = \<lparr>rsErr = Some msg, rsNeedsReboot = False, rsRebootReason = []\<rparr>"

type_synonym logline = "string \<times> string"

definition shellArgv :: "string \<Rightarrow> string \<Rightarrow> string list" where
  "shellArgv shell script =
     (if shell = ''bash'' then [''bash'', ''-euo'', ''pipefail'', ''-c'', script]
      else if shell = ''sh'' then [''sh'', ''-e'', ''-c'', script]
      else if shell = ''pwsh'' \<or> shell = ''powershell'' then [''pwsh'', ''-NonInteractive'', ''-Command'', script]
      else if shell = ''cmd'' then [''cmd.exe'', ''/C'', script]
      else if shell = ''python'' \<or> shell = ''python3'' then [''python3'', ''-c'', script]
      else [''bash'', ''-euo'', ''pipefail'', ''-c'', script])"

definition envEntries :: "smap \<Rightarrow> string list" where
  "envEntries m = map (\<lambda>(k, v). k @ ''='' @ v) m"

definition runShell :: "os \<Rightarrow> int option \<Rightarrow> step \<Rightarrow> smap \<Rightarrow> smap \<Rightarrow> logline list \<times> result option" where
  "runShell os deadline step secrets stepEnv =
     (let shell = (if ToLower (sShell step) = [] then ''bash'' else ToLower (sShell step));
          env = oEnviron os @ envEntries secrets @ envEntries stepEnv
      in case oExec os (shellArgv shell (sRun step)) env of
           PipeFailed e \<Rightarrow> ([], Some (errResult (''creating output pipe: '' @ e)))
         | StartFailed e \<Rightarrow> ([], Some (errResult (''starting shell: '' @ e)))
         | Started c \<Rightarrow>
             if expired deadline then ([], Some (errResult ''starting shell: context deadline exceeded''))
             else
               (let killed = killedAt deadline c;
                    chunks = chOutput c killed;
                    drained = chCloses c killed;
                    lines = (if drained then DrainPipeLines chunks else drainOpen [] chunks)
                in (map (\<lambda>line. (LogLevelInfo, SanitizeLine line)) lines,
                    case waitChild deadline c of
                      None \<Rightarrow> None
                    | Some waitErr \<Rightarrow>
                        if \<not> drained then None
                        else Some (case waitErr of Some e \<Rightarrow> errResult (''shell exited with error: '' @ e)
                                   | None \<Rightarrow> okResult))))"

definition withName :: "step \<Rightarrow> string" where
  "withName step = (if smap_get (sWith step) ''artifact'' = [] then smap_get (sWith step) ''name''
                    else smap_get (sWith step) ''artifact'')"

definition arrow :: string where "arrow = [CHR '' '', CHR 0xe2, CHR 0x86, CHR 0x92, CHR '' '']"

definition runDownloadArtifact ::
  "os \<Rightarrow> int option \<Rightarrow> step \<Rightarrow> string \<Rightarrow> string \<Rightarrow> logline list \<times> result" where
  "runDownloadArtifact os deadline step artifactsBaseURL token =
     (let name = withName step;
          path = smap_get (sWith step) ''path'';
          dest = (if path = [] then ''.'' else path);
          url = TrimRight artifactsBaseURL (CHR ''/'') @ ''/'' @ name;
          log1 = [(LogLevelInfo, ''downloading artifact '' @ Quote name @ arrow @ dest)];
          fail = (\<lambda>m. errResult (''download-artifact: '' @ m))
      in if name = [] then ([], errResult ''download-artifact: 'artifact' is required'')
         else case oNewRequest os ''GET'' url of Some e \<Rightarrow> (log1, fail e)
         | None \<Rightarrow> (case oDo os deadline ''GET'' url token [] of
             Inl e \<Rightarrow> (log1, fail e)
           | Inr (status, body) \<Rightarrow>
               if status \<noteq> 200 then (log1, fail (''server returned '' @ Itoa status))
               else (case oMkdirAll os dest of
                 Some e \<Rightarrow> (log1, fail (''mkdir '' @ dest @ '': '' @ e))
               | None \<Rightarrow> (let outPath = joinPath dest name in
                   case oCreate os outPath of
                     Some e \<Rightarrow> (log1, fail (''create '' @ outPath @ '': '' @ e))
                   | None \<Rightarrow> (case oCopy os outPath body of
                       (written, Some e) \<Rightarrow> (log1, fail (''write: '' @ e))
                     | (written, None) \<Rightarrow>
                         (log1 @ [(LogLevelInfo, ''artifact saved to '' @ outPath @ '' ('' @ Itoa written @ '' bytes)'')],
                          okResult))))))"

definition runUploadArtifact ::
  "os \<Rightarrow> int option \<Rightarrow> step \<Rightarrow> string \<Rightarrow> string \<Rightarrow> logline list \<times> result" where
  "runUploadArtifact os deadline step artifactsBaseURL token =
     (let name = withName step;
          src = smap_get (sWith step) ''path'';
          url = TrimRight artifactsBaseURL (CHR ''/'') @ ''?name='' @ name;
          log1 = [(LogLevelInfo, ''uploading artifact '' @ Quote name @ '' from '' @ src)];
          fail = (\<lambda>m. errResult (''upload-artifact: '' @ m))
      in if name = [] \<or> src = [] then ([], fail '''artifact' and 'path' are required'')
         else case oOpen os src of Inl e \<Rightarrow> (log1, fail (''open '' @ src @ '': '' @ e))
         | Inr content \<Rightarrow> (case oNewRequest os ''POST'' url of Some e \<Rightarrow> (log1, fail (''build request: '' @ e))
           | None \<Rightarrow> (case oDo os deadline ''POST'' url token content of
               Inl e \<Rightarrow> (log1, fail e)
             | Inr (status, body) \<Rightarrow>
                 if status \<noteq> 201 then (log1, fail (''server returned '' @ Itoa status @ '': '' @ body))
                 else (log1 @ [(LogLevelInfo, ''artifact uploaded successfully'')], okResult))))"

text \<open>\<^verbatim>\<open>time.Duration(m) * time.Minute\<close>, an \<^verbatim>\<open>int64\<close> product that wraps.\<close>

definition stepDeadline :: "step \<Rightarrow> int option" where
  "stepDeadline step = (if sTimeoutMinutes step > 0
     then Some (sint (word_of_int (sTimeoutMinutes step * 60000000000) :: 64 word)) else None)"

definition RunStep :: "os \<Rightarrow> step \<Rightarrow> smap \<Rightarrow> string \<Rightarrow> string \<Rightarrow> logline list \<times> result option" where
  "RunStep os step secrets artifactsBaseURL token =
     (let deadline = stepDeadline step; ran = (\<lambda>(logs, r). (logs, Some r)) in
      if sUses step = ''reboot'' then
        (let reason = smap_get (sWith step) ''reason'' in
         ([], Some \<lparr>rsErr = None, rsNeedsReboot = True,
                    rsRebootReason = (if reason = [] then ''playbook reboot step'' else reason)\<rparr>))
      else if sUses step = ''download-artifact''
        then ran (runDownloadArtifact os deadline step artifactsBaseURL token)
      else if sUses step = ''upload-artifact''
        then ran (runUploadArtifact os deadline step artifactsBaseURL token)
      else if sUses step = ''upload-logs''
        then ([(LogLevelInfo, ''upload-logs: logs are already streamed in real time'')], Some okResult)
      else if sRun step \<noteq> [] then
        (case ResolveEnvSecrets (sEnv step) secrets of
           None \<Rightarrow> ([], None)
         | Some resolvedEnv \<Rightarrow> runShell os deadline step secrets resolvedEnv)
      else ([], Some (errResult (''unknown step: name='' @ Quote (sName step) @ '' uses='' @ Quote (sUses step)))))"

section \<open>What sanitising leaves\<close>

lemma cont_mono: "cont lo hi s i \<Longrightarrow> 0x80 \<le> lo \<Longrightarrow> hi \<le> 0xbf \<Longrightarrow> cont 0x80 0xbf s i"
  by (simp add: cont_def between_def)

lemma runeWidth_conts:
  assumes "runeWidth s = Some n"
  shows "s \<noteq> [] \<and> (n = 1 \<or> n = 2 \<and> cont 0x80 0xbf s 1 \<or>
    n = 3 \<and> cont 0x80 0xbf s 1 \<and> cont 0x80 0xbf s 2 \<or>
    n = 4 \<and> cont 0x80 0xbf s 1 \<and> cont 0x80 0xbf s 2 \<and> cont 0x80 0xbf s 3)"
proof (cases s)
  case (Cons c cs)
  show ?thesis
    using assms unfolding Cons runeWidth_def list.case
    by (auto split: if_splits intro: cont_mono [where lo = "0xa0" and hi = "0xbf"] cont_mono [where lo = "0x90" and hi = "0xbf"]
        cont_mono [where lo = "0x80" and hi = "0x9f"] cont_mono [where lo = "0x80" and hi = "0x8f"])
qed (use assms in \<open>simp add: runeWidth_def\<close>)

lemma runeWidth_cases:
  assumes "runeWidth s = Some n"
  shows "0 < n \<and> n \<le> length s \<and> (\<forall>i. 0 < i \<longrightarrow> i < n \<longrightarrow> 0x80 \<le> byte (s ! i))"
proof -
  let ?high = "\<lambda>i. i < length s \<and> 0x80 \<le> byte (s ! i)"
  have c: "cont 0x80 0xbf s i \<Longrightarrow> ?high i" for i
    by (auto simp: cont_def between_def)
  have len: "0 < length s" using runeWidth_conts [OF assms] by simp
  have n: "n = 1 \<or> n = 2 \<and> ?high 1 \<or> n = 3 \<and> ?high 1 \<and> ?high 2 \<or> n = 4 \<and> ?high 1 \<and> ?high 2 \<and> ?high 3"
    using runeWidth_conts [OF assms] c by blast
  then have "0 < n \<and> n \<le> length s" using len by linarith
  moreover have "0x80 \<le> byte (s ! i)" if "0 < i" "i < n" for i
  proof -
    have "i = 1 \<or> i = 2 \<or> i = 3" using that n by linarith
    with that n show ?thesis by (elim disjE conjE) simp_all
  qed
  ultimately show ?thesis by blast
qed

lemma runeWidth_take:
  assumes "runeWidth s = Some n"
  shows "runeWidth (take n s @ t) = Some n"
proof -
  obtain c cs where s: "s = c # cs" using runeWidth_conts [OF assms] by (cases s) auto
  have n: "0 < n" "n \<le> length s" using runeWidth_cases [OF assms] by auto
  then obtain cs' where s': "take n s @ t = c # cs'" unfolding s by (cases n) auto
  have eq: "cont lo hi (c # cs') i = cont lo hi (c # cs) i" if "i < n" for lo hi i
    using that n unfolding s' [symmetric] s [symmetric] by (auto simp: cont_def nth_append)
  show ?thesis
    using assms eq [of 1] eq [of 2] eq [of 3] unfolding s' unfolding s runeWidth_def list.case
    by (simp split: if_splits)
qed

lemma mapRunes_Nil [simp]: "mapRunes [] = []"
  by (simp add: mapRunes.simps)

lemma mapRunes_rune:
  assumes "runeWidth s = Some n"
  shows "mapRunes s = (if dropped (hd s) then [] else take n s) @ mapRunes (drop n s)"
proof (cases s)
  case (Cons c cs)
  have "max n 1 = n" using runeWidth_cases [OF assms] by simp
  with assms show ?thesis unfolding Cons by (subst mapRunes.simps) simp
qed (use assms in \<open>simp add: runeWidth_def\<close>)

lemma mapRunes_invalid:
  assumes "runeWidth (c # cs) = None"
  shows "mapRunes (c # cs) = [CHR 0xef, CHR 0xbf, CHR 0xbd] @ mapRunes cs"
  by (subst mapRunes.simps) (simp add: assms)

lemma mapRunes_induct [case_names Nil rune invalid]:
  assumes "P []"
    and "\<And>s n. runeWidth s = Some n \<Longrightarrow> P (drop n s) \<Longrightarrow> P s"
    and "\<And>c cs. runeWidth (c # cs) = None \<Longrightarrow> P cs \<Longrightarrow> P (c # cs)"
  shows "P s"
proof (induction "length s" arbitrary: s rule: less_induct)
  case less
  show ?case
  proof (cases s)
    case (Cons c cs)
    show ?thesis
    proof (cases "runeWidth s")
      case None
      with Cons less show ?thesis using assms(3) by simp
    next
      case (Some n)
      with runeWidth_cases [OF Some] Cons less show ?thesis using assms(2) [OF Some] by simp
    qed
  qed (simp add: assms(1))
qed

lemma not_dropped_high: "0x80 \<le> byte c \<Longrightarrow> \<not> dropped c"
  by (simp add: dropped_def)

lemma mapRunes_clean: "list_all (\<lambda>c. \<not> dropped c) (mapRunes s)"
proof (induction s rule: mapRunes_induct)
  case (rune s n)
  have "list_all (\<lambda>c. \<not> dropped c) (take n s)" if "\<not> dropped (hd s)"
    unfolding list_all_length
  proof (intro allI impI)
    fix i
    assume i: "i < length (take n s)"
    show "\<not> dropped (take n s ! i)"
      using i that runeWidth_cases [OF rune.hyps] runeWidth_conts [OF rune.hyps] not_dropped_high
      by (cases i) (auto simp: hd_conv_nth)
  qed
  with rune.IH show ?case by (simp add: mapRunes_rune [OF rune.hyps])
next
  case (invalid c cs)
  then show ?case by (simp add: mapRunes_invalid dropped_def byte_def)
qed simp

lemma mapRunes_idem: "mapRunes (mapRunes s) = mapRunes s"
proof (induction s rule: mapRunes_induct)
  case (rune s n)
  have "0 < n" "n \<le> length s" using runeWidth_cases [OF rune.hyps] by auto
  then have "hd (take n s @ t) = hd s" "drop n (take n s @ t) = t" for t by (cases s; auto)+
  then have "mapRunes (take n s @ t) = (if dropped (hd s) then [] else take n s) @ mapRunes t" for t
    using mapRunes_rune [OF runeWidth_take [OF rune.hyps, of t]] \<open>n \<le> length s\<close> by simp
  with rune.IH show ?case by (simp add: mapRunes_rune [OF rune.hyps])
next
  case (invalid c cs)
  have "runeWidth ([CHR 0xef, CHR 0xbf, CHR 0xbd] @ t) = Some 3" for t
    by (simp add: runeWidth_def cont_def between_def byte_def)
  from mapRunes_rune [OF this] have "mapRunes ([CHR 0xef, CHR 0xbf, CHR 0xbd] @ t) =
      [CHR 0xef, CHR 0xbf, CHR 0xbd] @ mapRunes t" for t
    by (simp add: dropped_def byte_def)
  with invalid show ?case by (simp add: mapRunes_invalid)
qed simp

lemma stripAnsi_no_escape:
  assumes "list_all (\<lambda>c. byte c \<noteq> 0x1b) s"
  shows "stripAnsi s = s"
  using assms
proof (induction s)
  case (Cons c s)
  then have "ansiMatch (c # s) = None" by (simp add: ansiMatch_def split: list.splits)
  with Cons show ?case by (subst stripAnsi.simps) simp
qed (simp add: stripAnsi.simps)

lemma mapRunes_ascii:
  assumes "list_all (\<lambda>c. byte c < 0x80 \<and> \<not> dropped c) s"
  shows "mapRunes s = s"
  using assms
proof (induction s)
  case (Cons c s)
  then have "runeWidth (c # s) = Some 1" by (simp add: runeWidth_def)
  from mapRunes_rune [OF this] Cons show ?case by simp
qed simp

section \<open>Lines and chunks\<close>

lemma Split_append:
  "Split (xs @ ys) c = butlast (Split xs c) @ Split (last (Split xs c) @ ys) c"
proof (induction xs)
  case (Cons x xs)
  obtain z zs where z: "Split xs c = z # zs" by (meson Split_nonempty neq_Nil_conv)
  show ?case
  proof (cases "zs = []")
    case True
    have "c \<notin> set z" using Split_no_sep [of z xs c] z by simp
    with True z Cons show ?thesis by (auto split: list.splits)
  qed (use z Cons in \<open>auto split: list.splits\<close>)
qed simp

lemma drain_concat:
  "newline \<notin> set leftover \<Longrightarrow>
   drain leftover chunks = (let ls = Split (leftover @ concat chunks) newline
      in butlast ls @ (if last ls = [] then [] else [last ls]))"
proof (induction leftover chunks rule: drain.induct)
  case (1 leftover)
  then show ?case by (simp add: Split_plain)
next
  case (2 leftover chunk chunks)
  show ?case
  proof (cases "chunk = []")
    case False
    let ?ls = "Split (leftover @ chunk) newline"
    have "newline \<notin> set (last ?ls)" using Split_no_sep [of "last ?ls" "leftover @ chunk" newline] by simp
    with 2 False have "drain (last ?ls) chunks = (let ls = Split (last ?ls @ concat chunks) newline
        in butlast ls @ (if last ls = [] then [] else [last ls]))" by simp
    moreover have "Split (leftover @ concat (chunk # chunks)) newline =
        butlast ?ls @ Split (last ?ls @ concat chunks) newline"
      using Split_append [of "leftover @ chunk" "concat chunks" newline] by simp
    ultimately show ?thesis using False by (simp add: butlast_append Let_def)
  qed (use 2 in simp)
qed

lemma drainOpen_concat:
  "newline \<notin> set leftover \<Longrightarrow> drainOpen leftover chunks = butlast (Split (leftover @ concat chunks) newline)"
proof (induction leftover chunks rule: drainOpen.induct)
  case (1 leftover)
  then show ?case by (simp add: Split_plain)
next
  case (2 leftover chunk chunks)
  let ?ls = "Split (leftover @ chunk) newline"
  have "newline \<notin> set (last ?ls)" using Split_no_sep [of "last ?ls" "leftover @ chunk" newline] by simp
  moreover have "Split (leftover @ concat (chunk # chunks)) newline =
      butlast ?ls @ Split (last ?ls @ concat chunks) newline"
    using Split_append [of "leftover @ chunk" "concat chunks" newline] by simp
  ultimately show ?case using 2 by (cases "chunk = []") (simp_all add: butlast_append Let_def)
qed

section \<open>Results of the actions\<close>

lemma results_no_reboot [simp]: "\<not> rsNeedsReboot okResult" "\<not> rsNeedsReboot (errResult m)"
  by (simp_all add: okResult_def errResult_def)

lemma runShell_no_reboot: "snd (runShell os dl st secrets env) = Some r \<Longrightarrow> \<not> rsNeedsReboot r"
  by (auto simp: runShell_def Let_def split: exec_outcome.splits option.splits if_splits)

text \<open>
  The process of a step comes to an end: whatever is started, nothing it leaves behind keeps its
  output open, and it ends by itself unless the step has a timeout.
\<close>

definition processEnds :: "os \<Rightarrow> step \<Rightarrow> bool" where
  "processEnds os st \<longleftrightarrow> (\<forall>argv env c. oExec os argv env = Started c \<longrightarrow>
     (\<forall>k. chCloses c k) \<and> (sTimeoutMinutes st > 0 \<or> chEnd c \<noteq> NeverExits))"

lemma waitChild_returns: "deadline \<noteq> None \<or> chEnd c \<noteq> NeverExits \<Longrightarrow> waitChild deadline c \<noteq> None"
  by (auto simp: waitChild_def killedAt_def split: child_end.splits option.splits if_splits)

lemma runShell_returns:
  assumes "processEnds os st"
  shows "snd (runShell os (stepDeadline st) st secrets env) \<noteq> None"
proof -
  have "(\<forall>k. chCloses c k) \<and> waitChild (stepDeadline st) c \<noteq> None" if "oExec os argv e = Started c" for argv e c
    using assms that waitChild_returns [of "stepDeadline st" c] by (auto simp: processEnds_def stepDeadline_def)
  then show ?thesis
    by (auto simp: runShell_def Let_def simp del: not_None_eq split: exec_outcome.split option.split)
qed

lemma RunStep_returns:
  assumes "dollar_free secrets" "processEnds os st"
  shows "snd (RunStep os st secrets url token) \<noteq> None"
proof -
  obtain env where "ResolveEnvSecrets (sEnv st) secrets = Some env"
    using resolveEntries_terminates [OF assms(1), of "sEnv st"]
    by (cases "sEnv st = []") (auto simp: ResolveEnvSecrets_def)
  then show ?thesis using runShell_returns [OF assms(2)] by (auto simp: RunStep_def Let_def case_prod_beta)
qed

lemma runDownload_no_reboot [simp]: "\<not> rsNeedsReboot (snd (runDownloadArtifact os dl st url token))"
  by (simp add: runDownloadArtifact_def Let_def split: option.split sum.split prod.split)

lemma runUpload_no_reboot [simp]: "\<not> rsNeedsReboot (snd (runUploadArtifact os dl st url token))"
  by (simp add: runUploadArtifact_def Let_def split: option.split sum.split prod.split)

lemma RunStep_reboot:
  "snd (RunStep os st secrets url token) = Some r \<Longrightarrow> rsNeedsReboot r \<longleftrightarrow> sUses st = ''reboot''"
  by (auto simp: RunStep_def Let_def case_prod_beta dest: runShell_no_reboot split: if_splits option.splits)

section \<open>Properties\<close>

text \<open>
  C36. A sanitised line holds no control character but the tab, whatever bytes the process
  wrote, and sanitising it again changes nothing.
\<close>

theorem sanitize_clean:
  "list_all (\<lambda>c. 0x20 \<le> byte c \<and> byte c \<noteq> 0x7f \<or> byte c = 9) (SanitizeLine s) \<and>
   SanitizeLine (SanitizeLine s) = SanitizeLine s"
proof -
  have clean: "list_all (\<lambda>c. \<not> dropped c) (SanitizeLine s)"
    unfolding SanitizeLine_def by (rule mapRunes_clean)
  then have "stripAnsi (SanitizeLine s) = SanitizeLine s"
    by (intro stripAnsi_no_escape) (auto simp: list_all_iff dropped_def)
  with clean show ?thesis
    by (auto simp: SanitizeLine_def mapRunes_idem list_all_iff dropped_def)
qed

text \<open>A line of printable ASCII characters and tabs is logged as it is.\<close>

lemma sanitize_printable:
  assumes "list_all (\<lambda>c. 0x20 \<le> byte c \<and> byte c < 0x7f \<or> byte c = 9) s"
  shows "SanitizeLine s = s"
proof -
  have "list_all (\<lambda>c. byte c \<noteq> 0x1b) s" "list_all (\<lambda>c. byte c < 0x80 \<and> \<not> dropped c) s"
    using assms by (auto simp: list_all_iff dropped_def)
  then show ?thesis by (simp add: SanitizeLine_def stripAnsi_no_escape mapRunes_ascii)
qed

text \<open>
  C37. The lines a process logs depend only on its output, not on how the pipe cuts it into
  chunks: they are the lines of the whole output, with the last one only if it is not empty.
\<close>

theorem drain_lines:
  "DrainPipeLines chunks = (let ls = Split (concat chunks) newline
     in butlast ls @ (if last ls = [] then [] else [last ls]))"
  unfolding DrainPipeLines_def using drain_concat [of "[]" chunks] by simp

text \<open>
  C38. A step returns a result when no secret value holds a dollar sign and its process comes to
  an end: nothing that the process leaves behind keeps its output open, and it ends by itself or
  the step has a timeout, which kills it. The result asks for a reboot exactly when the step is
  the reboot action.
\<close>

theorem step_returns:
  assumes "dollar_free secrets"
    "\<And>argv env c. oExec os argv env = Started c \<Longrightarrow> (\<forall>k. chCloses c k) \<and> (sTimeoutMinutes st > 0 \<or> chEnd c \<noteq> NeverExits)"
  shows "\<exists>logs r. RunStep os st secrets url token = (logs, Some r) \<and>
    (rsNeedsReboot r \<longleftrightarrow> sUses st = ''reboot'')"
proof -
  have "processEnds os st" unfolding processEnds_def using assms(2) by blast
  then obtain r where "snd (RunStep os st secrets url token) = Some r" using RunStep_returns [OF assms(1)] by blast
  with RunStep_reboot [OF this] show ?thesis by (metis prod.collapse)
qed

definition quietChild :: child where
  "quietChild = \<lparr>chEnd = ExitsAfter 1 None, chKilled = ''signal: killed'', chOutput = (\<lambda>k. [''ok'']), chCloses = (\<lambda>k. True)\<rparr>"

definition quietOs :: os where
  "quietOs = \<lparr>oEnviron = [], oExec = (\<lambda>argv env. Started quietChild), oNewRequest = (\<lambda>m u. None),
     oDo = (\<lambda>dl m u t b. Inr (200, [])), oMkdirAll = (\<lambda>p. None), oCreate = (\<lambda>p. None),
     oCopy = (\<lambda>p b. (0, None)), oOpen = (\<lambda>p. Inr [])\<rparr>"

definition echoStep :: step where
  "echoStep = \<lparr>sName = ''one'', sRun = ''echo ok'', sShell = [], sUses = [], sWith = [],
     sEnv = [(''K'', ''${{ secrets.A }}'')], sContinueOnError = False, sTimeoutMinutes = 0\<rparr>"

text \<open>A machine on which every process runs forever, until it is killed.\<close>

definition foreverOs :: os where
  "foreverOs = quietOs\<lparr>oExec := (\<lambda>argv env. Started (quietChild\<lparr>chEnd := NeverExits\<rparr>))\<rparr>"

theorem step_returns_witness:
  "\<exists>logs r. RunStep foreverOs (echoStep\<lparr>sTimeoutMinutes := 5\<rparr>) [(''A'', ''v'')] [] [] = (logs, Some r) \<and> \<not> rsNeedsReboot r"
  using step_returns [of "[(''A'', ''v'')]" foreverOs "echoStep\<lparr>sTimeoutMinutes := 5\<rparr>" "[]" "[]"]
  by (simp add: dollar_free_def echoStep_def foreverOs_def quietOs_def quietChild_def)

text \<open>
  Each condition is needed: without a timeout a process that runs forever holds the step, and
  with one a process that was left behind still does, since the executor goes on reading the
  output of the one it has killed.
\<close>

lemma endless_step_hangs:
  "snd (RunStep foreverOs (echoStep\<lparr>sEnv := []\<rparr>) [] [] []) = None"
  by (simp add: RunStep_def ResolveEnvSecrets_def echoStep_def stepDeadline_def runShell_def foreverOs_def quietOs_def
      quietChild_def expired_def waitChild_def killedAt_def)

lemma timeout_not_enough:
  assumes "oExec os = (\<lambda>argv env. Started c)" "\<And>k. \<not> chCloses c k"
  shows "snd (RunStep os (echoStep\<lparr>sEnv := [], sTimeoutMinutes := 5\<rparr>) [] [] []) = None"
  by (simp add: RunStep_def ResolveEnvSecrets_def echoStep_def stepDeadline_def runShell_def assms Let_def expired_def
      split: option.split)

end
