(* ===== verification/Agent.thy ===== *)
theory Agent
  imports Executor Ws_Handler
begin

text \<open>
  The agent's work: \<^verbatim>\<open>internal/agent/agent.go\<close>. \<open>runPlaybook\<close> gives the messages a run
  hands to its message writer, in order, and how the run ended; the operating system of each
  step is a parameter, since running the same command twice need not give the same. The
  message writer is a channel of 256 messages and the goroutine that drains it into the
  WebSocket; a connection may break at any moment, and what the server has received is then a
  prefix of what the run has sent.
\<close>

section \<open>Running a playbook\<close>

text \<open>How a run ended: all steps done, rebooting, a failed step, a step that never returns, a
  message without playbook, which is a nil dereference.\<close>

datatype run_end = Completed | Rebooting | Aborted | Hung | Crashed

definition stepTitle :: "ordered_step \<Rightarrow> string" where
  "stepTitle fs = (if sName (osStep fs) = [] then ''step-'' @ Itoa (osGlobalIndex fs) else sName (osStep fs))"

definition stepData :: "string \<Rightarrow> ordered_step \<Rightarrow> ws_step_data" where
  "stepData deploymentID fs = \<lparr>wsDeploymentID = deploymentID, wsJobName = osJobName fs,
     wsStepName = stepTitle fs, wsStepIndex = osGlobalIndex fs, wsError = []\<rparr>"

definition logMessage :: "string \<Rightarrow> ordered_step \<Rightarrow> logline \<Rightarrow> agent_msg" where
  "logMessage deploymentID fs l = MsgLog \<lparr>wlDeploymentID = deploymentID, wlJobName = osJobName fs,
     wlStepIndex = osGlobalIndex fs, wlLevel = fst l, wlMessage = snd l\<rparr>"

fun runSteps :: "(int \<Rightarrow> os) \<Rightarrow> string \<Rightarrow> ws_playbook_data \<Rightarrow> ordered_step list \<Rightarrow> agent_msg list \<times> run_end" where
  "runSteps osAt token pd [] =
     ([MsgDeployDone \<lparr>wsDeploymentID = wpDeploymentID pd, wsJobName = [], wsStepName = [], wsStepIndex = 0,
                      wsError = []\<rparr>], Completed)"
| "runSteps osAt token pd (fs # rest) =
     (if osGlobalIndex fs < wpResumeStepIndex pd then runSteps osAt token pd rest
      else
        (let deploymentID = wpDeploymentID pd;
             d = stepData deploymentID fs;
             (lines, result) = RunStep (osAt (osGlobalIndex fs)) (osStep fs) (wpSecrets pd) (wpArtifactsBaseURL pd) token;
             sent = MsgStepStart d # map (logMessage deploymentID fs) lines
         in case result of
              None \<Rightarrow> (sent, Hung)
            | Some r \<Rightarrow>
                if rsNeedsReboot r then
                  (let resumeAt = osGlobalIndex fs + 1 in
                   (sent @ [logMessage deploymentID fs (LogLevelInfo, ''step '' @ Quote (stepTitle fs) @
                              '' requested reboot (reason: '' @ rsRebootReason r @ ''); will resume at step '' @
                              Itoa resumeAt),
                            MsgReboot \<lparr>wrDeploymentID = deploymentID, wrResumeStepIndex = resumeAt,
                                       wrReason = rsRebootReason r\<rparr>], Rebooting))
                else (case rsErr r of
                    Some err \<Rightarrow>
                      if sContinueOnError (osStep fs) then
                        (let (ms, e) = runSteps osAt token pd rest in
                         (sent @ [logMessage deploymentID fs (LogLevelWarn, ''step '' @ Quote (stepTitle fs) @
                                    '' failed (continue-on-error): '' @ err),
                                  MsgStepComplete d] @ ms, e))
                      else
                        (let errMsg = ''step '' @ Quote (stepTitle fs) @ '' failed: '' @ err in
                         (sent @ [logMessage deploymentID fs (LogLevelError, errMsg),
                                  MsgDeployFailed (d\<lparr>wsError := errMsg\<rparr>)], Aborted))
                  | None \<Rightarrow>
                      (let (ms, e) = runSteps osAt token pd rest in (sent @ [MsgStepComplete d] @ ms, e)))))"

definition runPlaybook :: "(int \<Rightarrow> os) \<Rightarrow> string \<Rightarrow> ws_playbook_data \<Rightarrow> agent_msg list \<times> run_end" where
  "runPlaybook osAt token pd = (case wpPlaybook pd of
      None \<Rightarrow> ([], Crashed)
    | Some pb \<Rightarrow> runSteps osAt token pd (FlattenPlaybook pb))"

section \<open>Running a command\<close>

text \<open>
  What becomes of a command: an error on the way to its process, a process whose output ends, or
  one whose output is open forever, with what has been read of it.
\<close>

datatype cmd_exit = ExitOk | ExitCode int | WaitError string | StillRuns
datatype cmd_outcome = CmdTempFailed string | CmdPipeFailed string | CmdStartFailed string
  | CmdRan "string list" cmd_exit | CmdOpen "string list"

text \<open>
  The default shell of the platform, the temporary batch file (its path or an error) and the
  process, run with its arguments, its directory and the content of the batch file.
\<close>

record cmd_os =
  coDefaultShell :: string
  coCreateTemp :: "string + string"
  coExec :: "string list \<Rightarrow> string \<Rightarrow> string \<Rightarrow> cmd_outcome"

definition crlf :: string where "crlf = [CHR 0x0D, CHR 0x0A]"

definition batchFile :: "string \<Rightarrow> string" where
  "batchFile command = ''@echo off'' @ crlf @ concat (map (\<lambda>c. if c = newline then crlf else [c]) command)"

definition commandArgv :: "string \<Rightarrow> string \<Rightarrow> string list" where
  "commandArgv shell command =
     (if shell = ''bash'' then [''bash'', ''-c'', command]
      else if shell = ''sh'' then [''sh'', ''-c'', command]
      else if shell = ''pwsh'' then [''pwsh'', ''-NonInteractive'', ''-Command'', command]
      else if shell = ''powershell'' then [''powershell.exe'', ''-NonInteractive'', ''-Command'', command]
      else if shell = ''cmd'' then [''cmd.exe'', ''/C'', command]
      else [''bash'', ''-c'', command])"

definition sendDone :: "ws_command_data \<Rightarrow> int \<Rightarrow> string \<Rightarrow> agent_msg" where
  "sendDone cd exitCode errMsg =
     MsgCommandCompleted \<lparr>wtCmdID = wcCmdID cd, wtExitCode = exitCode, wtError = errMsg\<rparr>"

definition streamLines :: "ws_command_data \<Rightarrow> string list \<Rightarrow> agent_msg list" where
  "streamLines cd lines = map (\<lambda>line. MsgCommandStream \<lparr>wkCmdID = wcCmdID cd, wkOutput = SanitizeLine line\<rparr>) lines"

definition finishCommand :: "ws_command_data \<Rightarrow> cmd_outcome \<Rightarrow> agent_msg list" where
  "finishCommand cd out = (case out of
      CmdTempFailed e \<Rightarrow> [sendDone cd 1 (''temp file: '' @ e)]
    | CmdPipeFailed e \<Rightarrow> [sendDone cd 1 (''pipe: '' @ e)]
    | CmdStartFailed e \<Rightarrow> [sendDone cd 1 (''start: '' @ e)]
    | CmdRan chunks ex \<Rightarrow>
        streamLines cd (DrainPipeLines chunks)
        @ (case ex of ExitOk \<Rightarrow> [sendDone cd 0 []] | ExitCode n \<Rightarrow> [sendDone cd n []] | WaitError e \<Rightarrow> [sendDone cd 1 e]
           | StillRuns \<Rightarrow> [])
    | CmdOpen chunks \<Rightarrow> streamLines cd (drainOpen [] chunks))"

text \<open>The command line, and what becomes of it.\<close>

definition commandOutcome :: "cmd_os \<Rightarrow> string \<Rightarrow> ws_command_data \<Rightarrow> cmd_outcome" where
  "commandOutcome co workDir cd =
     (let shell = (if ToLower (wcShell cd) = [] then coDefaultShell co else ToLower (wcShell cd)) in
      if shell = ''cmd'' \<and> Contains (wcCommand cd) [newline] then
        (case coCreateTemp co of
           Inl e \<Rightarrow> CmdTempFailed e
         | Inr tmpFile \<Rightarrow> coExec co [''cmd.exe'', ''/C'', tmpFile] workDir (batchFile (wcCommand cd)))
      else coExec co (commandArgv shell (wcCommand cd)) workDir [])"

definition runCommand :: "cmd_os \<Rightarrow> string \<Rightarrow> ws_command_data \<Rightarrow> agent_msg list" where
  "runCommand co workDir cd = finishCommand cd (commandOutcome co workDir cd)"

section \<open>The message writer\<close>

record message_writer =
  mwQueue :: "agent_msg list"
  mwTaken :: nat
  mwStop :: bool
  mwDone :: bool
  mwWritten :: "agent_msg list"

definition newMessageWriter :: message_writer where
  "newMessageWriter = \<lparr>mwQueue = [], mwTaken = 0, mwStop = False, mwDone = False, mwWritten = []\<rparr>"

definition writerCap :: nat where "writerCap = 256"

definition mwBuffered :: "message_writer \<Rightarrow> nat" where
  "mwBuffered w = length (mwQueue w) - mwTaken w"

text \<open>The two ways a \<^verbatim>\<open>Send\<close> returns: the message is queued, or dropped since the writer is done.\<close>

definition enqueue :: "agent_msg \<Rightarrow> message_writer \<Rightarrow> message_writer" where
  "enqueue m w = w\<lparr>mwQueue := mwQueue w @ [m]\<rparr>"

text \<open>A turn of the goroutine: a message with the outcome of its write, or the stop channel.\<close>

datatype writer_case = WriteOne bool | StopSeen

fun turnEnabled :: "writer_case \<Rightarrow> message_writer \<Rightarrow> bool" where
  "turnEnabled (WriteOne wrote) w \<longleftrightarrow> \<not> mwDone w \<and> mwTaken w < length (mwQueue w)"
| "turnEnabled StopSeen w \<longleftrightarrow> \<not> mwDone w \<and> mwStop w"

fun writerTurn :: "writer_case \<Rightarrow> message_writer \<Rightarrow> message_writer" where
  "writerTurn (WriteOne wrote) w =
     (if wrote then w\<lparr>mwTaken := mwTaken w + 1, mwWritten := mwWritten w @ [mwQueue w ! mwTaken w]\<rparr>
      else w\<lparr>mwTaken := mwTaken w + 1, mwDone := True\<rparr>)"
| "writerTurn StopSeen w = w\<lparr>mwDone := True\<rparr>"

text \<open>
  The states of a writer after the messages \<open>ms\<close> were handed to \<^verbatim>\<open>Send\<close>, in this order,
  by a run and the goroutine in any interleaving.
\<close>

inductive writer_reach :: "agent_msg list \<Rightarrow> message_writer \<Rightarrow> bool" where
  start: "writer_reach [] newMessageWriter"
| queued: "writer_reach ms w \<Longrightarrow> mwBuffered w < writerCap \<Longrightarrow> writer_reach (ms @ [m]) (enqueue m w)"
| dropped: "writer_reach ms w \<Longrightarrow> mwDone w \<Longrightarrow> writer_reach (ms @ [m]) w"
| stop: "writer_reach ms w \<Longrightarrow> writer_reach ms (w\<lparr>mwStop := True\<rparr>)"
| turn: "writer_reach ms w \<Longrightarrow> turnEnabled k w \<Longrightarrow> writer_reach ms (writerTurn k w)"

definition writer_inv :: "agent_msg list \<Rightarrow> message_writer \<Rightarrow> bool" where
  "writer_inv ms w \<longleftrightarrow> mwTaken w \<le> length (mwQueue w) \<and> mwBuffered w \<le> writerCap \<and>
     (mwDone w \<or> mwQueue w = ms) \<and> prefix (take (mwTaken w) (mwQueue w)) ms \<and>
     prefix (mwWritten w) (take (mwTaken w) (mwQueue w)) \<and>
     (mwDone w \<or> mwWritten w = take (mwTaken w) (mwQueue w))"

lemma writer_inv: "writer_reach ms w \<Longrightarrow> writer_inv ms w"
proof (induction rule: writer_reach.induct)
  case (turn ms w k)
  have "prefix (take n q @ [q ! n]) q" if "n < length q" for n and q :: "agent_msg list"
    using that take_is_prefix [of "Suc n" q] by (simp add: take_Suc_conv_app_nth)
  with turn show ?case
    by (cases k) (auto simp: writer_inv_def mwBuffered_def take_Suc_conv_app_nth take_is_prefix
        intro: prefix_order.trans)
qed (auto simp: writer_inv_def newMessageWriter_def mwBuffered_def enqueue_def)

section \<open>What a run reports\<close>

text \<open>The steps a message reports as done: a completion, or the reboot step itself.\<close>

fun reported :: "agent_msg \<Rightarrow> int list" where
  "reported (MsgStepComplete d) = [wsStepIndex d]"
| "reported (MsgReboot d) = [wrResumeStepIndex d - 1]"
| "reported _ = []"

abbreviation "reports ms \<equiv> concat (map reported ms)"

text \<open>
  \<open>tracks i g ms g'\<close>: while the messages \<open>ms\<close> arrive, the resume index the server keeps for
  deployment \<open>i\<close> runs from \<open>g\<close> to \<open>g'\<close>, and at every moment the steps reported so far are
  exactly those from \<open>g\<close> up to it, in order.
\<close>

definition tracks :: "string \<Rightarrow> int \<Rightarrow> agent_msg list \<Rightarrow> int \<Rightarrow> bool" where
  "tracks i g ms g' \<longleftrightarrow> (\<forall>p. pResume p = g \<longrightarrow> pResume (advances i ms p) = g' \<and>
     (\<forall>ms'. prefix ms' ms \<longrightarrow> g \<le> pResume (advances i ms' p) \<and>
        reports ms' = [g .. pResume (advances i ms' p) - 1]))"

lemma upto_glue: "g \<le> h \<Longrightarrow> h \<le> k \<Longrightarrow> [g .. h - 1] @ [h .. k - 1] = [g .. k - 1]" for g h k :: int
  using upto_split1 [of g h "k - 1"] by (cases "h = k") auto

lemma tracks_Nil [intro]: "tracks i g [] g"
  by (simp add: tracks_def)

lemma tracks_append:
  assumes "tracks i g ms h" "tracks i h ms' k"
  shows "tracks i g (ms @ ms') k"
  unfolding tracks_def
proof (intro allI impI)
  fix p :: progress
  assume p: "pResume p = g"
  let ?q = "advances i ms p"
  have q: "pResume ?q = h" "g \<le> h" "reports ms = [g .. h - 1]"
    using assms(1) p unfolding tracks_def by (auto dest!: spec [of _ p])
  show "pResume (advances i (ms @ ms') p) = k \<and> (\<forall>ms''. prefix ms'' (ms @ ms') \<longrightarrow>
      g \<le> pResume (advances i ms'' p) \<and> reports ms'' = [g .. pResume (advances i ms'' p) - 1])"
  proof (intro conjI allI impI)
    show "pResume (advances i (ms @ ms') p) = k"
      using assms(2) q(1) by (simp add: advances_append tracks_def)
  next
    fix ms''
    assume "prefix ms'' (ms @ ms')"
    then consider "prefix ms'' ms" | zs where "ms'' = ms @ zs" "prefix zs ms'" by (auto simp: prefix_append)
    then have "g \<le> pResume (advances i ms'' p) \<and> reports ms'' = [g .. pResume (advances i ms'' p) - 1]"
    proof cases
      case 1
      with assms(1) p show ?thesis by (simp add: tracks_def)
    next
      case 2
      then have "h \<le> pResume (advances i zs ?q) \<and> reports zs = [h .. pResume (advances i zs ?q) - 1]"
        using assms(2) q(1) by (simp add: tracks_def)
      with 2(1) q(2,3) show ?thesis by (simp add: advances_append upto_glue)
    qed
    then show "g \<le> pResume (advances i ms'' p)" "reports ms'' = [g .. pResume (advances i ms'' p) - 1]" by auto
  qed
qed

lemma tracks_single:
  assumes "\<And>p. pResume p = g \<Longrightarrow> pResume (advances i [m] p) = g'" "reported m = [g .. g' - 1]" "g \<le> g'"
  shows "tracks i g [m] g'"
  using assms by (auto simp: tracks_def prefix_Cons)

lemma tracks_log: "tracks i g (map (logMessage j fs) ls) g"
proof (induction ls)
  case (Cons l ls)
  have "tracks i g [logMessage j fs l] g" by (rule tracks_single) (auto simp: logMessage_def)
  from tracks_append [OF this Cons] show ?case by simp
qed auto

lemma tracks_start: "osGlobalIndex fs = g \<Longrightarrow> tracks i g [MsgStepStart (stepData i fs)] g"
  by (rule tracks_single) (auto simp: stepData_def)

lemma tracks_complete: "osGlobalIndex fs = g \<Longrightarrow> tracks i g [MsgStepComplete (stepData i fs)] (g + 1)"
  by (rule tracks_single) (auto simp: stepData_def)

lemma tracks_reboot: "tracks i g [MsgReboot \<lparr>wrDeploymentID = i, wrResumeStepIndex = g + 1, wrReason = x\<rparr>] (g + 1)"
  by (rule tracks_single) auto

lemma tracks_end: "tracks i g [MsgDeployDone d] g" "tracks i g [MsgDeployFailed d] g"
  by (rule tracks_single; auto)+

lemma tracks_sent:
  "osGlobalIndex fs = g \<Longrightarrow> tracks i g (MsgStepStart (stepData i fs) # map (logMessage i fs) ls) g"
  using tracks_append [OF tracks_start tracks_log] by simp

text \<open>The steps before the resume index are passed over.\<close>

lemma runSteps_filter:
  "runSteps osAt token pd xs = runSteps osAt token pd (filter (\<lambda>fs. wpResumeStepIndex pd \<le> osGlobalIndex fs) xs)"
proof (induction xs)
  case (Cons fs xs)
  show ?case
  proof (cases "osGlobalIndex fs < wpResumeStepIndex pd")
    case True
    with Cons show ?thesis by simp
  next
    case False
    then have f: "filter (\<lambda>fs. wpResumeStepIndex pd \<le> osGlobalIndex fs) (fs # xs) =
        fs # filter (\<lambda>fs. wpResumeStepIndex pd \<le> osGlobalIndex fs) xs" by simp
    show ?thesis unfolding f runSteps.simps Cons [symmetric] by (rule refl)
  qed
qed simp

lemma runSteps_tracks:
  assumes "map osGlobalIndex xs = [g .. g + int (length xs) - 1]" "wpResumeStepIndex pd \<le> g"
  shows "\<exists>g'. tracks (wpDeploymentID pd) g (fst (runSteps osAt token pd xs)) g' \<and>
    g \<le> g' \<and> g' \<le> g + int (length xs) \<and> (snd (runSteps osAt token pd xs) = Completed \<longrightarrow> g' = g + int (length xs))"
  using assms
proof (induction xs arbitrary: g)
  case Nil
  then show ?case using tracks_end(1) by auto
next
  case (Cons fs xs)
  let ?i = "wpDeploymentID pd"
  have g: "osGlobalIndex fs = g" and rest: "map osGlobalIndex xs = [g + 1 .. g + 1 + int (length xs) - 1]"
    using Cons.prems(1) by (simp_all add: upto_rec1 [of g] algebra_simps)
  obtain lines r where run: "RunStep (osAt g) (osStep fs) (wpSecrets pd) (wpArtifactsBaseURL pd) token = (lines, r)"
    by fastforce
  obtain ms e where ms: "runSteps osAt token pd xs = (ms, e)" by fastforce
  let ?sent = "MsgStepStart (stepData ?i fs) # map (logMessage ?i fs) lines"
  note sent = tracks_sent [OF g, of ?i lines]
  have log: "tracks ?i g [logMessage ?i fs l] g" for l using tracks_log [of ?i g ?i fs "[l]"] by simp
  obtain g' where IH: "tracks ?i (g + 1) ms g'" "g + 1 \<le> g'" "g' \<le> g + 1 + int (length xs)"
      "e = Completed \<longrightarrow> g' = g + 1 + int (length xs)"
    using Cons.IH [OF rest] Cons.prems(2) ms by auto
  note complete = tracks_append [OF tracks_complete [OF g, of ?i] IH(1)]
  have skip: "\<not> osGlobalIndex fs < wpResumeStepIndex pd" using g Cons.prems(2) by simp
  consider (hung) "r = None" | (reboot) res where "r = Some res" "rsNeedsReboot res"
    | (fail) res err where "r = Some res" "\<not> rsNeedsReboot res" "rsErr res = Some err" "\<not> sContinueOnError (osStep fs)"
    | (continue) res err where "r = Some res" "\<not> rsNeedsReboot res" "rsErr res = Some err" "sContinueOnError (osStep fs)"
    | (ok) res where "r = Some res" "\<not> rsNeedsReboot res" "rsErr res = None"
    by (cases r; cases "rsErr (the r)") auto
  then show ?case
  proof cases
    case hung
    with skip sent show ?thesis by (intro exI [of _ g]) (simp add: g run Let_def)
  next
    case reboot
    with skip tracks_append [OF sent tracks_append [OF log tracks_reboot]] show ?thesis
      by (intro exI [of _ "g + 1"]) (simp add: g run Let_def)
  next
    case fail
    with skip tracks_append [OF sent tracks_append [OF log tracks_end(2)]] show ?thesis
      by (intro exI [of _ g]) (simp add: g run Let_def)
  next
    case continue
    with skip tracks_append [OF sent tracks_append [OF log complete]] IH show ?thesis
      by (intro exI [of _ g']) (simp add: g run Let_def ms)
  next
    case ok
    with skip tracks_append [OF sent complete] IH show ?thesis
      by (intro exI [of _ g']) (simp add: g run Let_def ms)
  qed
qed

lemma resume_filter:
  assumes "0 \<le> r" "r \<le> int (length (FlattenPlaybook pb))"
  shows "map osGlobalIndex (filter (\<lambda>fs. r \<le> osGlobalIndex fs) (FlattenPlaybook pb)) =
    [r .. int (length (FlattenPlaybook pb)) - 1]"
proof -
  let ?n = "int (length (FlattenPlaybook pb))"
  have "map osGlobalIndex (filter (\<lambda>fs. r \<le> osGlobalIndex fs) (FlattenPlaybook pb)) =
      filter (\<lambda>k. r \<le> k) [0 .. ?n - 1]"
    unfolding FlattenPlaybook_global [symmetric] by (simp add: filter_map comp_def)
  also have "[0 .. ?n - 1] = [0 .. r - 1] @ [r .. ?n - 1]" using upto_glue [of 0 r ?n] assms by simp
  also have "filter (\<lambda>k. r \<le> k) \<dots> = [r .. ?n - 1]" by (simp add: filter_empty_conv filter_id_conv)
  finally show ?thesis .
qed

lemma runPlaybook_tracks:
  assumes "wpPlaybook pd = Some pb" "0 \<le> wpResumeStepIndex pd" "wpResumeStepIndex pd \<le> int (length (FlattenPlaybook pb))"
  shows "\<exists>g'. tracks (wpDeploymentID pd) (wpResumeStepIndex pd) (fst (runPlaybook osAt token pd)) g' \<and>
    g' \<le> int (length (FlattenPlaybook pb)) \<and>
    (snd (runPlaybook osAt token pd) = Completed \<longrightarrow> g' = int (length (FlattenPlaybook pb)))"
proof -
  let ?r = "wpResumeStepIndex pd" and ?n = "int (length (FlattenPlaybook pb))"
  let ?xs = "filter (\<lambda>fs. ?r \<le> osGlobalIndex fs) (FlattenPlaybook pb)"
  have run: "runPlaybook osAt token pd = runSteps osAt token pd ?xs"
    using runSteps_filter [of osAt token pd "FlattenPlaybook pb"] assms(1) by (simp add: runPlaybook_def)
  have "length (map osGlobalIndex ?xs) = length [?r .. ?n - 1]" by (simp only: resume_filter [OF assms(2,3)])
  then have len: "?r + int (length ?xs) = ?n" using assms(3) by simp
  with resume_filter [OF assms(2,3)] have "map osGlobalIndex ?xs = [?r .. ?r + int (length ?xs) - 1]" by simp
  from runSteps_tracks [OF this order.refl, of osAt token] show ?thesis unfolding run len by blast
qed

text \<open>The last message of a run tells how it ended.\<close>

lemma runSteps_last:
  "case snd (runSteps osAt token pd xs) of
     Completed \<Rightarrow> (\<exists>ms d. fst (runSteps osAt token pd xs) = ms @ [MsgDeployDone d] \<and> wsDeploymentID d = wpDeploymentID pd)
   | Rebooting \<Rightarrow> (\<exists>ms d. fst (runSteps osAt token pd xs) = ms @ [MsgReboot d] \<and> wrDeploymentID d = wpDeploymentID pd)
   | Aborted \<Rightarrow> (\<exists>ms d. fst (runSteps osAt token pd xs) = ms @ [MsgDeployFailed d] \<and>
        wsDeploymentID d = wpDeploymentID pd \<and> wsError d \<noteq> [])
   | _ \<Rightarrow> True"
proof (induction xs)
  case (Cons fs xs)
  obtain ms e where ms: "runSteps osAt token pd xs = (ms, e)" by fastforce
  obtain lines r where run: "RunStep (osAt (osGlobalIndex fs)) (osStep fs) (wpSecrets pd) (wpArtifactsBaseURL pd) token = (lines, r)"
    by fastforce
  have app: "\<exists>ms' d. l # a @ b # ms = ms' @ [f d] \<and> P d" if "\<exists>ms' d. ms = ms' @ [f d] \<and> P d"
    for a b l and f :: "'x \<Rightarrow> agent_msg" and P
    using that by (metis Cons_eq_appendI append_assoc)
  show ?case
    using Cons app by (auto simp: ms run Let_def stepData_def split: option.splits run_end.splits)
qed simp

lemma runSteps_not_crashed: "snd (runSteps osAt token pd xs) \<noteq> Crashed"
  by (induction xs) (auto simp: Let_def case_prod_beta split: option.splits)

lemma runSteps_returns:
  "dollar_free (wpSecrets pd) \<Longrightarrow> \<forall>fs\<in>set xs. processEnds (osAt (osGlobalIndex fs)) (osStep fs) \<Longrightarrow>
   snd (runSteps osAt token pd xs) \<noteq> Hung"
proof (induction xs)
  case (Cons fs xs)
  with RunStep_returns [of "wpSecrets pd" "osAt (osGlobalIndex fs)" "osStep fs" "wpArtifactsBaseURL pd" token]
  show ?case by (auto simp: Let_def case_prod_beta split: option.splits)
qed simp

lemma tracks_prefix:
  assumes "tracks i g ms g'" "prefix ms' ms" "pResume p = g"
  shows "g \<le> pResume (advances i ms' p)" "pResume (advances i ms' p) \<le> g'"
    "reports ms' = [g .. pResume (advances i ms' p) - 1]"
proof -
  show le: "g \<le> pResume (advances i ms' p)" and rep: "reports ms' = [g .. pResume (advances i ms' p) - 1]"
    using assms by (simp_all add: tracks_def)
  have "reports ms = [g .. g' - 1]" "g \<le> g'" using assms(1,3) unfolding tracks_def by (auto dest!: spec [of _ p])
  moreover obtain zs where "ms = ms' @ zs" using assms(2) by (auto simp: prefix_def)
  ultimately have "length [g .. pResume (advances i ms' p) - 1] \<le> length [g .. g' - 1]"
    using rep by (metis concat_append le_add1 length_append map_append)
  then show "pResume (advances i ms' p) \<le> g'" using le \<open>g \<le> g'\<close> by simp
qed

definition samplePd :: "int \<Rightarrow> ws_playbook_data" where
  "samplePd r = \<lparr>wpDeploymentID = ''d'', wpPlaybook = Some samplePb, wpResumeStepIndex = r, wpSecrets = [],
     wpArtifactsBaseURL = []\<rparr>"

definition sampleOs :: "int \<Rightarrow> os" where
  "sampleOs n = quietOs"

definition sampleProgress :: "int \<Rightarrow> progress" where
  "sampleProgress r = \<lparr>pStatus = DeploymentStatusRunning, pResume = r, pError = [], pFinished = False\<rparr>"

lemma samplePd_select: "\<exists>pb. wpPlaybook (samplePd r) = Some pb \<and> length (FlattenPlaybook pb) = 3"
    "wpResumeStepIndex (samplePd r) = r" "wpDeploymentID (samplePd r) = ''d''" "wpSecrets (samplePd r) = []"
  by (simp_all add: samplePd_def samplePb_def FlattenPlaybook_def Let_def)

section \<open>Properties\<close>

text \<open>
  C7. At whatever message a connection breaks, the resume index the server keeps is right: it
  lies between the step the run was resumed at and the end of the playbook, and the steps
  reported as done since then are exactly those before it, in order and once each. No step that
  was not reported is ever passed over.
\<close>

theorem run_reports_in_order:
  assumes "wpPlaybook pd = Some pb" "0 \<le> wpResumeStepIndex pd" "wpResumeStepIndex pd \<le> int (length (FlattenPlaybook pb))"
    "prefix ms (fst (runPlaybook osAt token pd))" "pResume p = wpResumeStepIndex pd"
  shows "let r = pResume (advances (wpDeploymentID pd) ms p) in
    wpResumeStepIndex pd \<le> r \<and> r \<le> int (length (FlattenPlaybook pb)) \<and> reports ms = [wpResumeStepIndex pd .. r - 1]"
proof -
  obtain g' where g': "tracks (wpDeploymentID pd) (wpResumeStepIndex pd) (fst (runPlaybook osAt token pd)) g'"
      "g' \<le> int (length (FlattenPlaybook pb))"
    using runPlaybook_tracks [OF assms(1-3)] by blast
  from tracks_prefix [OF g'(1) assms(4,5)] g'(2) show ?thesis by (simp add: Let_def)
qed

theorem run_reports_in_order_witness:
  "reports (fst (runPlaybook sampleOs [] (samplePd 1))) =
     [1 .. pResume (advances ''d'' (fst (runPlaybook sampleOs [] (samplePd 1))) (sampleProgress 1)) - 1]"
proof -
  obtain pb where pb: "wpPlaybook (samplePd 1) = Some pb" "length (FlattenPlaybook pb) = 3" using samplePd_select(1) by blast
  show ?thesis
    using run_reports_in_order [OF pb(1) _ _ prefix_order.order_refl, of "sampleProgress 1" sampleOs "[]"]
    by (simp add: samplePd_select pb sampleProgress_def Let_def)
qed

text \<open>
  C29. A run whose messages all arrive leaves the deployment in the state it ended in: completed
  with every step done, rebooting, or failed with an error. With secrets free of dollar signs and
  steps whose processes come to an end, by themselves or by their timeout, one of these three it
  is: a run that hangs has such a secret or such a step.
\<close>

theorem run_final_status:
  assumes "wpPlaybook pd = Some pb" "0 \<le> wpResumeStepIndex pd" "wpResumeStepIndex pd \<le> int (length (FlattenPlaybook pb))"
    "pResume p = wpResumeStepIndex pd"
  shows "let p' = advances (wpDeploymentID pd) (fst (runPlaybook osAt token pd)) p in
    case snd (runPlaybook osAt token pd) of
      Completed \<Rightarrow> pStatus p' = DeploymentStatusCompleted \<and> pFinished p' \<and> pResume p' = int (length (FlattenPlaybook pb))
    | Rebooting \<Rightarrow> pStatus p' = DeploymentStatusRebooting
    | Aborted \<Rightarrow> pStatus p' = DeploymentStatusFailed \<and> pFinished p' \<and> pError p' \<noteq> []
    | Hung \<Rightarrow> \<not> dollar_free (wpSecrets pd) \<or>
        (\<exists>fs\<in>set (FlattenPlaybook pb). \<not> processEnds (osAt (osGlobalIndex fs)) (osStep fs))
    | Crashed \<Rightarrow> False"
proof -
  obtain g' where g': "tracks (wpDeploymentID pd) (wpResumeStepIndex pd) (fst (runPlaybook osAt token pd)) g'"
      "snd (runPlaybook osAt token pd) = Completed \<longrightarrow> g' = int (length (FlattenPlaybook pb))"
    using runPlaybook_tracks [OF assms(1-3)] by blast
  then have resume: "pResume (advances (wpDeploymentID pd) (fst (runPlaybook osAt token pd)) p) = g'"
    using assms(4) by (simp add: tracks_def)
  have run: "runPlaybook osAt token pd = runSteps osAt token pd (FlattenPlaybook pb)"
    by (simp add: runPlaybook_def assms(1))
  show ?thesis
    using runSteps_last [of osAt token pd "FlattenPlaybook pb"] g'(2) resume
      runSteps_not_crashed [of osAt token pd "FlattenPlaybook pb"] runSteps_returns [of pd "FlattenPlaybook pb" osAt token]
    unfolding run by (auto simp: Let_def advances_append split: run_end.splits)
qed

theorem run_final_status_witness:
  "pStatus (advances ''d'' (fst (runPlaybook sampleOs [] (samplePd 0))) (sampleProgress 0)) = DeploymentStatusRebooting"
proof -
  obtain pb where pb: "wpPlaybook (samplePd 0) = Some pb" "length (FlattenPlaybook pb) = 3" using samplePd_select(1) by blast
  have "snd (runPlaybook sampleOs [] (samplePd 0)) = Rebooting"
    by (simp add: runPlaybook_def samplePd_def samplePb_def FlattenPlaybook_def RunStep_def okResult_def Let_def)
  then show ?thesis
    using run_final_status [OF pb(1), of "sampleProgress 0" sampleOs "[]"]
    by (simp add: samplePd_select pb sampleProgress_def Let_def)
qed

text \<open>
  What the message writer has put on the socket is a prefix of what was handed to it: no
  message overtakes another, none is repeated, and none is missing before a later one.
\<close>

lemma writer_fifo:
  assumes "writer_reach ms w"
  shows "prefix (mwWritten w) ms \<and> mwBuffered w \<le> 256"
  using writer_inv [OF assms] by (auto simp: writer_inv_def writerCap_def intro: prefix_order.trans)

lemma writer_fifo_example:
  "prefix (mwWritten (writerTurn (WriteOne True) (enqueue (MsgStepStart (sampleStep 0)) newMessageWriter))) [MsgStepStart (sampleStep 0)]"
proof -
  have "writer_reach ([] @ [MsgStepStart (sampleStep 0)]) (enqueue (MsgStepStart (sampleStep 0)) newMessageWriter)"
    by (rule writer_reach.queued [OF writer_reach.start]) (simp add: mwBuffered_def newMessageWriter_def writerCap_def)
  then have "writer_reach [MsgStepStart (sampleStep 0)]
      (writerTurn (WriteOne True) (enqueue (MsgStepStart (sampleStep 0)) newMessageWriter))"
    by (intro writer_reach.turn) (simp_all add: enqueue_def newMessageWriter_def)
  from writer_fifo [OF this] show ?thesis by blast
qed

end
