(* ===== verification/Go_Url.thy ===== *)
theory Go_Url
  imports Go_Paths "HOL-Library.List_Lexorder" "HOL-Library.Char_ord"
begin

text \<open>
  Queries of URLs, from Go's \<^verbatim>\<open>net/url\<close>: escaping and unescaping of a component,
  \<^verbatim>\<open>Values\<close> with \<^verbatim>\<open>Set\<close>, \<^verbatim>\<open>Get\<close> and \<^verbatim>\<open>Encode\<close>, and
  \<^verbatim>\<open>ParseQuery\<close> without its error, which \<^verbatim>\<open>URL.Query\<close> drops (nor the limit recent
  releases put on the number of parameters). The main fact is the round trip: parsing what
  \<^verbatim>\<open>Encode\<close> wrote gives every key its values back, whatever bytes they hold.
\<close>

section \<open>Escaping\<close>

definition unreserved :: "char \<Rightarrow> bool" where
  "unreserved c = (let n = (of_char c :: nat) in
     48 \<le> n \<and> n \<le> 57 \<or> 65 \<le> n \<and> n \<le> 90 \<or> 97 \<le> n \<and> n \<le> 122 \<or> c \<in> set ''-_.~'')"

definition upper_hex :: "nat \<Rightarrow> char" where
  "upper_hex n = ''0123456789ABCDEF'' ! (n mod 16)"

definition escapeByte :: "char \<Rightarrow> string" where
  "escapeByte c = (if c = CHR '' '' then ''+'' else if unreserved c then [c]
     else (let n = (of_char c :: nat) in [CHR ''%'', upper_hex (n div 16), upper_hex n]))"

definition QueryEscape :: "string \<Rightarrow> string" where
  "QueryEscape s = concat (map escapeByte s)"

definition unhex :: "char \<Rightarrow> nat option" where
  "unhex c = (let n = (of_char c :: nat) in
     if 48 \<le> n \<and> n \<le> 57 then Some (n - 48)
     else if 97 \<le> n \<and> n \<le> 102 then Some (n - 87)
     else if 65 \<le> n \<and> n \<le> 70 then Some (n - 55) else None)"

fun QueryUnescape :: "string \<Rightarrow> string option" where
  "QueryUnescape [] = Some []"
| "QueryUnescape (c # s) =
     (if c = CHR ''%'' then
        (case s of h # l # rest \<Rightarrow>
           (case (unhex h, unhex l) of
              (Some x, Some y) \<Rightarrow> map_option ((#) (char_of (16 * x + y))) (QueryUnescape rest)
            | _ \<Rightarrow> None)
         | _ \<Rightarrow> None)
      else map_option ((#) (if c = CHR ''+'' then CHR '' '' else c)) (QueryUnescape s))"

lemma unhex_upper: "n < 16 \<Longrightarrow> unhex (upper_hex n) = Some n"
proof -
  have "list_all (\<lambda>n. unhex (upper_hex n) = Some n) [0..<16]" by code_simp
  then show "n < 16 \<Longrightarrow> unhex (upper_hex n) = Some n" by (simp add: list_all_iff)
qed

lemma upper_hex_unreserved: "unreserved (upper_hex n)"
proof -
  have "list_all unreserved ''0123456789ABCDEF''" by code_simp
  then show ?thesis by (simp only: upper_hex_def list_all_length) simp
qed

lemma unreserved_not: "\<not> unreserved (CHR ''%'')" "\<not> unreserved (CHR ''+'')" "\<not> unreserved (CHR ''&'')"
    "\<not> unreserved (CHR ''='')" "\<not> unreserved (CHR '';'')"
  by code_simp+

text \<open>What an escaped component is made of, and its round trip.\<close>

lemma escapeByte_chars: "x \<in> set (escapeByte c) \<Longrightarrow> unreserved x \<or> x = CHR ''%'' \<or> x = CHR ''+''"
  using upper_hex_unreserved by (auto simp: escapeByte_def Let_def split: if_splits)

lemma QueryEscape_chars:
  "CHR ''&'' \<notin> set (QueryEscape s)" "CHR ''='' \<notin> set (QueryEscape s)" "CHR '';'' \<notin> set (QueryEscape s)"
  using escapeByte_chars unreserved_not by (fastforce simp: QueryEscape_def)+

lemma unescape_byte: "QueryUnescape (escapeByte c @ s) = map_option ((#) c) (QueryUnescape s)"
proof (cases "c = CHR '' '' \<or> unreserved c")
  case True
  then show ?thesis using unreserved_not by (auto simp: escapeByte_def)
next
  case False
  let ?n = "of_char c :: nat"
  have n: "?n div 16 < 16" "?n mod 16 < 16" by (simp_all add: less_mult_imp_div_less)
  have "upper_hex ?n = upper_hex (?n mod 16)" by (simp add: upper_hex_def)
  then have "unhex (upper_hex (?n div 16)) = Some (?n div 16)" "unhex (upper_hex ?n) = Some (?n mod 16)"
    using unhex_upper n by simp_all
  then show ?thesis using False by (simp add: escapeByte_def Let_def)
qed

lemma unescape_escape [simp]: "QueryUnescape (QueryEscape s) = Some s"
  by (induction s) (simp_all add: QueryEscape_def unescape_byte)

section \<open>Values\<close>

text \<open>A map from keys to lists of values, one order of its entries, as for the other maps.\<close>

type_synonym url_values = "(string \<times> string list) list"

definition valuesGet :: "url_values \<Rightarrow> string \<Rightarrow> string" where
  "valuesGet m k = (case map_of m k of Some (v # vs) \<Rightarrow> v | _ \<Rightarrow> [])"

definition valuesSet :: "string \<Rightarrow> string \<Rightarrow> url_values \<Rightarrow> url_values" where
  "valuesSet k v m = AList.update k [v] m"

definition valuesAdd :: "string \<Rightarrow> string \<Rightarrow> url_values \<Rightarrow> url_values" where
  "valuesAdd k v m = AList.update k ((case map_of m k of None \<Rightarrow> [] | Some vs \<Rightarrow> vs) @ [v]) m"

definition Encode :: "url_values \<Rightarrow> string" where
  "Encode m = Join (concat (map (\<lambda>(k, vs). map (\<lambda>v. QueryEscape k @ ''='' @ QueryEscape v) vs) (sort_key fst m))) ''&''"

text \<open>One parameter: skipped if it is empty, holds a semicolon or does not unescape.\<close>

definition parseParam :: "url_values \<Rightarrow> string \<Rightarrow> url_values" where
  "parseParam m p =
     (if CHR '';'' \<in> set p \<or> p = [] then m
      else (let (k, v) = (case Cut p (CHR ''='') of None \<Rightarrow> (p, []) | Some kv \<Rightarrow> kv) in
        case QueryUnescape k of None \<Rightarrow> m
        | Some key \<Rightarrow> (case QueryUnescape v of None \<Rightarrow> m | Some val \<Rightarrow> valuesAdd key val m)))"

definition ParseQuery :: "string \<Rightarrow> url_values" where
  "ParseQuery query = foldl parseParam [] (Split query (CHR ''&''))"

section \<open>The round trip\<close>

lemma Cut_first: "c \<notin> set a \<Longrightarrow> Cut (a @ c # b) c = Some (a, b)"
  by (induction a) (auto simp: Cut_def Let_def split: if_splits)

lemma parseParam_escaped: "parseParam m (QueryEscape k @ ''='' @ QueryEscape v) = valuesAdd k v m"
  using QueryEscape_chars(3) by (simp add: parseParam_def Cut_first QueryEscape_chars(2))

text \<open>The entries of a map as single parameters, and what adding parameters makes of a key.\<close>

definition params :: "url_values \<Rightarrow> (string \<times> string) list" where
  "params m = concat (map (\<lambda>(k, vs). map (Pair k) vs) (sort_key fst m))"

lemma Encode_params: "Encode m = Join (map (\<lambda>(k, v). QueryEscape k @ ''='' @ QueryEscape v) (params m)) ''&''"
  by (simp add: Encode_def params_def map_concat comp_def split_def)

lemma ParseQuery_Encode: "ParseQuery (Encode m) = foldl (\<lambda>m (k, v). valuesAdd k v m) [] (params m)"
proof (cases "params m = []")
  case True
  then show ?thesis by (simp add: Encode_params ParseQuery_def parseParam_def)
next
  case False
  let ?ps = "map (\<lambda>(k, v). QueryEscape k @ ''='' @ QueryEscape v) (params m)"
  have "Split (Encode m) (CHR ''&'') = ?ps"
    using False QueryEscape_chars(1) unfolding Encode_params by (intro Split_Join) (auto simp: list_all_iff)
  moreover have "foldl parseParam m0 (map (\<lambda>(k, v). QueryEscape k @ ''='' @ QueryEscape v) ps) =
      foldl (\<lambda>m (k, v). valuesAdd k v m) m0 ps" for m0 ps
    by (induction ps arbitrary: m0) (simp_all add: case_prod_beta parseParam_escaped [simplified])
  ultimately show ?thesis by (simp add: ParseQuery_def)
qed

lemma map_of_valuesAdd:
  "map_of (valuesAdd k v m) = (map_of m)(k \<mapsto> (case map_of m k of None \<Rightarrow> [] | Some vs \<Rightarrow> vs) @ [v])"
  by (simp add: valuesAdd_def update_conv')

definition addedTo :: "string list option \<Rightarrow> string list \<Rightarrow> string list option" where
  "addedTo old vs = (if vs = [] then old else Some ((case old of None \<Rightarrow> [] | Some ws \<Rightarrow> ws) @ vs))"

lemma map_of_added:
  "map_of (foldl (\<lambda>m (k, v). valuesAdd k v m) m0 ps) k = addedTo (map_of m0 k) (map snd (filter (\<lambda>p. fst p = k) ps))"
  by (induction ps arbitrary: m0)
    (auto simp: addedTo_def map_of_valuesAdd split: option.split)

lemma params_of_key:
  assumes "distinct (map fst m)"
  shows "map snd (filter (\<lambda>p. fst p = k) (params m)) = (case map_of m k of None \<Rightarrow> [] | Some vs \<Rightarrow> vs)"
proof -
  have gen: "map snd (filter (\<lambda>p. fst p = k) (concat (map (\<lambda>(k, vs). map (Pair k) vs) xs))) =
      (case map_of xs k of None \<Rightarrow> [] | Some vs \<Rightarrow> vs)" if "distinct (map fst xs)" for xs
    using that
  proof (induction xs)
    case (Cons x xs)
    have none: "map_of xs (fst x) = None" using Cons.prems by (simp add: map_of_eq_None_iff)
    have same: "filter (\<lambda>p. fst p = k) (map (Pair (fst x)) (snd x)) = (if fst x = k then map (Pair k) (snd x) else [])"
      by (induction "snd x") auto
    show ?case using Cons none by (auto simp: case_prod_beta same comp_def split: if_splits)
  qed simp
  have "distinct (map fst (sort_key fst m))" using assms by (simp add: distinct_map)
  moreover from this have "map_of (sort_key fst m) = map_of m" using assms by (intro map_of_eqI) (auto simp: map_of_eq_Some_iff)
  ultimately show ?thesis using gen [of "sort_key fst m"] by (simp add: params_def)
qed

lemma query_roundtrip:
  assumes "distinct (map fst m)" "[] \<notin> snd ` set m"
  shows "map_of (ParseQuery (Encode m)) = map_of m"
proof
  fix k
  show "map_of (ParseQuery (Encode m)) k = map_of m k"
    using assms(2)
    by (cases "map_of m k") (auto simp: ParseQuery_Encode map_of_added params_of_key [OF assms(1)] addedTo_def dest!: map_of_SomeD
        intro: rev_image_eqI)
qed

text \<open>A parsed query is a map without empty entries.\<close>

definition proper :: "url_values \<Rightarrow> bool" where
  "proper m \<longleftrightarrow> distinct (map fst m) \<and> list_all (\<lambda>(k, vs). vs \<noteq> []) m"

lemma proper_update: "proper m \<Longrightarrow> vs \<noteq> [] \<Longrightarrow> proper (AList.update k vs m)"
proof -
  have "list_all (\<lambda>(k, vs). vs \<noteq> []) m \<Longrightarrow> vs \<noteq> [] \<Longrightarrow> list_all (\<lambda>(k, vs). vs \<noteq> []) (AList.update k vs m)"
    by (induction m) auto
  then show "proper m \<Longrightarrow> vs \<noteq> [] \<Longrightarrow> proper (AList.update k vs m)" by (simp add: proper_def distinct_update)
qed

lemma proper_ParseQuery: "proper (ParseQuery q)"
proof -
  have step: "proper m \<Longrightarrow> proper (parseParam m p)" for m p
    by (auto simp: parseParam_def valuesAdd_def Let_def intro: proper_update split: option.split prod.split)
  have "proper m \<Longrightarrow> proper (foldl parseParam m ps)" for m ps
    by (induction ps arbitrary: m) (simp_all add: step)
  then show ?thesis unfolding ParseQuery_def by (metis proper_def distinct.simps(1) list.pred_inject(1) list.simps(8))
qed

lemma ParseQuery_Set:
  "map_of (ParseQuery (Encode (valuesSet k v (ParseQuery q)))) = (map_of (ParseQuery q))(k \<mapsto> [v])"
proof -
  have "proper (valuesSet k v (ParseQuery q))" unfolding valuesSet_def by (rule proper_update [OF proper_ParseQuery]) simp
  then have "map_of (ParseQuery (Encode (valuesSet k v (ParseQuery q)))) = map_of (valuesSet k v (ParseQuery q))"
    by (intro query_roundtrip) (auto simp: proper_def list_all_iff)
  then show ?thesis by (simp add: valuesSet_def update_conv')
qed

end
