(* ===== verification/Connection.thy ===== *)
theory Connection
  imports Agent Config Identity Go_Url
begin

text \<open>
  The agent's connection to its server: \<^verbatim>\<open>agent.go\<close> from \<^verbatim>\<open>New\<close> to
  \<^verbatim>\<open>connect\<close>, and its state file. What the environment does in one turn of the loop of
  \<^verbatim>\<open>Run\<close> is a record: the context, the answer to the registration, the errors of writing
  the state file, the outcome of dialling with the frames the connection delivered. \<open>runLoop\<close>
  runs the loop over the turns given and records what the agent did; it returns no result while
  the agent is still running; a dial is recorded with the token it sends. A lost connection is
  always followed by the next one, a registration without answer by the end of the agent.
\<close>

section \<open>Defaults\<close>

definition kompaktDir :: "string + string \<Rightarrow> string" where
  "kompaktDir exe = (case exe of Inl e \<Rightarrow> ''.kompakt'' | Inr p \<Rightarrow> joinPath (Dir p) ''.kompakt'')"

definition defaultStateFile :: "string + string \<Rightarrow> string" where
  "defaultStateFile exe = joinPath (kompaktDir exe) ''state.json''"

definition defaultWorkDir :: "string + string \<Rightarrow> string" where
  "defaultWorkDir exe = joinPath (kompaktDir exe) ''work''"

text \<open>\<^verbatim>\<open>New\<close>: the configuration with its defaults, for the outcome of \<^verbatim>\<open>os.Executable\<close>.\<close>

definition newAgent :: "string + string \<Rightarrow> agent_config \<Rightarrow> agent_config" where
  "newAgent exe cfg = cfg\<lparr>
     acReconnectIntervalSeconds := (if acReconnectIntervalSeconds cfg = 0 then 10 else acReconnectIntervalSeconds cfg),
     acLogBatchSize := (if acLogBatchSize cfg = 0 then 100 else acLogBatchSize cfg),
     acStateFile := (if acStateFile cfg = [] then defaultStateFile exe else acStateFile cfg),
     acWorkDir := (if acWorkDir cfg = [] then defaultWorkDir exe else acWorkDir cfg)\<rparr>"

section \<open>Local state\<close>

record local_state =
  lsAgentID :: string
  lsToken :: string

text \<open>
  The state file: missing, unreadable, not the JSON of a state (with what decoding had filled in
  before the error), or a state. A write succeeds or fails with an error, leaving a file behind.
\<close>

datatype state_file = Absent | Unreadable string | Garbage string local_state | Holds local_state

type_synonym file_write = "(string \<times> state_file) option"

fun loadState :: "state_file \<Rightarrow> local_state \<Rightarrow> err \<times> local_state" where
  "loadState Absent st = (None, st)"
| "loadState (Unreadable e) st = (Some e, st)"
| "loadState (Garbage e s) st = (Some e, s)"
| "loadState (Holds s) st = (None, s)"

definition saveState :: "file_write \<Rightarrow> local_state \<Rightarrow> err \<times> state_file" where
  "saveState w st = (case w of None \<Rightarrow> (None, Holds st) | Some (e, left) \<Rightarrow> (Some e, left))"

section \<open>Registration\<close>

definition registrationRequest :: "agent_config \<Rightarrow> platform_info \<Rightarrow> string list \<Rightarrow> registration_request" where
  "registrationRequest cfg pf shells = \<lparr>rqPlatform = piPlatform pf, rqHostname = piHostname pf, rqModel = piModel pf,
     rqVendor = piVendor pf, rqRegistrationSecret = acRegistrationSecret cfg, rqMetadata = piMetadata pf, rqShells = shells\<rparr>"

text \<open>
  The answer: no response with the error of the exchange, or a status with its text and the
  decoded body.
\<close>

datatype reg_outcome = NoResponse string | Response int string "string + string \<times> string"

type_synonym agent_state = "local_state \<times> state_file"

definition registerAgent :: "reg_outcome \<Rightarrow> file_write \<Rightarrow> agent_state \<Rightarrow> err \<times> agent_state" where
  "registerAgent outcome w = (\<lambda>(st, file). (case outcome of
      NoResponse e \<Rightarrow> (Some e, st, file)
    | Response status txt body \<Rightarrow>
        if status \<noteq> 200 then (Some (''registration failed: '' @ txt), st, file)
        else (case body of
            Inl e \<Rightarrow> (Some e, st, file)
          | Inr (agentID, token) \<Rightarrow>
              (let st' = \<lparr>lsAgentID = agentID, lsToken = token\<rparr>; (e, file') = saveState w st'
               in (e, st', file')))))"

section \<open>The address of the socket\<close>

text \<open>
  The fields of \<^verbatim>\<open>url.URL\<close> that \<^verbatim>\<open>wsEndpoint\<close> touches; the others (user, host,
  fragment and the like) are the rest of the record. \<open>parse\<close> and \<open>print\<close> are
  \<^verbatim>\<open>url.Parse\<close> and \<^verbatim>\<open>URL.String\<close>.
\<close>

record url =
  urScheme :: string
  urPath :: string
  urRawQuery :: string

definition wsURL :: "string \<Rightarrow> 'r url_scheme \<Rightarrow> 'r url_scheme" where
  "wsURL token u = u\<lparr>urScheme := (if urScheme u = ''https'' then ''wss'' else ''ws''),
     urPath := TrimRight (urPath u) (CHR ''/'') @ ''/api/v1/ws'',
     urRawQuery := Encode (valuesSet ''token'' token (ParseQuery (urRawQuery u)))\<rparr>"

definition wsEndpoint :: "(string \<Rightarrow> string + 'r url_scheme) \<Rightarrow> ('r url_scheme \<Rightarrow> string) \<Rightarrow> string \<Rightarrow> string \<Rightarrow> string" where
  "wsEndpoint parse print serverURL token =
     (case parse serverURL of Inl e \<Rightarrow> serverURL | Inr u \<Rightarrow> print (wsURL token u))"

lemma wsURL_token: "valuesGet (ParseQuery (urRawQuery (wsURL token u))) ''token'' = token"
  by (simp add: wsURL_def valuesGet_def ParseQuery_Set)

lemma wsURL_others:
  "k \<noteq> ''token'' \<Longrightarrow> map_of (ParseQuery (urRawQuery (wsURL token u))) k = map_of (ParseQuery (urRawQuery u)) k"
  by (simp add: wsURL_def ParseQuery_Set)

section \<open>A connection\<close>

datatype frame = BadFrame | PlaybookFrame "ws_playbook_data option" | CommandFrame "ws_command_data option" | OtherFrame

datatype started = StartPlaybook ws_playbook_data | StartCommand ws_command_data

text \<open>The goroutine a frame starts, if any.\<close>

fun onFrame :: "frame \<Rightarrow> started list" where
  "onFrame (PlaybookFrame (Some pd)) = [StartPlaybook pd]"
| "onFrame (CommandFrame (Some cd)) = [StartCommand cd]"
| "onFrame _ = []"

text \<open>
  Dialling: an error with the status of the response if there was one, or a connection that
  delivers frames until a read fails. A failed read is reported as the error of the context if
  that was cancelled.
\<close>

datatype dial = DialError "int option" string | Dialled "frame list" string

datatype conn_end = TokenRejected | ConnFailed string

definition connect :: "dial \<Rightarrow> err \<Rightarrow> file_write \<Rightarrow> agent_state \<Rightarrow> conn_end \<times> started list \<times> agent_state" where
  "connect d ctx w = (\<lambda>(st, file). (case d of
      DialError status e \<Rightarrow>
        if status = Some 401 then
          (let st' = \<lparr>lsAgentID = [], lsToken = []\<rparr> in (TokenRejected, [], st', snd (saveState w st')))
        else (ConnFailed (''dial: '' @ e), [], st, file)
    | Dialled frames readErr \<Rightarrow>
        (ConnFailed (case ctx of Some e \<Rightarrow> e | None \<Rightarrow> ''read: '' @ readErr), concat (map onFrame frames), st, file)))"

section \<open>The loop\<close>

text \<open>
  A turn: the error of the context at the top of the loop, the registration and its write, the
  connection and its write, the error of the context after the connection and while sleeping.
\<close>

record turn =
  tnCtx :: err
  tnReg :: reg_outcome
  tnRegWrite :: file_write
  tnDial :: dial
  tnDialWrite :: file_write
  tnCtxAfter :: err
  tnWake :: err

datatype event = ERegister | EDial string | EStart started | ESleep int

datatype stop = Cancelled string | RegistrationFailed string

text \<open>\<^verbatim>\<open>interval\<close> in nanoseconds, an \<^verbatim>\<open>int64\<close> product that wraps.\<close>

definition reconnectInterval :: "agent_config \<Rightarrow> int" where
  "reconnectInterval cfg = sint (word_of_int (acReconnectIntervalSeconds cfg * 1000000000) :: 64 word)"

text \<open>The body of the loop: what it does, the value \<^verbatim>\<open>Run\<close> returns there, the state.\<close>

definition runTurn :: "agent_config \<Rightarrow> turn \<Rightarrow> agent_state \<Rightarrow> event list \<times> stop option \<times> agent_state" where
  "runTurn cfg t s =
     (case tnCtx t of
        Some e \<Rightarrow> ([], Some (Cancelled e), s)
      | None \<Rightarrow>
     (case registerAgent (tnReg t) (tnRegWrite t) s of
        (Some e, s1) \<Rightarrow> ([ERegister], Some (RegistrationFailed (''registration: '' @ e)), s1)
      | (None, s1) \<Rightarrow>
         (let (c, jobs, s2) = connect (tnDial t) (tnCtxAfter t) (tnDialWrite t) s1;
              did = ERegister # EDial (lsToken (fst s1)) # map EStart jobs
          in case tnCtxAfter t of
               Some e \<Rightarrow> (did, Some (Cancelled e), s2)
             | None \<Rightarrow>
                if c = TokenRejected then (did, None, s2)
                else (did @ [ESleep (reconnectInterval cfg)], map_option Cancelled (tnWake t), s2))))"

fun runLoop :: "agent_config \<Rightarrow> turn list \<Rightarrow> agent_state \<Rightarrow> event list \<times> stop option \<times> agent_state" where
  "runLoop cfg [] s = ([], None, s)"
| "runLoop cfg (t # ts) s =
     (case runTurn cfg t s of
        (evs, Some r, s') \<Rightarrow> (evs, Some r, s')
      | (evs, None, s') \<Rightarrow> (let (evs', r, s'') = runLoop cfg ts s' in (evs @ evs', r, s'')))"

definition Run :: "agent_config \<Rightarrow> state_file \<Rightarrow> turn list \<Rightarrow> event list \<times> stop option \<times> agent_state" where
  "Run cfg file ts = runLoop cfg ts (snd (loadState file \<lparr>lsAgentID = [], lsToken = []\<rparr>), file)"

text \<open>
  \<^verbatim>\<open>runWithConfig\<close>, the \<^verbatim>\<open>main\<close> of the agent: the error it exits with, no value while it
  runs. The end by a signal, \<^verbatim>\<open>context.Canceled\<close>, is no error.
\<close>

fun exitError :: "stop \<Rightarrow> err" where
  "exitError (Cancelled e) = (if e = ''context canceled'' then None else Some e)"
| "exitError (RegistrationFailed e) = Some e"

definition runWithConfig :: "(string \<Rightarrow> string + string) \<Rightarrow> (string \<Rightarrow> string + agent_config) \<Rightarrow> string \<Rightarrow> string + string \<Rightarrow>
    state_file \<Rightarrow> turn list \<Rightarrow> err option" where
  "runWithConfig read unmarshal configPath exe file ts = (case LoadAgentConfig read unmarshal configPath of
      Inl e \<Rightarrow> Some (Some e)
    | Inr cfg \<Rightarrow> map_option exitError (fst (snd (Run (newAgent exe cfg) file ts))))"

section \<open>Dials\<close>

fun dialOf :: "event \<Rightarrow> string list" where
  "dialOf (EDial t) = [t]"
| "dialOf _ = []"

abbreviation dials :: "event list \<Rightarrow> string list" where
  "dials evs \<equiv> concat (map dialOf evs)"

text \<open>The token of a registration that is accepted.\<close>

fun grants :: "reg_outcome \<Rightarrow> string option" where
  "grants (Response status txt (Inr (k, t))) = (if status = 200 then Some t else None)"
| "grants _ = None"

text \<open>
  A turn that ends the agent: the context is cancelled (while sleeping only if the agent sleeps,
  which it does not after a rejected token), or its registration is refused or cannot be saved.
\<close>

fun rejected :: "dial \<Rightarrow> bool" where
  "rejected (DialError status e) = (status = Some 401)"
| "rejected (Dialled frames e) = False"

definition fatal :: "turn \<Rightarrow> bool" where
  "fatal t \<longleftrightarrow> tnCtx t \<noteq> None \<or> grants (tnReg t) = None \<or> tnRegWrite t \<noteq> None \<or> tnCtxAfter t \<noteq> None \<or>
     (tnWake t \<noteq> None \<and> \<not> rejected (tnDial t))"

lemma registerAgent_None:
  assumes "registerAgent outcome w s = (None, s1)"
  shows "w = None \<and> grants outcome = Some (lsToken (fst s1)) \<and> snd s1 = Holds (fst s1)"
  using assms
  by (cases s; cases outcome) (auto simp: registerAgent_def saveState_def Let_def split: if_splits sum.splits prod.splits option.splits)

lemma registerAgent_Some:
  assumes "registerAgent outcome w s = (Some e, s1)"
  shows "w \<noteq> None \<or> grants outcome = None"
  using assms
  by (cases s; cases outcome rule: grants.cases)
    (auto simp: registerAgent_def saveState_def Let_def split: if_splits option.splits)

lemma connect_rejected: "connect d ctx w s = (c, js, s') \<Longrightarrow> (c = TokenRejected) = rejected d"
  by (cases s; cases d) (auto simp: connect_def Let_def split: if_splits)

lemma dials_starts [simp]: "dials (map EStart js) = []"
  by (induction js) auto

lemma runTurn_stops: "(fst (snd (runTurn cfg t s)) = None) = (\<not> fatal t)"
  by (auto simp: runTurn_def fatal_def Let_def split: option.splits prod.splits
      dest!: registerAgent_Some registerAgent_None dest: connect_rejected)

lemma runTurn_dials:
  "map Some (dials (fst (runTurn cfg t s))) = [grants (tnReg t)] \<or> fatal t \<and> dials (fst (runTurn cfg t s)) = []"
  by (auto simp: runTurn_def fatal_def Let_def split: option.splits prod.splits
      dest!: registerAgent_None registerAgent_Some)

text \<open>The turns before the first fatal one, and the loop cut there.\<close>

abbreviation lived :: "turn list \<Rightarrow> turn list" where
  "lived ts \<equiv> takeWhile (\<lambda>t. \<not> fatal t) ts"

lemma runLoop_lived:
  assumes "runLoop cfg ts s = (evs, r, s')"
  shows "(r = None) = (\<not> list_ex fatal ts) \<and>
    (\<exists>last. dials evs = map (\<lambda>t. the (grants (tnReg t))) (lived ts) @ last \<and> length last \<le> (if r = None then 0 else 1))"
  using assms
proof (induction cfg ts s arbitrary: evs r s' rule: runLoop.induct)
  case (2 cfg t ts s)
  obtain evs1 r1 s1 where t: "runTurn cfg t s = (evs1, r1, s1)" using prod_cases3 by blast
  obtain evs2 r2 s2 where l: "runLoop cfg ts s1 = (evs2, r2, s2)" using prod_cases3 by blast
  have stops: "(r1 = None) = (\<not> fatal t)" using runTurn_stops[of cfg t s] t by simp
  have d: "map Some (dials evs1) = [grants (tnReg t)] \<or> fatal t \<and> dials evs1 = []" using runTurn_dials[of cfg t s] t by simp
  show ?case
  proof (cases r1)
    case None
    then have "\<not> fatal t" and "dials evs1 = [the (grants (tnReg t))]" using stops d by (auto dest!: sym[of "Some _"])
    with "2.IH"[OF t[symmetric] _ _ l] 2(2) t l None show ?thesis by auto
  next
    case (Some e)
    moreover have "length (dials evs1) \<le> 1" using d by (auto dest!: arg_cong[where f = length] simp del: concat_eq_Nil_conv)
    ultimately show ?thesis using 2(2) t stops by auto
  qed
qed simp

text \<open>
  \<^verbatim>\<open>Run\<close> returns exactly when a turn of its loop is cancelled or its registration fails.
\<close>

lemma run_ends:
  "case Run cfg file ts of (evs, r, s') \<Rightarrow>
     (r = None) = (\<not> list_ex fatal ts) \<and>
     (\<exists>last. dials evs = map (\<lambda>t. the (grants (tnReg t))) (takeWhile (\<lambda>t. \<not> fatal t) ts) @ last \<and>
        length last \<le> (if r = None then 0 else 1))"
  using runLoop_lived by (force simp: Run_def split: prod.split)

text \<open>
  The second way to end is what a server that cannot be reached does to the agent: the loop asks
  for a registration before every connection and gives up when there is no answer.
\<close>

lemma unreachable_server_ends_agent:
  assumes "tnCtx t = None" "tnReg t = NoResponse e"
  shows "\<exists>s'. Run cfg file (ts1 @ t # ts2) = (let (evs, r, s) = Run cfg file ts1 in
     if r = None then (evs @ [ERegister], Some (RegistrationFailed (''registration: '' @ e)), s') else (evs, r, s))"
proof -
  have "\<exists>s'. runLoop cfg (ts1 @ t # ts2) s0 = (let (evs, r, s) = runLoop cfg ts1 s0 in
     if r = None then (evs @ [ERegister], Some (RegistrationFailed (''registration: '' @ e)), s') else (evs, r, s))" for s0
  proof (induction ts1 arbitrary: s0)
    case Nil
    obtain st stored where "s0 = (st, stored)" by fastforce
    then show ?case using assms by (simp add: runTurn_def registerAgent_def)
  next
    case (Cons t1 ts1)
    obtain evs1 r1 s1 where t1: "runTurn cfg t1 s0 = (evs1, r1, s1)" using prod_cases3 by blast
    obtain evs2 r2 s2 where l: "runLoop cfg ts1 s1 = (evs2, r2, s2)" using prod_cases3 by blast
    from Cons [of s1] show ?case by (cases r1; cases r2) (auto simp: t1 l)
  qed
  then show ?thesis by (simp add: Run_def)
qed

text \<open>A turn in which nothing ends the agent.\<close>

fun arrivals :: "dial \<Rightarrow> started list" where
  "arrivals (DialError status e) = []"
| "arrivals (Dialled frames e) = concat (map onFrame frames)"

definition retryEvents :: "agent_config \<Rightarrow> turn \<Rightarrow> event list" where
  "retryEvents cfg t = ERegister # EDial (the (grants (tnReg t))) # map EStart (arrivals (tnDial t)) @
     (if rejected (tnDial t) then [] else [ESleep (reconnectInterval cfg)])"

lemma runTurn_retries:
  assumes "tnCtx t = None" "tnCtxAfter t = None" "tnWake t = None" "grants (tnReg t) \<noteq> None" "tnRegWrite t = None"
  shows "\<exists>s'. runTurn cfg t s = (retryEvents cfg t, None, s')"
proof -
  obtain x s1 where reg: "registerAgent (tnReg t) None s = (x, s1)" by (cases "registerAgent (tnReg t) None s")
  then have "x = None" using registerAgent_Some [of "tnReg t" None s _ s1] assms(4) by (cases x) auto
  note tok = registerAgent_None [OF reg [unfolded this]]
  show ?thesis
    using tok by (cases s1; cases "tnDial t")
      (auto simp: runTurn_def assms reg \<open>x = None\<close> connect_def retryEvents_def Let_def)
qed

text \<open>
  C22. The agent comes back after every loss of its connection: as long as it is not cancelled
  and its registrations are answered and stored, it never returns, whatever became of its
  connections. Every turn of its loop registers, dials with the token of that registration,
  starts what the frames that arrived ask for, and sleeps for the configured interval, which is
  always the same; only after a rejected token it registers again at once. An unreadable state
  file changes nothing of this.
\<close>

theorem agent_keeps_reconnecting:
  assumes "\<forall>t\<in>set ts. tnCtx t = None \<and> tnCtxAfter t = None \<and> tnWake t = None"
    "\<forall>t\<in>set ts. grants (tnReg t) \<noteq> None \<and> tnRegWrite t = None"
  shows "\<exists>s'. Run cfg file ts = (concat (map (\<lambda>t.
      ERegister # EDial (the (grants (tnReg t))) # map EStart (arrivals (tnDial t)) @
      (if rejected (tnDial t) then [] else [ESleep (reconnectInterval cfg)])) ts), None, s')"
proof -
  have "\<exists>s'. runLoop cfg ts s = (concat (map (retryEvents cfg) ts), None, s')" for s
    using assms
  proof (induction ts arbitrary: s)
    case (Cons t ts)
    then obtain s1 where t: "runTurn cfg t s = (retryEvents cfg t, None, s1)" using runTurn_retries by (metis list.set_intros(1))
    obtain s2 where "runLoop cfg ts s1 = (concat (map (retryEvents cfg) ts), None, s2)"
      using Cons.IH [of s1] Cons.prems by auto
    with t show ?case by simp
  qed simp
  then show ?thesis unfolding retryEvents_def [abs_def] by (simp add: Run_def)
qed

text \<open>A refused connection, a rejected token, and a connection that breaks behind a command.\<close>

definition sampleTurn :: "string \<Rightarrow> dial \<Rightarrow> turn" where
  "sampleTurn tok d = \<lparr>tnCtx = None, tnReg = Response 200 ''OK'' (Inr (''a'', tok)), tnRegWrite = None, tnDial = d,
     tnDialWrite = None, tnCtxAfter = None, tnWake = None\<rparr>"

definition sampleConfig :: agent_config where
  "sampleConfig = newAgent (Inr ''/opt/kompakt/agent'') \<lparr>acServerURL = ''http://s'', acDisableTLSVerification = False,
     acRegistrationSecret = ''secret'', acStateFile = [], acWorkDir = [],
     acReconnectIntervalSeconds = 0, acLogBatchSize = 0, acTLSCAFile = [], acTLSSkipVerify = False\<rparr>"

definition sampleTurns :: "turn list" where
  "sampleTurns = [sampleTurn ''t1'' (DialError None ''refused''), sampleTurn ''t2'' (DialError (Some 401) ''401''),
     sampleTurn ''t3'' (Dialled [PlaybookFrame (Some (samplePd 0))] ''EOF'')]"

theorem agent_keeps_reconnecting_witness:
  "\<exists>s'. Run sampleConfig (Unreadable ''io'') sampleTurns =
    ([ERegister, EDial ''t1'', ESleep 10000000000, ERegister, EDial ''t2'',
      ERegister, EDial ''t3'', EStart (StartPlaybook (samplePd 0)), ESleep 10000000000], None, s')"
proof -
  have "reconnectInterval sampleConfig = 10000000000" by code_simp
  then show ?thesis
    using agent_keeps_reconnecting [of sampleTurns sampleConfig "Unreadable ''io''"]
    by (simp add: sampleTurns_def sampleTurn_def)
qed

section \<open>Runs that overlap\<close>

text \<open>
  A playbook frame starts a run, and nothing ends it but its own end or the end of the program:
  the context it gets is that of \<^verbatim>\<open>Run\<close>, not one of the connection. So a lost connection
  silences a run without stopping it, while the resumed push of the next connection starts
  another at the index the server has.
\<close>

fun startedStep :: "agent_msg \<Rightarrow> int list" where
  "startedStep (MsgStepStart d) = [wsStepIndex d]"
| "startedStep _ = []"

text \<open>The sample run cut behind its first step: the second step is executed by both runs.\<close>

lemma cut_runs_twice:
  "let ms = fst (runPlaybook sampleOs [] (samplePd 0)); p = advances ''d'' (take 4 ms) (sampleProgress 0)
   in concat (map startedStep ms) = [0, 1] \<and> pResume p = 1 \<and>
      concat (map startedStep (fst (runPlaybook sampleOs [] (samplePd (pResume p))))) = [1]"
  by code_simp

text \<open>
  Assigning the playbook again while it runs sends its unfinished deployment again, over the
  same connection, and the agent starts a second run of it beside the first.
\<close>

lemma reassigned_runs_twice:
  assumes "GetAgent okDrv (wDB w) k = Some a" "aPlaybookID a \<noteq> []"
    "GetPlaybook okDrv (wDB w) (aPlaybookID a) = Some pb"
    "GetActiveDeploymentForAgent okDrv (wDB w) k = Some d" "dPlaybookID d = aPlaybookID a" "unfinished d"
  shows "\<exists>t pd. wHub (PushPlaybookIfAssigned okDrv clk rnd url k True w) = snd (Send k (MsgPlaybook t pd) (wHub w)) \<and>
    wpDeploymentID pd = dID d \<and> wpResumeStepIndex pd = dResumeStepIndex d \<and>
    fst (snd (connect (Dialled [PlaybookFrame (Some pd0), PlaybookFrame (Some pd)] e) ctx wr st)) = [StartPlaybook pd0, StartPlaybook pd]"
  using resumed_push [OF assms, of clk rnd url True]
  by (intro exI conjI, simp add: Let_def) (simp_all add: connect_def case_prod_beta)

end
