(* ===== verification/Enrolment.thy ===== *)
theory Enrolment
  imports Auth Connection
begin

text \<open>
  Agents and the server together: what the agent finds out about its machine, the registration
  request it makes of that, and the agent the server files it under. The identifier of the
  machine is what ties two registrations of one machine together.
\<close>

section \<open>The identifier the agent sends\<close>

text \<open>What the identifier is made from, and that there is something to make it from.\<close>

definition hardware :: "machine \<Rightarrow> string list" where
  "hardware m = [getVendor m, getModel m, hardwareSerial m, vmGUID m, firstStableMAC (mInterfaces m)]"

definition identified :: "machine \<Rightarrow> bool" where
  "identified m \<longleftrightarrow> hardwareSerial m \<noteq> [] \<or> vmGUID m \<noteq> [] \<or> firstStableMAC (mInterfaces m) \<noteq> []"

lemma collectID_meta: "isLikelyVM meta = isLikelyVM meta' \<Longrightarrow> fst (collectID m b meta) = fst (collectID m b meta')"
  by (simp add: collectID_def Let_def)

lemma collectID_nonempty: "fst (collectID m b meta) \<noteq> []"
  by (simp add: collectID_def Let_def)

lemma collectID_hardware:
  "hardware m' = hardware m \<Longrightarrow> identified m \<Longrightarrow> fst (collectID m' b' meta) = fst (collectID m b meta)"
  by (auto simp: collectID_def hardware_def identified_def Let_def)

lemma Collect_machine_id: "smap_get (piMetadata (Collect m b)) ''machine_id'' =
  fst (collectID m b [(''vendor'', getVendor m), (''model'', getModel m)])"
  using collectID_nonempty
  by (auto simp: Collect_def Let_def case_prod_beta isLikelyVM_def intro!: collectID_meta)

lemma machine_id_nonempty: "smap_get (piMetadata (Collect m b)) ''machine_id'' \<noteq> []"
  by (simp add: Collect_machine_id collectID_nonempty)

lemma Collect_same_machine:
  assumes "hardware m' = hardware m" "identified m"
  shows "machineOf (piMetadata (Collect m' b')) = machineOf (piMetadata (Collect m b))"
proof -
  have "getVendor m' = getVendor m" "getModel m' = getModel m" using assms(1) by (simp_all add: hardware_def)
  then show ?thesis by (simp add: machineOf_def Collect_machine_id collectID_hardware [OF assms, of b' _ b])
qed

section \<open>The agent the server files it under\<close>

text \<open>No two agents have the same machine.\<close>

definition machines_unique :: "db \<Rightarrow> bool" where
  "machines_unique db \<longleftrightarrow> (\<forall>x\<in>set (tAgents db). \<forall>y\<in>set (tAgents db).
     machineOf (aMetadata x) = machineOf (aMetadata y) \<longrightarrow> machineOf (aMetadata x) \<noteq> [] \<longrightarrow> aID x = aID y)"

lemma findMachine_None:
  "findMachine okDrv db req = None \<longleftrightarrow> machineOf (rqMetadata req) = [] \<or>
     (\<forall>x\<in>set (tAgents db). machineOf (aMetadata x) \<noteq> machineOf (rqMetadata req))"
  by (auto simp: findMachine_def ListAgents_def find_None_iff scanAgent_def Let_def)

lemma findMachine_Some:
  "findMachine okDrv db req = Some a \<Longrightarrow> machineOf (rqMetadata req) \<noteq> [] \<and>
     (\<exists>x\<in>set (tAgents db). machineOf (aMetadata x) = machineOf (rqMetadata req) \<and> aID x = aID a)"
  by (force simp: findMachine_def ListAgents_def scanAgent_def Let_def split: if_splits dest!: find_SomeD)

lemma set_upsert_rows:
  "distinct (map key xs) \<Longrightarrow> x \<in> set (upsert key merge r xs) \<Longrightarrow>
   x \<in> set xs \<and> key x \<noteq> key r \<or> x = r \<or> (\<exists>y\<in>set xs. key y = key r \<and> x = merge y r)"
  by (induction xs) (auto split: if_splits, metis imageI)

lemma issueAgentToken_agents: "tAgents (snd (issueAgentToken sha okDrv clk b rnd e k db)) = tAgents db"
  by (simp add: issueAgentToken_def CreateAgentToken_def Let_def split: prod.split option.split)

lemma register_rows:
  assumes "HandleAgentRegister sha okDrv clk rndA rndT b e r (Inr req) db = (resp, db')" "rspBody resp = Inr (k, tok)" "db_inv db"
  shows "aID ` set (tAgents db') = insert k (aID ` set (tAgents db))"
    "\<And>x. x \<in> set (tAgents db') \<Longrightarrow> if aID x = k then aMetadata x = rqMetadata req else x \<in> set (tAgents db)"
    "\<And>a. findMachine okDrv db req = Some a \<Longrightarrow> k = aID a"
proof -
  obtain a db1 db2 where a: "a = fillAgent r req (clk 2) (case findMachine okDrv db req of Some a \<Rightarrow> a
           | None \<Rightarrow> freshAgent (NewID (clk 0) rndA) (clk 1))"
    "k = aID a" "SaveAgent okDrv a db = (None, db1)"
    "db2 = (if findMachine okDrv db req \<noteq> None then snd (RevokeAllAgentTokens okDrv (clk 3) k db1) else db1)"
    "issueAgentToken sha okDrv (\<lambda>i. clk (4 + i)) b rndT e k db2 = (Inr tok, db')"
    using register_cases [OF assms(1,2)] by (metis sum.inject(2))
  have "tAgents db' = tAgents db2"
    using issueAgentToken_agents [of sha "\<lambda>i. clk (4 + i)" b rndT e k db2] a(5) by simp
  also have "\<dots> = tAgents db1" by (simp add: a(4) RevokeAllAgentTokens_def)
  also have "\<dots> = upsert aID mergeAgent (agentRow a) (tAgents db)" using a(3) by (auto simp: SaveAgent_def)
  finally have rows: "tAgents db' = upsert aID mergeAgent (agentRow a) (tAgents db)" .
  have dist: "distinct (map aID (tAgents db))" using assms(3) by (simp add: db_inv_def)
  have meta: "aMetadata a = rqMetadata req" using a(1) by simp
  show "aID ` set (tAgents db') = insert k (aID ` set (tAgents db))" by (simp add: rows agents.key_image_upsert a(2))
  show "if aID x = k then aMetadata x = rqMetadata req else x \<in> set (tAgents db)" if "x \<in> set (tAgents db')" for x
    using set_upsert_rows [OF dist that [unfolded rows]] a(2) meta by (auto simp: agentRow_def mergeAgent_def)
  show "k = aID a'" if "findMachine okDrv db req = Some a'" for a' using a(1,2) that by simp
qed

text \<open>
  After a registration the machine's agents are the one registered, if the machine had no two
  agents before.
\<close>

lemma register_owner:
  assumes "HandleAgentRegister sha okDrv clk rndA rndT b e r (Inr req) db = (resp, db')" "rspBody resp = Inr (k, tok)"
    "db_inv db" "machines_unique db" "machineOf (rqMetadata req) \<noteq> []" "x \<in> set (tAgents db')"
    "machineOf (aMetadata x) = machineOf (rqMetadata req)"
  shows "aID x = k"
proof (rule ccontr)
  assume "aID x \<noteq> k"
  then have x: "x \<in> set (tAgents db)" using register_rows(2) [OF assms(1-3,6)] by simp
  then obtain a where a: "findMachine okDrv db req = Some a" using assms(5,7) findMachine_None by fastforce
  from findMachine_Some [OF this] x assms(4,7) have "aID x = aID a" unfolding machines_unique_def by fastforce
  with register_rows(3) [OF assms(1-3) a] \<open>aID x \<noteq> k\<close> show False by simp
qed

lemma register_unique:
  assumes "HandleAgentRegister sha okDrv clk rndA rndT b e r (Inr req) db = (resp, db')" "rspBody resp = Inr (k, tok)"
    "db_inv db" "machines_unique db"
  shows "machines_unique db'"
  unfolding machines_unique_def
proof (intro ballI impI)
  fix x y
  assume xy: "x \<in> set (tAgents db')" "y \<in> set (tAgents db')"
    "machineOf (aMetadata x) = machineOf (aMetadata y)" "machineOf (aMetadata x) \<noteq> []"
  note rows = register_rows(2) [OF assms(1-3)] and owner = register_owner [OF assms]
  show "aID x = aID y"
  proof (cases "aID x = k")
    case True
    then have "aMetadata x = rqMetadata req" using rows [OF xy(1)] by simp
    with xy have m: "machineOf (rqMetadata req) \<noteq> []" "machineOf (aMetadata y) = machineOf (rqMetadata req)" by metis+
    show ?thesis unfolding True owner [OF m(1) xy(2) m(2)] ..
  next
    case False
    moreover have "aID y \<noteq> k"
    proof
      assume "aID y = k"
      then have "aMetadata y = rqMetadata req" using rows [OF xy(2)] by simp
      with xy have m: "machineOf (rqMetadata req) \<noteq> []" "machineOf (aMetadata x) = machineOf (rqMetadata req)" by metis+
      show False using owner [OF m(1) xy(1) m(2)] False by contradiction
    qed
    ultimately have "x \<in> set (tAgents db)" "y \<in> set (tAgents db)" using rows [OF xy(1)] rows [OF xy(2)] by simp_all
    then show ?thesis using xy(3,4) assms(4) unfolding machines_unique_def by blast
  qed
qed

lemma register_again:
  assumes "HandleAgentRegister sha okDrv clk rndA rndT b e r (Inr req) db = (resp, db1)" "rspBody resp = Inr (k, tok)"
    "HandleAgentRegister sha okDrv clk' rndA' rndT' b' e' r' (Inr req') db1 = (resp', db2)" "rspBody resp' = Inr (k', tok')"
    "machineOf (rqMetadata req') = machineOf (rqMetadata req)" "machineOf (rqMetadata req) \<noteq> []"
    "db_inv db" "machines_unique db"
  shows "k' = k"
proof -
  have inv: "db_inv db1" using HandleAgentRegister_inv [OF assms(7)] assms(1) by (metis snd_conv)
  obtain x where x: "x \<in> set (tAgents db1)" "aID x = k" using register_rows(1) [OF assms(1,2,7)] by (metis imageE insertI1)
  then have "aMetadata x = rqMetadata req" using register_rows(2) [OF assms(1,2,7) x(1)] by simp
  with x obtain a where a: "findMachine okDrv db1 req' = Some a" using assms(5,6) findMachine_None by fastforce
  then obtain y where "y \<in> set (tAgents db1)" "machineOf (aMetadata y) = machineOf (rqMetadata req)" "aID y = aID a"
    using findMachine_Some assms(5) by fastforce
  with register_owner [OF assms(1,2,7,8,6)] register_rows(3) [OF assms(3,4) inv a] show ?thesis by simp
qed

section \<open>Registrations that must succeed\<close>

lemma revoke_all_keys: "tkID ` set (tTokens (snd (RevokeAllAgentTokens okDrv t k db))) = tkID ` set (tTokens db)"
    "tkTokenHash ` set (tTokens (snd (RevokeAllAgentTokens okDrv t k db))) = tkTokenHash ` set (tTokens db)"
  unfolding set_map [symmetric]
  by (auto simp: RevokeAllAgentTokens_def simp del: set_map intro!: arg_cong [where f = set] map_cong)

text \<open>
  With a store that works, a valid request is answered with a token, if neither the id nor the
  hash of the token is taken.
\<close>

lemma register_succeeds:
  assumes "rMethod r = ''POST''" "rqHostname req \<noteq> []" "validPlatform (rqPlatform req)"
    "validRegistrationSecret e (rqRegistrationSecret req)"
    "NewID (clk 5) rndT \<notin> tkID ` set (tTokens db)" "sha256hex sha (''kpkt_'' @ hexEncode b) \<notin> tkTokenHash ` set (tTokens db)"
  obtains k db' where
    "HandleAgentRegister sha okDrv clk rndA rndT b e r (Inr req) db = (writeJSON 200 (k, ''kpkt_'' @ hexEncode b), db')"
    "tkID ` set (tTokens db') = insert (NewID (clk 5) rndT) (tkID ` set (tTokens db))"
    "tkTokenHash ` set (tTokens db') = insert (sha256hex sha (''kpkt_'' @ hexEncode b)) (tkTokenHash ` set (tTokens db))"
proof -
  let ?f = "findMachine okDrv db req"
  let ?a = "fillAgent r req (clk 2) (case ?f of Some a \<Rightarrow> a | None \<Rightarrow> freshAgent (NewID (clk 0) rndA) (clk 1))"
  obtain db1 where sv: "SaveAgent okDrv ?a db = (None, db1)" by (simp add: SaveAgent_def)
  then have db1: "db1 = db\<lparr>tAgents := upsert aID mergeAgent (agentRow ?a) (tAgents db)\<rparr>" by (simp add: SaveAgent_def)
  let ?db2 = "if ?f \<noteq> None then snd (RevokeAllAgentTokens okDrv (clk 3) (aID ?a) db1) else db1"
  have toks: "tkID ` set (tTokens ?db2) = tkID ` set (tTokens db)" "tkTokenHash ` set (tTokens ?db2) = tkTokenHash ` set (tTokens db)"
    by (simp_all add: db1 revoke_all_keys)
  have agent: "aID ?a \<in> aID ` set (tAgents ?db2)"
    by (simp add: db1 RevokeAllAgentTokens_def agents.key_image_upsert)
  obtain db' where iss: "issueAgentToken sha okDrv (\<lambda>i. clk (4 + i)) b rndT e (aID ?a) ?db2 = (Inr (''kpkt_'' @ hexEncode b), db')"
    using issue_okDrv [OF agent, of "\<lambda>i. clk (4 + i)" rndT sha b e] assms(5,6) by (auto simp only: toks) auto
  show thesis
  proof (rule that)
    show "HandleAgentRegister sha okDrv clk rndA rndT b e r (Inr req) db = (writeJSON 200 (aID ?a, ''kpkt_'' @ hexEncode b), db')"
      unfolding HandleAgentRegister_def Let_def sum.case sv prod.case option.case iss using assms(1-4) by simp
  qed (use toks CreateAgentToken_done(1) [OF issue_cases(2) [OF iss]] in simp_all)
qed

section \<open>A machine keeps its agent\<close>

definition sampleMachine :: machine where
  "sampleMachine = \<lparr>mGOOS = Linux, mGOARCH = ''amd64'', mOsHostname = ''host'',
     mOpen = [''/sys/class/dmi/id/product_serial'' \<mapsto> ''S1''], mOutput = (\<lambda>_. None), mPlist = None,
     mInterfaces = [], mLookPath = (\<lambda>_. False)\<rparr>"

definition sampleAgentConfig :: agent_config where
  "sampleAgentConfig = \<lparr>acServerURL = ''http://s'', acDisableTLSVerification = False, acRegistrationSecret = ''secret'',
     acStateFile = [], acWorkDir = [], acReconnectIntervalSeconds = 0, acLogBatchSize = 0, acTLSCAFile = [],
     acTLSSkipVerify = False\<rparr>"

text \<open>
  C10. A machine is registered as one agent: when an agent program on a machine with a hardware
  identifier registers, and later a program on the same hardware registers again (after a
  restart, with its state file gone, with another host name, version, configuration or clock),
  the server answers with the same agent id, and still no machine has two agents.
\<close>

theorem machine_keeps_agent:
  assumes "hardware m' = hardware m" "identified m" "machineOf (piMetadata (Collect m rnd)) \<noteq> []"
    "HandleAgentRegister sha okDrv clk rndA rndT b e r
       (Inr (registrationRequest cfg (Collect m rnd) (DetectShells m))) db = (resp, db1)" "rspBody resp = Inr (k, tok)"
    "HandleAgentRegister sha okDrv clk' rndA' rndT' b' e r'
       (Inr (registrationRequest cfg' (Collect m' rnd') (DetectShells m'))) db1 = (resp', db2)" "rspBody resp' = Inr (k', tok')"
    "db_inv db" "machines_unique db"
  shows "k' = k \<and> machines_unique db2"
proof -
  let ?q = "registrationRequest cfg (Collect m rnd) (DetectShells m)"
  let ?q' = "registrationRequest cfg' (Collect m' rnd') (DetectShells m')"
  have "machineOf (rqMetadata ?q') = machineOf (rqMetadata ?q)" "machineOf (rqMetadata ?q) \<noteq> []"
    using Collect_same_machine [OF assms(1,2)] assms(3) by (simp_all add: registrationRequest_def)
  note same = register_again [OF assms(4-7) this assms(8,9)]
  have "db_inv db1" using HandleAgentRegister_inv [OF assms(8)] assms(4) by (metis snd_conv)
  with same show ?thesis using register_unique [OF assms(4,5,8,9)] register_unique [OF assms(6,7)] by blast
qed

lemma sample_serial: "hardwareSerial sampleMachine = ''S1''" "identified sampleMachine"
  by code_simp+

lemma sample_machine: "machineOf (piMetadata (Collect sampleMachine b)) = ''S1''"
proof -
  have "vmGUID sampleMachine = []" by code_simp
  then show ?thesis
    by (simp add: machineOf_def Collect_machine_id collectID_def sample_serial TrimSpace_graph graph_char_def)
qed

lemma sample_request [simp]:
  "rqHostname (registrationRequest sampleAgentConfig (Collect sampleMachine b) sh) \<noteq> []"
  "validPlatform (rqPlatform (registrationRequest sampleAgentConfig (Collect sampleMachine b) sh))"
  "validRegistrationSecret sampleHandler (rqRegistrationSecret (registrationRequest sampleAgentConfig (Collect sampleMachine b) sh))"
  by (simp_all add: registrationRequest_def Collect_def Let_def case_prod_beta getHostname_def detectPlatform_def sampleMachine_def
      validPlatform_def validRegistrationSecret_def sampleHandler_def sampleAgentConfig_def)

theorem machine_keeps_agent_witness:
  "\<exists>k db1 db2.
     HandleAgentRegister sampleSha okDrv (\<lambda>_. 0) [] [] [] sampleHandler sampleRequest
       (Inr (registrationRequest sampleAgentConfig (Collect sampleMachine [1]) (DetectShells sampleMachine))) emptyDB =
       (writeJSON 200 (k, ''kpkt_''), db1) \<and>
     HandleAgentRegister sampleSha okDrv (\<lambda>_. 1000000000) [] [] [0] sampleHandler sampleRequest
       (Inr (registrationRequest sampleAgentConfig (Collect sampleMachine [2]) (DetectShells sampleMachine))) db1 =
       (writeJSON 200 (k, ''kpkt_00''), db2)"
proof -
  let ?q = "\<lambda>b. registrationRequest sampleAgentConfig (Collect sampleMachine b) (DetectShells sampleMachine)"
  have ids: "NewID 1000000000 [] \<noteq> NewID 0 []" by code_simp
  have hash: "sha256hex sampleSha ''kpkt_00'' \<noteq> sha256hex sampleSha ''kpkt_''"
    by (intro notI, drule arg_cong [of _ _ length]) (simp add: sha256hex_def sampleSha_def)
  have zero: "hexEncode [0] = ''00''" "hexEncode [] = []" by code_simp+
  obtain k db1 where one: "HandleAgentRegister sampleSha okDrv (\<lambda>_. 0) [] [] [] sampleHandler sampleRequest (Inr (?q [1])) emptyDB =
       (writeJSON 200 (k, ''kpkt_''), db1)"
    "tkID ` set (tTokens db1) = {NewID 0 []}" "tkTokenHash ` set (tTokens db1) = {sha256hex sampleSha ''kpkt_''}"
    by (rule register_succeeds [of sampleRequest "?q [1]" sampleHandler "\<lambda>_. 0" "[]" emptyDB sampleSha "[]" "[]"])
      (simp_all add: emptyDB_def zero)
  obtain k' db2 where two: "HandleAgentRegister sampleSha okDrv (\<lambda>_. 1000000000) [] [] [0] sampleHandler sampleRequest
       (Inr (?q [2])) db1 = (writeJSON 200 (k', ''kpkt_00''), db2)"
    by (rule register_succeeds [of sampleRequest "?q [2]" sampleHandler "\<lambda>_. 1000000000" "[]" db1 sampleSha "[0]" "[]"])
      (simp_all add: one zero ids hash)
  have inv: "db_inv emptyDB" "machines_unique emptyDB" by (simp_all add: machines_unique_def) (simp add: emptyDB_def)
  have "k' = k"
    using machine_keeps_agent [OF refl sample_serial(2) _ one(1) _ two _ inv, of k "''kpkt_''" k' "''kpkt_00''"]
    by (simp add: writeJSON_def sample_machine)
  with one two show ?thesis by blast
qed

text \<open>
  The agent accepts as an identifier what the server takes for none: a serial number that is
  blank once its NUL bytes are gone.
\<close>

lemma blank_serial:
  "let m = sampleMachine\<lparr>mOpen := [''/sys/class/dmi/id/product_serial'' \<mapsto> [CHR 0x00, CHR 0x20, CHR 0x00]]\<rparr>
   in smap_get (piMetadata (Collect m b)) ''machine_id'' = '' '' \<and> machineOf (piMetadata (Collect m b)) = []"
proof -
  let ?m = "sampleMachine\<lparr>mOpen := [''/sys/class/dmi/id/product_serial'' \<mapsto> [CHR 0x00, CHR 0x20, CHR 0x00]]\<rparr>"
  have "hardwareSerial ?m = '' ''" "vmGUID ?m = []" "TrimSpace '' '' = []" by code_simp+
  then show ?thesis by (simp add: machineOf_def Collect_machine_id collectID_def Let_def)
qed

section \<open>From the registration to the socket\<close>

lemma same_token: "rawTokenFromRequest r = rawTokenFromRequest r' \<Longrightarrow>
    agentIDFromToken sha drv now r db = agentIDFromToken sha drv now r' db"
  by (simp add: agentIDFromToken_def)

lemma push_keeps_connections: "IsConnected (wHub (PushPlaybookIfAssigned drv clk rnd url k f w)) b = IsConnected (wHub w) b"
  by (auto simp: PushPlaybookIfAssigned_def Let_def case_prod_beta ports_hub.send_keeps split: option.split)

lemma openWS_opens:
  assumes "agentIDFromToken sha okDrv (clk 0) r (wDB w) = Inr k" "GetAgent okDrv (wDB w) k \<noteq> None" "hub_inv (wHub w)"
  shows "\<exists>w'. openWS sha okDrv clk rnd e r None w = Opened k w' \<and> IsConnected (wHub w') k"
proof -
  obtain a where a: "GetAgent okDrv (wDB w) k = Some a" using assms(2) by blast
  obtain p h1 where n: "newAgentConn k (wHub w) = (p, h1)" by fastforce
  obtain h2 where h2: "register p h1 = Some h2" "hConns h2 = (hConns (wHub w))(k := Some p)"
    using connect_total [OF assms(3) n] by blast
  then have "IsConnected h2 k" by (simp add: IsConnected_def)
  then show ?thesis by (simp add: openWS_def assms(1) a n h2(1) push_keeps_connections)
qed

text \<open>
  C9. A registered agent gets through to the server. The token of its registration is, whatever
  bytes it holds and whatever query the configured URL has, the token the server reads from the
  URL the agent dials; the server accepts it until it expires, and the socket it opens is
  registered under the agent's id.
\<close>

theorem registered_agent_connects:
  assumes "HandleAgentRegister sha drv clk rndA rndT b e r body db = (resp, wDB w)" "rspBody resp = Inr (k, tok)"
    "time_ok (clk 6)" "time_ok (clk 4 + tokenExpiry e)" "clk' 0 \<le> clk 4 + tokenExpiry e" "hub_inv (wHub w)"
    "parse (acServerURL cfg) = Inr u" "rAuthorization rq = []"
    "rQueryToken rq = valuesGet (ParseQuery (urRawQuery (wsURL tok u))) ''token''"
  shows "wsEndpoint parse print (acServerURL cfg) tok = print (wsURL tok u) \<and>
    (\<exists>w'. openWS sha okDrv clk' rnd e rq None w = Opened k w' \<and> IsConnected (wHub w') k)"
proof -
  obtain db2 where "issueAgentToken sha drv (\<lambda>i. clk (4 + i)) b rndT e k db2 = (Inr tok, wDB w)"
    using register_cases [OF assms(1,2)] by metis
  note works = issued_token_works [OF this]
  have "rawTokenFromRequest rq = rawTokenFromRequest (bearing tok rq)"
    using assms(8,9) unfolding bearing_token wsURL_token by (simp add: rawTokenFromRequest_def HasPrefix_def)
  from same_token [OF this] have "agentIDFromToken sha okDrv (clk' 0) rq (wDB w) = Inr k"
    using works(1) [of "clk' 0" rq] assms(3-5) by simp
  moreover have "GetAgent okDrv (wDB w) k \<noteq> None" by (rule works(2)) (use assms(3-5) in auto)
  ultimately show ?thesis
    using openWS_opens [of sha clk' rq w k] assms(6,7) by (simp add: wsEndpoint_def)
qed

definition sampleURL :: url where
  "sampleURL = \<lparr>urScheme = ''https'', urPath = ''/kompakt/'', urRawQuery = ''token=old&x=1''\<rparr>"

theorem registered_agent_connects_witness:
  "\<exists>k db' w'. HandleAgentRegister sampleSha okDrv (\<lambda>_. 0) [] [] [] sampleHandler sampleRequest (Inr sampleRegistration) emptyDB =
      (writeJSON 200 (k, ''kpkt_''), db') \<and>
    openWS sampleSha okDrv (\<lambda>_. 5) [] sampleHandler (sampleRequest\<lparr>rQueryToken := ''kpkt_''\<rparr>) None
      \<lparr>wDB = db', wHub = NewHub, wCmds = NewCommandStore\<rparr> = Opened k w'"
proof -
  obtain k db' where reg: "HandleAgentRegister sampleSha okDrv (\<lambda>_. 0) [] [] [] sampleHandler sampleRequest
      (Inr sampleRegistration) emptyDB = (writeJSON 200 (k, ''kpkt_''), db')" using sample_register by blast
  let ?w = "\<lparr>wDB = db', wHub = NewHub, wCmds = NewCommandStore\<rparr>"
  have "HandleAgentRegister sampleSha okDrv (\<lambda>_. 0) [] [] [] sampleHandler sampleRequest
      (Inr sampleRegistration) emptyDB = (writeJSON 200 (k, ''kpkt_''), wDB ?w)" using reg by simp
  from registered_agent_connects [OF this, where k = k and tok = "''kpkt_''" and clk' = "\<lambda>_. 5" and u = sampleURL
      and parse = "\<lambda>_. Inr sampleURL" and cfg = sampleAgentConfig and print = urPath
      and rq = "sampleRequest\<lparr>rQueryToken := ''kpkt_''\<rparr>"]
  obtain w' where "openWS sampleSha okDrv (\<lambda>_. 5) [] sampleHandler (sampleRequest\<lparr>rQueryToken := ''kpkt_''\<rparr>) None ?w = Opened k w'"
    by (auto simp: wsURL_token writeJSON_def sampleRequest_def sampleHandler_def tokenExpiry_def durationHours_def hour_def)
  with reg show ?thesis by blast
qed

end
