(* ===== verification/Agent_Process.thy ===== *)
theory Agent_Process
  imports Agent
begin

text \<open>
  The agent as a process: the goroutines of \<^verbatim>\<open>agent/agent.go\<close> side by side. Every
  connection has a message writer; every playbook frame and every command frame starts a run,
  which hands its messages to the writer of the connection the frame came from, however long
  that connection lives. A step of the process is one action of one goroutine: a connection, a
  frame, a message handed over or dropped, a turn of a writer, the end of a connection. What a
  writer has put on its socket is shown to be an interleaving of the runs of its connection, each
  in its own order, so that the messages of a deployment or a command arrive as if it had the
  connection to itself.
\<close>

section \<open>The process\<close>

text \<open>What a message is about: a deployment or a command.\<close>

fun origin :: "agent_msg \<Rightarrow> string + string" where
  "origin (MsgLog d) = Inl (wlDeploymentID d)"
| "origin (MsgStepStart d) = Inl (wsDeploymentID d)"
| "origin (MsgStepComplete d) = Inl (wsDeploymentID d)"
| "origin (MsgReboot d) = Inl (wrDeploymentID d)"
| "origin (MsgDeployDone d) = Inl (wsDeploymentID d)"
| "origin (MsgDeployFailed d) = Inl (wsDeploymentID d)"
| "origin (MsgCommandStream d) = Inr (wkCmdID d)"
| "origin (MsgCommandCompleted d) = Inr (wtCmdID d)"

text \<open>
  A run: what it is of, the writer it was given, the messages it still has to hand over, and
  all of them.
\<close>

record run =
  rnOrigin :: "string + string"
  rnWriter :: nat
  rnTodo :: "agent_msg list"
  rnAll :: "agent_msg list"

definition newRun :: "string + string \<Rightarrow> nat \<Rightarrow> agent_msg list \<Rightarrow> run" where
  "newRun o' c ms = \<lparr>rnOrigin = o', rnWriter = c, rnTodo = ms, rnAll = ms\<rparr>"

record process =
  prWriters :: "message_writer list"
  prRuns :: "run list"

definition atStart :: process where
  "atStart = \<lparr>prWriters = [], prRuns = []\<rparr>"

definition startRun :: "string + string \<Rightarrow> agent_msg list \<Rightarrow> process \<Rightarrow> process" where
  "startRun o' ms s = s\<lparr>prRuns := prRuns s @ [newRun o' (length (prWriters s) - 1) ms]\<rparr>"

definition withWriter :: "nat \<Rightarrow> (message_writer \<Rightarrow> message_writer) \<Rightarrow> process \<Rightarrow> process" where
  "withWriter c f s = s\<lparr>prWriters := (prWriters s)[c := f (prWriters s ! c)]\<rparr>"

text \<open>The next message of a run leaves its hands.\<close>

definition handOver :: "nat \<Rightarrow> process \<Rightarrow> process" where
  "handOver j s = s\<lparr>prRuns := (prRuns s)[j := (prRuns s ! j)\<lparr>rnTodo := tl (rnTodo (prRuns s ! j))\<rparr>]\<rparr>"

text \<open>
  \<^verbatim>\<open>connect\<close> returns when its writer is done, since \<^verbatim>\<open>Stop\<close> waits for it, and the next one is
  only called then. Frames are read as long as the connection is not being closed.
\<close>

definition connected :: "process \<Rightarrow> bool" where
  "connected s \<longleftrightarrow> prWriters s \<noteq> [] \<and> \<not> mwStop (last (prWriters s))"

inductive process_step :: "process \<Rightarrow> process \<Rightarrow> bool" where
  connect: "list_all mwDone (prWriters s) \<Longrightarrow> process_step s (s\<lparr>prWriters := prWriters s @ [newMessageWriter]\<rparr>)"
| playbook: "connected s \<Longrightarrow>
    process_step s (startRun (Inl (wpDeploymentID pd)) (fst (runPlaybook osAt token pd)) s)"
| command: "connected s \<Longrightarrow> process_step s (startRun (Inr (wcCmdID cd)) (runCommand co workDir cd) s)"
| queued: "j < length (prRuns s) \<Longrightarrow> rnTodo (prRuns s ! j) = m # ms \<Longrightarrow> c = rnWriter (prRuns s ! j) \<Longrightarrow>
    mwBuffered (prWriters s ! c) < writerCap \<Longrightarrow> process_step s (handOver j (withWriter c (enqueue m) s))"
| dropped: "j < length (prRuns s) \<Longrightarrow> rnTodo (prRuns s ! j) = m # ms \<Longrightarrow>
    mwDone (prWriters s ! rnWriter (prRuns s ! j)) \<Longrightarrow> process_step s (handOver j s)"
| turn: "c < length (prWriters s) \<Longrightarrow> turnEnabled k (prWriters s ! c) \<Longrightarrow> process_step s (withWriter c (writerTurn k) s)"
| closing: "connected s \<Longrightarrow>
    process_step s (withWriter (length (prWriters s) - 1) (\<lambda>w. w\<lparr>mwStop := True\<rparr>) s)"

abbreviation process_reach :: "process \<Rightarrow> bool" where
  "process_reach s \<equiv> process_step\<^sup>*\<^sup>* atStart s"

section \<open>What a run hands over\<close>

lemma runSteps_origin: "m \<in> set (fst (runSteps osAt token pd xs)) \<Longrightarrow> origin m = Inl (wpDeploymentID pd)"
  by (induction xs) (auto simp: Let_def case_prod_beta stepData_def logMessage_def split: if_splits option.splits)

lemma runPlaybook_origin: "m \<in> set (fst (runPlaybook osAt token pd)) \<Longrightarrow> origin m = Inl (wpDeploymentID pd)"
  using runSteps_origin by (auto simp: runPlaybook_def split: option.splits)

lemma finishCommand_origin: "m \<in> set (finishCommand cd out) \<Longrightarrow> origin m = Inr (wcCmdID cd)"
  by (auto simp: finishCommand_def sendDone_def streamLines_def split: cmd_outcome.splits cmd_exit.splits)

lemma runCommand_origin: "m \<in> set (runCommand co workDir cd) \<Longrightarrow> origin m = Inr (wcCmdID cd)"
  using finishCommand_origin by (simp add: runCommand_def)

section \<open>The invariant\<close>

text \<open>
  Behind every writer lie the messages handed to it, each with the number of the run it came
  from: those of one run, followed by what it still holds, are all of its messages.
\<close>

definition of_run :: "nat \<Rightarrow> (nat \<times> agent_msg) list \<Rightarrow> agent_msg list" where
  "of_run j tms = map snd (filter (\<lambda>tm. fst tm = j) tms)"

definition run_ok :: "process \<Rightarrow> run \<Rightarrow> bool" where
  "run_ok s r \<longleftrightarrow> rnWriter r < length (prWriters s) \<and> (\<forall>m\<in>set (rnAll r). origin m = rnOrigin r)"

definition handed :: "process \<Rightarrow> nat \<Rightarrow> (nat \<times> agent_msg) list \<Rightarrow> bool" where
  "handed s c tms \<longleftrightarrow> writer_reach (map snd tms) (prWriters s ! c) \<and>
     (\<forall>(j, m)\<in>set tms. j < length (prRuns s) \<and> rnWriter (prRuns s ! j) = c) \<and>
     (\<forall>j<length (prRuns s). rnWriter (prRuns s ! j) = c \<longrightarrow>
        of_run j tms @ rnTodo (prRuns s ! j) = rnAll (prRuns s ! j))"

definition process_inv :: "process \<Rightarrow> bool" where
  "process_inv s \<longleftrightarrow> (\<forall>r\<in>set (prRuns s). run_ok s r) \<and> (\<forall>c<length (prWriters s). \<exists>tms. handed s c tms)"

lemma of_run_simps [simp]: "of_run j [] = []" "of_run j (xs @ ys) = of_run j xs @ of_run j ys"
    "of_run j ((j', m) # xs) = (if j' = j then m # of_run j xs else of_run j xs)"
  by (simp_all add: of_run_def)

lemma of_run_absent: "\<forall>(j', m)\<in>set tms. j' \<noteq> j \<Longrightarrow> of_run j tms = []"
  by (auto simp: of_run_def filter_empty_conv)

lemma handOver_select [simp]:
  "prWriters (handOver j s) = prWriters s" "length (prRuns (handOver j s)) = length (prRuns s)"
  "j' < length (prRuns s) \<Longrightarrow> prRuns (handOver j s) ! j' =
     (if j' = j then (prRuns s ! j)\<lparr>rnTodo := tl (rnTodo (prRuns s ! j))\<rparr> else prRuns s ! j')"
  by (auto simp: handOver_def nth_list_update)

lemma withWriter_select [simp]:
  "prRuns (withWriter c f s) = prRuns s" "length (prWriters (withWriter c f s)) = length (prWriters s)"
  "c' < length (prWriters s) \<Longrightarrow> prWriters (withWriter c f s) ! c' = (if c' = c then f (prWriters s ! c) else prWriters s ! c')"
  by (auto simp: withWriter_def nth_list_update)

lemma run_ok_handOver: "\<forall>r\<in>set (prRuns s). run_ok s r \<Longrightarrow> j < length (prRuns s) \<Longrightarrow> \<forall>r\<in>set (prRuns (handOver j s)). run_ok (handOver j s) r"
  by (auto simp: handOver_def run_ok_def dest!: set_update_subset_insert [THEN subsetD])

lemma startRun_inv:
  assumes "process_inv s" "connected s" "\<forall>m\<in>set ms. origin m = o'"
  shows "process_inv (startRun o' ms s)"
  unfolding process_inv_def
proof (intro conjI allI impI)
  show "\<forall>r\<in>set (prRuns (startRun o' ms s)). run_ok (startRun o' ms s) r"
    using assms by (auto simp: process_inv_def startRun_def run_ok_def newRun_def connected_def)
next
  fix c
  assume "c < length (prWriters (startRun o' ms s))"
  then obtain tms where h: "handed s c tms" using assms(1) by (auto simp: process_inv_def startRun_def)
  then have "of_run (length (prRuns s)) tms = []" by (intro of_run_absent) (auto simp: handed_def)
  with h have "handed (startRun o' ms s) c tms"
    by (auto simp: handed_def startRun_def newRun_def nth_append less_Suc_eq)
  then show "\<exists>tms. handed (startRun o' ms s) c tms" by blast
qed

text \<open>A writer moves alone, or together with the run whose message it gets or refuses.\<close>

lemma handed_writer:
  assumes "handed s c' tms" "c' < length (prWriters s)" "c < length (prWriters s)"
    "\<And>ms. writer_reach ms (prWriters s ! c) \<Longrightarrow> writer_reach ms (f (prWriters s ! c))"
  shows "handed (withWriter c f s) c' tms"
  using assms by (auto simp: handed_def)

lemma withWriter_inv:
  assumes "process_inv s" "c < length (prWriters s)"
    "\<And>ms. writer_reach ms (prWriters s ! c) \<Longrightarrow> writer_reach ms (f (prWriters s ! c))"
  shows "process_inv (withWriter c f s)"
proof -
  have "handed (withWriter c f s) c' tms" if "handed s c' tms" "c' < length (prWriters s)" for c' tms
    using that assms(2,3) by (rule handed_writer)
  moreover have "run_ok (withWriter c f s) r = run_ok s r" for r by (simp add: run_ok_def)
  ultimately show ?thesis using assms(1) unfolding process_inv_def withWriter_select(1,2) by blast
qed

lemma handOver_other:
  assumes "handed s c tms" "rnWriter (prRuns s ! j) \<noteq> c" "prWriters s' ! c = prWriters s ! c" "prRuns s' = prRuns (handOver j s)"
  shows "handed s' c tms"
  using assms by (auto simp: handed_def)

lemma handOver_this:
  assumes "handed s c tms" "rnWriter (prRuns s ! j) = c" "j < length (prRuns s)" "rnTodo (prRuns s ! j) = m # ms"
    "writer_reach (map snd tms @ [m]) (prWriters s' ! c)" "prRuns s' = prRuns (handOver j s)"
  shows "handed s' c (tms @ [(j, m)])"
  using assms by (auto simp: handed_def)

lemma handOver_inv:
  assumes "process_inv s" "j < length (prRuns s)" "rnTodo (prRuns s ! j) = m # ms" "c = rnWriter (prRuns s ! j)"
    "prRuns s' = prRuns (handOver j s)" "length (prWriters s') = length (prWriters s)"
    "\<And>c'. c' < length (prWriters s) \<Longrightarrow> c' \<noteq> c \<Longrightarrow> prWriters s' ! c' = prWriters s ! c'"
    "\<And>ms. writer_reach ms (prWriters s ! c) \<Longrightarrow> writer_reach (ms @ [m]) (prWriters s' ! c)"
  shows "process_inv s'"
  unfolding process_inv_def
proof (intro conjI allI impI)
  show "\<forall>r\<in>set (prRuns s'). run_ok s' r"
    using run_ok_handOver [of s j] assms(1,2,6) unfolding process_inv_def assms(5) run_ok_def by simp
next
  fix c'
  assume c': "c' < length (prWriters s')"
  then obtain tms where h: "handed s c' tms" using assms(1,6) by (auto simp: process_inv_def)
  show "\<exists>tms. handed s' c' tms"
  proof (cases "c' = c")
    case True
    then have "writer_reach (map snd tms @ [m]) (prWriters s' ! c')"
      using h assms(8) by (simp add: handed_def)
    with handOver_this [OF h _ assms(2,3) _ assms(5)] True assms(4) show ?thesis by blast
  next
    case False
    with handOver_other [OF h _ _ assms(5)] assms(4,6,7) c' show ?thesis by auto
  qed
qed

lemma process_step_inv: "process_step s s' \<Longrightarrow> process_inv s \<Longrightarrow> process_inv s'"
proof (induction rule: process_step.induct)
  case (connect s)
  have "handed (s\<lparr>prWriters := prWriters s @ [newMessageWriter]\<rparr>) c tms" if "handed s c tms" "c < length (prWriters s)" for c tms
    using that by (simp add: handed_def nth_append)
  moreover have "rnWriter (prRuns s ! j) \<noteq> length (prWriters s)" if "j < length (prRuns s)" for j
    using connect(2) nth_mem [OF that] by (auto simp: process_inv_def run_ok_def)
  then have "handed (s\<lparr>prWriters := prWriters s @ [newMessageWriter]\<rparr>) (length (prWriters s)) []"
    by (simp add: handed_def writer_reach.start)
  ultimately have "\<exists>tms. handed (s\<lparr>prWriters := prWriters s @ [newMessageWriter]\<rparr>) c tms" if "c < Suc (length (prWriters s))" for c
    using connect(2) that unfolding process_inv_def less_Suc_eq by blast
  moreover have "run_ok (s\<lparr>prWriters := prWriters s @ [newMessageWriter]\<rparr>) r" if "r \<in> set (prRuns s)" for r
    using connect(2) that by (auto simp: process_inv_def run_ok_def)
  ultimately show ?case unfolding process_inv_def by simp
next
  case (playbook s pd osAt token)
  with startRun_inv show ?case using runPlaybook_origin by blast
next
  case (command s cd co workDir)
  with startRun_inv show ?case using runCommand_origin by blast
next
  case (queued j s m ms c)
  then have "c < length (prWriters s)" by (auto simp: process_inv_def run_ok_def)
  with queued show ?case
    by (intro handOver_inv [OF queued(5,1,2,3)]) (auto simp: handOver_def intro: writer_reach.queued)
next
  case (dropped j s m ms)
  show ?case by (rule handOver_inv [OF dropped(4,1,2) refl]) (use dropped(3) in \<open>auto intro: writer_reach.dropped\<close>)
next
  case (turn c s k)
  show ?case by (rule withWriter_inv [OF turn(3,1)]) (rule writer_reach.turn [OF _ turn(2)])
next
  case (closing s)
  then have "length (prWriters s) - 1 < length (prWriters s)" by (simp add: connected_def)
  from withWriter_inv [OF closing(2) this] show ?case by (auto intro: writer_reach.stop)
qed

lemma process_reach_inv: "process_reach s \<Longrightarrow> process_inv s"
proof (induction rule: rtranclp_induct)
  case base
  then show ?case by (simp add: process_inv_def atStart_def)
next
  case (step s s')
  then show ?case using process_step_inv by blast
qed

section \<open>What reaches the socket\<close>

text \<open>
  The socket of a connection carries an interleaving of its runs: every message is tagged with
  a run of this connection, and the messages of each run are the first of that run, in order.
\<close>

lemma prefix_map_snd: "prefix ws (map snd tms) \<Longrightarrow> \<exists>tms'. prefix tms' tms \<and> ws = map snd tms'"
  by (metis append_eq_conv_conj prefix_def take_is_prefix take_map)

lemma of_run_prefix: "prefix tms' tms \<Longrightarrow> prefix (of_run j tms') (of_run j tms)"
  by (auto simp: prefix_def)

lemma socket_tags:
  assumes "process_reach s" "c < length (prWriters s)"
  obtains tms where "mwWritten (prWriters s ! c) = map snd tms"
    "\<And>j m. (j, m) \<in> set tms \<Longrightarrow> j < length (prRuns s) \<and> rnWriter (prRuns s ! j) = c \<and> origin m = rnOrigin (prRuns s ! j)"
    "\<And>j. j < length (prRuns s) \<Longrightarrow> prefix (of_run j tms) (rnAll (prRuns s ! j))"
proof -
  note inv = process_reach_inv [OF assms(1)]
  then obtain tms where h: "handed s c tms" using assms(2) by (auto simp: process_inv_def)
  then have "prefix (mwWritten (prWriters s ! c)) (map snd tms)"
    using writer_inv [of "map snd tms"] by (auto simp: handed_def writer_inv_def intro: prefix_order.trans)
  then obtain ts where ts: "prefix ts tms" "mwWritten (prWriters s ! c) = map snd ts" using prefix_map_snd by blast
  have own: "j < length (prRuns s) \<and> rnWriter (prRuns s ! j) = c" if "(j, m) \<in> set tms" for j m
    using h that by (auto simp: handed_def)
  have pre: "prefix (of_run j ts) (rnAll (prRuns s ! j))" if "j < length (prRuns s)" for j
  proof (cases "rnWriter (prRuns s ! j) = c")
    case True
    with h that have "of_run j tms @ rnTodo (prRuns s ! j) = rnAll (prRuns s ! j)" by (simp add: handed_def)
    then have "prefix (of_run j tms) (rnAll (prRuns s ! j))" by (metis prefixI)
    then show ?thesis using of_run_prefix [OF ts(1)] prefix_order.trans by blast
  next
    case False
    with own ts(1) have "of_run j ts = []" by (intro of_run_absent) (auto dest: set_mono_prefix)
    then show ?thesis by simp
  qed
  have "origin m = rnOrigin (prRuns s ! j)" if "(j, m) \<in> set ts" for j m
  proof -
    have "m \<in> set (of_run j ts)" using that by (force simp: of_run_def)
    moreover have j: "j < length (prRuns s)" using own that ts(1) by (auto dest: set_mono_prefix)
    ultimately have "m \<in> set (rnAll (prRuns s ! j))" using pre [OF j] by (auto dest: set_mono_prefix)
    then show ?thesis using inv j nth_mem [OF j] by (auto simp: process_inv_def run_ok_def)
  qed
  with that [OF ts(2)] pre own ts(1) show thesis by (metis set_mono_prefix subsetD)
qed

text \<open>
  What a deployment or a command has sent over a connection on which it has one run is a
  prefix of that run: as if there were nothing else on the connection.
\<close>

definition about :: "string + string \<Rightarrow> agent_msg list \<Rightarrow> agent_msg list" where
  "about o' ms = filter (\<lambda>m. origin m = o') ms"

lemma about_simps [simp]: "about o' [] = []" "about o' (m # ms) = (if origin m = o' then m # about o' ms else about o' ms)"
  by (simp_all add: about_def)

lemma about_append [simp]: "about o' (xs @ ys) = about o' xs @ about o' ys"
  by (simp add: about_def)

lemma about_prefix: "prefix xs ys \<Longrightarrow> prefix (about o' xs) (about o' ys)"
  by (auto simp: prefix_def)

lemma about_all: "\<forall>m\<in>set ms. origin m = o' \<Longrightarrow> about o' ms = ms"
  by (simp add: about_def)

definition only_run :: "process \<Rightarrow> nat \<Rightarrow> bool" where
  "only_run s j \<longleftrightarrow> j < length (prRuns s) \<and> (\<forall>j'<length (prRuns s).
     rnWriter (prRuns s ! j') = rnWriter (prRuns s ! j) \<longrightarrow> rnOrigin (prRuns s ! j') = rnOrigin (prRuns s ! j) \<longrightarrow> j' = j)"

lemma socket_run:
  assumes "process_reach s" "only_run s j" "r = prRuns s ! j"
  shows "prefix (about (rnOrigin r) (mwWritten (prWriters s ! rnWriter r))) (rnAll r)"
proof -
  have j: "j < length (prRuns s)" using assms(2) by (simp add: only_run_def)
  then have "rnWriter r < length (prWriters s)"
    using process_reach_inv [OF assms(1)] assms(3) nth_mem by (auto simp: process_inv_def run_ok_def)
  from socket_tags [OF assms(1) this] obtain tms where tms: "mwWritten (prWriters s ! rnWriter r) = map snd tms"
    "\<And>j m. (j, m) \<in> set tms \<Longrightarrow> j < length (prRuns s) \<and> rnWriter (prRuns s ! j) = rnWriter r \<and> origin m = rnOrigin (prRuns s ! j)"
    "\<And>j. j < length (prRuns s) \<Longrightarrow> prefix (of_run j tms) (rnAll (prRuns s ! j))" by metis
  have "origin m = rnOrigin r \<longleftrightarrow> j' = j" if "(j', m) \<in> set tms" for j' m
    using tms(2) [OF that] assms(2,3) by (auto simp: only_run_def)
  then have "filter (\<lambda>tm. origin (snd tm) = rnOrigin r) tms = filter (\<lambda>tm. fst tm = j) tms"
    by (intro filter_cong) auto
  then have "about (rnOrigin r) (map snd tms) = of_run j tms"
    by (simp add: about_def of_run_def filter_map comp_def)
  with tms(1) tms(3) [OF j] show ?thesis using assms(3) by simp
qed

section \<open>What a process can do\<close>

text \<open>
  On a connection that is not being closed a run gets its messages out: a message is handed
  over and the writer takes its turn, as often as the run has messages.
\<close>

definition deliverOne :: "nat \<Rightarrow> process \<Rightarrow> process" where
  "deliverOne j s = (let c = rnWriter (prRuns s ! j) in
     withWriter c (writerTurn (WriteOne True)) (handOver j (withWriter c (enqueue (hd (rnTodo (prRuns s ! j)))) s)))"

definition idle :: "message_writer \<Rightarrow> bool" where
  "idle w \<longleftrightarrow> \<not> mwDone w \<and> mwTaken w = length (mwQueue w)"

definition same_runs :: "process \<Rightarrow> process \<Rightarrow> bool" where
  "same_runs s s' \<longleftrightarrow> length (prWriters s') = length (prWriters s) \<and> length (prRuns s') = length (prRuns s) \<and>
     (\<forall>j<length (prRuns s). rnOrigin (prRuns s' ! j) = rnOrigin (prRuns s ! j) \<and>
        rnWriter (prRuns s' ! j) = rnWriter (prRuns s ! j) \<and> rnAll (prRuns s' ! j) = rnAll (prRuns s ! j))"

lemma same_runs_trans: "same_runs s s' \<Longrightarrow> same_runs s' s'' \<Longrightarrow> same_runs s s''"
  by (simp add: same_runs_def)

lemma deliverOne_effect:
  assumes "process_reach s" "j < length (prRuns s)" "c = rnWriter (prRuns s ! j)" "idle (prWriters s ! c)"
    "rnTodo (prRuns s ! j) = m # ms"
  shows "process_reach (deliverOne j s)" "same_runs s (deliverOne j s)" "rnTodo (prRuns (deliverOne j s) ! j) = ms"
    "mwWritten (prWriters (deliverOne j s) ! c) = mwWritten (prWriters s ! c) @ [m]" "idle (prWriters (deliverOne j s) ! c)"
proof -
  have c: "c < length (prWriters s)"
    using process_reach_inv [OF assms(1)] assms(2,3) nth_mem by (auto simp: process_inv_def run_ok_def)
  let ?s1 = "handOver j (withWriter c (enqueue m) s)"
  have d: "deliverOne j s = withWriter c (writerTurn (WriteOne True)) ?s1"
    by (simp add: deliverOne_def assms(3,5) Let_def)
  have "mwBuffered (prWriters s ! c) < writerCap" using assms(4) by (simp add: idle_def mwBuffered_def writerCap_def)
  from process_step.queued [OF assms(2,5,3) this] have "process_reach ?s1"
    using assms(1) by (blast intro: rtranclp.rtrancl_into_rtrancl)
  moreover have "process_step ?s1 (deliverOne j s)"
    unfolding d using c assms(4) by (intro process_step.turn) (auto simp: idle_def enqueue_def)
  ultimately show "process_reach (deliverOne j s)" by (rule rtranclp.rtrancl_into_rtrancl)
  show "same_runs s (deliverOne j s)" using assms(2) by (auto simp: d same_runs_def)
  show "rnTodo (prRuns (deliverOne j s) ! j) = ms" using assms(2,5) by (simp add: d)
  show "mwWritten (prWriters (deliverOne j s) ! c) = mwWritten (prWriters s ! c) @ [m]" "idle (prWriters (deliverOne j s) ! c)"
    using c assms(4) by (simp_all add: d idle_def enqueue_def)
qed

lemma run_delivered:
  assumes "process_reach s" "j < length (prRuns s)" "c = rnWriter (prRuns s ! j)" "idle (prWriters s ! c)"
    "n \<le> length (rnTodo (prRuns s ! j))"
  shows "\<exists>s'. process_reach s' \<and> same_runs s s' \<and> rnTodo (prRuns s' ! j) = drop n (rnTodo (prRuns s ! j)) \<and>
    mwWritten (prWriters s' ! c) = mwWritten (prWriters s ! c) @ take n (rnTodo (prRuns s ! j)) \<and> idle (prWriters s' ! c)"
  using assms(5)
proof (induction n)
  case 0
  then show ?case using assms by (intro exI [of _ s]) (simp add: same_runs_def)
next
  case (Suc n)
  then obtain s' where s': "process_reach s'" "same_runs s s'" "rnTodo (prRuns s' ! j) = drop n (rnTodo (prRuns s ! j))"
      "mwWritten (prWriters s' ! c) = mwWritten (prWriters s ! c) @ take n (rnTodo (prRuns s ! j))" "idle (prWriters s' ! c)"
    by auto
  have n: "drop n (rnTodo (prRuns s ! j)) = rnTodo (prRuns s ! j) ! n # drop (Suc n) (rnTodo (prRuns s ! j))"
    using Suc.prems by (simp add: Cons_nth_drop_Suc)
  have j: "j < length (prRuns s')" "c = rnWriter (prRuns s' ! j)" using s'(2) assms(2,3) by (auto simp: same_runs_def)
  note one = deliverOne_effect [OF s'(1) j s'(5) s'(3) [unfolded n]]
  show ?case
    using one same_runs_trans [OF s'(2) one(2)] Suc.prems
    by (intro exI [of _ "deliverOne j s'"]) (simp add: s'(4) take_Suc_conv_app_nth)
qed

text \<open>The process after its first connection.\<close>

definition online :: process where
  "online = atStart\<lparr>prWriters := [newMessageWriter]\<rparr>"

lemma online_reach: "process_reach online"
  using process_step.connect [of atStart] by (simp add: online_def atStart_def r_into_rtranclp)

lemma online_connected [simp]: "connected online" "prRuns online = []" "prWriters online = [newMessageWriter]"
  by (simp_all add: connected_def online_def atStart_def newMessageWriter_def)

lemma idle_new [simp]: "idle newMessageWriter"
  by (simp add: idle_def newMessageWriter_def)

lemma startRun_reach:
  "process_reach s \<Longrightarrow> connected s \<Longrightarrow> process_reach (startRun (Inl (wpDeploymentID pd)) (fst (runPlaybook osAt token pd)) s)"
  "process_reach s \<Longrightarrow> connected s \<Longrightarrow> process_reach (startRun (Inr (wcCmdID cd)) (runCommand co workDir cd) s)"
  using process_step.playbook process_step.command by (blast intro: rtranclp.rtrancl_into_rtrancl)+

text \<open>Any order of deliveries in which every run named still has a message.\<close>

fun deliverable :: "nat list \<Rightarrow> process \<Rightarrow> bool" where
  "deliverable [] s \<longleftrightarrow> True"
| "deliverable (j # js) s \<longleftrightarrow> j < length (prRuns s) \<and> idle (prWriters s ! rnWriter (prRuns s ! j)) \<and>
     rnTodo (prRuns s ! j) \<noteq> [] \<and> deliverable js (deliverOne j s)"

lemma deliver_reach: "process_reach s \<Longrightarrow> deliverable js s \<Longrightarrow> process_reach (fold deliverOne js s)"
proof (induction js arbitrary: s)
  case (Cons j js)
  then have "process_reach (deliverOne j s)"
    by (intro deliverOne_effect [OF Cons.prems(1) _ refl _ list.collapse [symmetric]]) auto
  with Cons show ?case by simp
qed simp

text \<open>
  Two runs of one deployment can be under way at once: the first goes on when its connection
  is gone, and the push over the next one starts the second.
\<close>

lemma overlapping_runs:
  assumes "fst (runPlaybook osAt token pd) \<noteq> []" "fst (runPlaybook osAt' token' pd') \<noteq> []" "wpDeploymentID pd' = wpDeploymentID pd"
  shows "\<exists>s. process_reach s \<and> length (prRuns s) = 2 \<and> rnOrigin (prRuns s ! 0) = rnOrigin (prRuns s ! 1) \<and>
    rnTodo (prRuns s ! 0) \<noteq> [] \<and> rnTodo (prRuns s ! 1) \<noteq> []"
proof -
  let ?s1 = "startRun (Inl (wpDeploymentID pd)) (fst (runPlaybook osAt token pd)) online"
  let ?s2 = "withWriter (length (prWriters ?s1) - 1) (\<lambda>w. w\<lparr>mwStop := True\<rparr>) ?s1"
  let ?s3 = "withWriter 0 (writerTurn StopSeen) ?s2"
  let ?s4 = "?s3\<lparr>prWriters := prWriters ?s3 @ [newMessageWriter]\<rparr>"
  let ?s5 = "startRun (Inl (wpDeploymentID pd')) (fst (runPlaybook osAt' token' pd')) ?s4"
  have "process_step online ?s1" by (rule process_step.playbook) simp
  moreover have "process_step ?s1 ?s2" by (rule process_step.closing) (simp add: connected_def startRun_def newMessageWriter_def)
  moreover have "process_step ?s2 ?s3"
    by (rule process_step.turn) (simp_all add: startRun_def withWriter_def newMessageWriter_def)
  moreover have "process_step ?s3 ?s4" by (rule process_step.connect) (simp add: startRun_def withWriter_def)
  moreover have "process_step ?s4 ?s5" by (rule process_step.playbook) (simp add: connected_def newMessageWriter_def)
  ultimately have "process_reach ?s5" using online_reach by (meson rtranclp.rtrancl_into_rtrancl)
  then show ?thesis
    using assms by (intro exI [of _ ?s5]) (simp add: startRun_def newRun_def withWriter_def online_def atStart_def)
qed

text \<open>
  A run that has ended with a reboot need not have told the server: its last message may still
  wait in the writer when the machine goes down, and the server then resumes at the reboot step
  itself.
\<close>

lemma reboot_may_be_unsent:
  assumes "runPlaybook osAt token pd = (ms, Rebooting)" "length ms \<le> writerCap"
  shows "\<exists>s. process_reach s \<and> only_run s 0 \<and> rnAll (prRuns s ! 0) = ms \<and> rnTodo (prRuns s ! 0) = [] \<and>
    mwWritten (prWriters s ! 0) = []"
proof -
  let ?s = "startRun (Inl (wpDeploymentID pd)) ms online"
  have "process_step online ?s" using process_step.playbook [of online pd osAt token] assms(1) by simp
  then have s: "process_reach ?s" using online_reach by (rule rtranclp.rtrancl_into_rtrancl [rotated])
  have "\<exists>s. process_reach s \<and> same_runs ?s s \<and> rnTodo (prRuns s ! 0) = drop n ms \<and> mwWritten (prWriters s ! 0) = [] \<and>
      mwTaken (prWriters s ! 0) = 0 \<and> length (mwQueue (prWriters s ! 0)) = n" if "n \<le> length ms" for n
    using that
  proof (induction n)
    case 0
    then show ?case using s
      by (intro exI [of _ ?s]) (simp add: same_runs_def startRun_def newRun_def newMessageWriter_def)
  next
    case (Suc n)
    then obtain s' where s': "process_reach s'" "same_runs ?s s'" "rnTodo (prRuns s' ! 0) = drop n ms"
        "mwWritten (prWriters s' ! 0) = []" "mwTaken (prWriters s' ! 0) = 0" "length (mwQueue (prWriters s' ! 0)) = n" by auto
    have run: "0 < length (prRuns s')" "rnWriter (prRuns s' ! 0) = 0" "0 < length (prWriters s')"
      using s'(2) by (auto simp: same_runs_def startRun_def newRun_def)
    have n: "drop n ms = ms ! n # drop (Suc n) ms" using Suc.prems by (simp add: Cons_nth_drop_Suc)
    let ?s' = "handOver 0 (withWriter 0 (enqueue (ms ! n)) s')"
    have "process_step s' ?s'"
      using run s'(3,5,6) assms(2) Suc.prems
      by (intro process_step.queued [where m = "ms ! n" and ms = "drop (Suc n) ms"]) (auto simp: n mwBuffered_def)
    then have "process_reach ?s'" using s'(1) by (rule rtranclp.rtrancl_into_rtrancl [rotated])
    moreover have "same_runs s' ?s'" using run by (auto simp: same_runs_def)
    ultimately show ?case
      using run s' same_runs_trans [OF s'(2)] by (intro exI [of _ ?s']) (simp add: n enqueue_def)
  qed
  from this [of "length ms"] obtain s' where "process_reach s'" "same_runs ?s s'" "rnTodo (prRuns s' ! 0) = []"
    "mwWritten (prWriters s' ! 0) = []" by auto
  then show ?thesis
    by (intro exI [of _ s']) (simp add: same_runs_def only_run_def startRun_def newRun_def)
qed

section \<open>Properties\<close>

text \<open>
  C28. The agent's connection under load: whatever runs of playbooks and commands are under way
  in the process, on this connection or left over from earlier ones, and however the goroutines
  take their turns, what is on the socket of a connection is an interleaving of runs that were
  started over this very connection, each message that of its run, and every run is there with
  a prefix of its messages in order: nothing overtakes, is repeated or strays to another
  connection.
\<close>

theorem socket_interleaves_runs:
  assumes "process_reach s" "c < length (prWriters s)"
  shows "\<exists>tms. mwWritten (prWriters s ! c) = map snd tms \<and>
    (\<forall>(j, m)\<in>set tms. j < length (prRuns s) \<and> rnWriter (prRuns s ! j) = c \<and> origin m = rnOrigin (prRuns s ! j)) \<and>
    (\<forall>j<length (prRuns s). prefix (of_run j tms) (rnAll (prRuns s ! j)))"
proof -
  from socket_tags [OF assms] obtain tms where "mwWritten (prWriters s ! c) = map snd tms"
    "\<And>j m. (j, m) \<in> set tms \<Longrightarrow> j < length (prRuns s) \<and> rnWriter (prRuns s ! j) = c \<and> origin m = rnOrigin (prRuns s ! j)"
    "\<And>j. j < length (prRuns s) \<Longrightarrow> prefix (of_run j tms) (rnAll (prRuns s ! j))" by metis
  then show ?thesis by (intro exI [of _ tms]) auto
qed

text \<open>A playbook and a command over one connection.\<close>

definition echoCommand :: ws_command_data where
  "echoCommand = \<lparr>wcCmdID = ''c'', wcCommand = ''echo hi'', wcShell = []\<rparr>"

definition echoOs :: cmd_os where
  "echoOs = \<lparr>coDefaultShell = ''bash'', coCreateTemp = Inl ''none'', coExec = (\<lambda>argv dir f. CmdRan [''h'', ''i'' @ [newline]] ExitOk)\<rparr>"

lemma echo_run: "runCommand echoOs [] echoCommand =
  [MsgCommandStream \<lparr>wkCmdID = ''c'', wkOutput = ''hi''\<rparr>,
   MsgCommandCompleted \<lparr>wtCmdID = ''c'', wtExitCode = 0, wtError = []\<rparr>]"
  by code_simp

definition busy :: "ws_playbook_data \<Rightarrow> process" where
  "busy pd = startRun (Inr (wcCmdID echoCommand)) (runCommand echoOs [] echoCommand)
     (startRun (Inl (wpDeploymentID pd)) (fst (runPlaybook sampleOs [] pd)) online)"

lemma busy_reach: "process_reach (busy pd)"
  unfolding busy_def using startRun_reach(1) [OF online_reach]
  by (intro startRun_reach(2)) (simp_all add: connected_def startRun_def newMessageWriter_def)

definition busyDelivered :: process where
  "busyDelivered = fold deliverOne [0, 1, 0, 0, 1] (busy (samplePd 0))"

lemma busyDelivered_reach: "process_reach busyDelivered"
  unfolding busyDelivered_def by (rule deliver_reach [OF busy_reach]) code_simp

theorem socket_interleaves_runs_witness:
  "\<exists>tms. mwWritten (prWriters busyDelivered ! 0) = map snd tms \<and> length tms = 5 \<and>
     prefix (of_run 0 tms) (fst (runPlaybook sampleOs [] (samplePd 0))) \<and> prefix (of_run 1 tms) (runCommand echoOs [] echoCommand)"
proof -
  have n: "length (prWriters busyDelivered) = 1" "length (prRuns busyDelivered) = 2" "length (mwWritten (prWriters busyDelivered ! 0)) = 5"
    by code_simp+
  have all: "rnAll (prRuns busyDelivered ! 0) = fst (runPlaybook sampleOs [] (samplePd 0))"
    "rnAll (prRuns busyDelivered ! 1) = runCommand echoOs [] echoCommand"
    by code_simp+
  have "0 < length (prWriters busyDelivered)" by (simp add: n)
  from socket_interleaves_runs [OF busyDelivered_reach this] obtain tms where
    tms: "mwWritten (prWriters busyDelivered ! 0) = map snd tms"
      "\<forall>j<length (prRuns busyDelivered). prefix (of_run j tms) (rnAll (prRuns busyDelivered ! j))" by blast
  then show ?thesis
    using n(3) spec [OF tms(2), of 0] spec [OF tms(2), of 1] by (intro exI [of _ tms]) (simp add: n(2) all [simplified])
qed

end
