(* ===== verification/Sessions.thy ===== *)
theory Sessions
  imports Agent_Process
begin

text \<open>
  Server and agent together. A session is one connection: the server pushes the assigned
  playbook, the agent runs what was pushed, and some messages arrive before the connection
  breaks, the machine reboots or the run ends. Those about the deployment are a prefix of its
  run, which is what the process of the agent makes sure of (\<open>socket_run\<close>); between them come
  the messages of commands and of other deployments that run at the same time. The relation
  \<open>sessions\<close> strings sessions of one agent and one deployment together, with the other work of
  the server in between (\<open>meanwhile\<close>), and collects the steps that were reported as done. The
  other exchange is a command's, from the agent's process to the server's session store, again
  among whatever else the connection carries.
\<close>

section \<open>Pushes keep the resume index\<close>

lemma choose_cases:
  assumes "chooseDeployment drv clk rnd a pb dep k f db = (c, db1)"
  shows "(\<exists>d. dep = Some d \<and> db1 = snd (SaveDeployment drv (d\<lparr>dStatus := DeploymentStatusRunning, dUpdatedAt := clk 0\<rparr>) db)) \<or>
    (\<exists>d. dID d = NewID (clk 0) rnd \<and> db1 = snd (SaveDeployment drv d db)) \<or>
    (\<exists>t i j n l m. db1 = AppendDeploymentLog drv t i j n l m db)"
proof (cases dep)
  case None
  with assms show ?thesis
    by (auto simp: chooseDeployment_def Let_def split: prod.splits option.splits)
       (metis deployment_row.select_convs(1) snd_conv)+
next
  case (Some d)
  with assms show ?thesis
    by (auto simp: chooseDeployment_def Let_def split: prod.splits option.splits if_splits)
       (metis deployment_row.select_convs(1) snd_conv)+
qed

lemma chooseDeployment_resume:
  assumes "chooseDeployment okDrv clk rnd a pb (GetActiveDeploymentForAgent okDrv db k) k f db = (c, db1)"
    "NewID (clk 0) rnd \<noteq> i" "distinct (map dID (tDeployments db))"
  shows "map_option pResume (progressIn db1 i) = map_option pResume (progressIn db i)"
proof -
  have save: "map_option pResume (progressIn (snd (SaveDeployment okDrv d db)) i) = map_option pResume (progressIn db i)"
    if "i = dID d \<longrightarrow> map_option pResume (progressIn db i) = Some (dResumeStepIndex d)" for d
    using that by (auto simp: SaveDeployment_def progressIn_def deployments.row_upsert progressOf_row split: option.splits)
      (auto simp: progressOf_def)
  have active: "map_option pResume (progressIn db (dID d)) = Some (dResumeStepIndex d)"
    if "GetActiveDeploymentForAgent okDrv db k = Some d" for d
  proof -
    from that obtain r where r: "latest (filter (\<lambda>r. dAgentID r = k) (tDeployments db)) = Some r"
        "d = enrichDeployment okDrv db (scanDeployment r)"
      by (auto simp: GetActiveDeploymentForAgent_def)
    then have "r \<in> set (tDeployments db)" using latest_max by fastforce
    then have "row dID (dID r) (tDeployments db) = Some r" using assms(3) by (simp add: row_iff)
    with r show ?thesis by (simp add: progressIn_def progressOf_def)
  qed
  from choose_cases [OF assms(1)] show ?thesis
  proof (elim disjE exE conjE)
    fix d
    assume "GetActiveDeploymentForAgent okDrv db k = Some d"
      "db1 = snd (SaveDeployment okDrv (d\<lparr>dStatus := DeploymentStatusRunning, dUpdatedAt := clk 0\<rparr>) db)"
    with save [of "d\<lparr>dStatus := DeploymentStatusRunning, dUpdatedAt := clk 0\<rparr>"] active show ?thesis by simp
  next
    fix d
    assume "dID d = NewID (clk 0) rnd" "db1 = snd (SaveDeployment okDrv d db)"
    with save [of d] assms(2) show ?thesis by simp
  qed simp
qed

lemma progressIn_SaveAgent [simp]: "progressIn (snd (SaveAgent drv a db)) i = progressIn db i"
  by (simp add: progressIn_def)

lemma push_resume:
  assumes "NewID (clk 0) rnd \<noteq> i" "distinct (map dID (tDeployments (wDB w)))"
  shows "map_option pResume (progressIn (wDB (PushPlaybookIfAssigned okDrv clk rnd url k f w)) i) =
    map_option pResume (progressIn (wDB w) i)"
proof (cases "GetAgent okDrv (wDB w) k")
  case (Some a)
  show ?thesis
  proof (cases "aPlaybookID a = [] \<or> GetPlaybook okDrv (wDB w) (aPlaybookID a) = None")
    case False
    then obtain pb where pb: "GetPlaybook okDrv (wDB w) (aPlaybookID a) = Some pb" and a: "aPlaybookID a \<noteq> []" by auto
    obtain c db1 where ch: "chooseDeployment okDrv clk rnd a pb (GetActiveDeploymentForAgent okDrv (wDB w) k) k f (wDB w) = (c, db1)"
      by fastforce
    note res = chooseDeployment_resume [OF ch assms]
    have "progressIn (snd (SaveAgent okDrv x db1)) i = progressIn db1 i" for x by simp
    then show ?thesis
      using a res by (auto simp: PushPlaybookIfAssigned_def Some pb ch Let_def case_prod_beta SaveAgent_def
          progressIn_def split: option.splits)
  qed (auto simp: PushPlaybookIfAssigned_def Some)
qed (simp add: PushPlaybookIfAssigned_def)

lemma Send_inj:
  assumes "snd (Send a m h) = snd (Send a m' h)" "snd (Send a m h) \<noteq> h" "hub_inv h"
  shows "m = m'"
proof -
  obtain p where p: "hConns h a = Some p" using assms(2) by (cases "hConns h a") (auto simp: Send_def)
  have len: "p < length (hHeap h)" using hub_invD [OF assms(3) p] by blast
  have "buffered (hHeap h ! p) < outboxCap" using assms(2) p by (auto simp: Send_def Let_def split: if_splits)
  with assms(1) p have "(hHeap h)[p := (hHeap h ! p)\<lparr>acQueue := acQueue (hHeap h ! p) @ [m]\<rparr>] =
      (hHeap h)[p := (hHeap h ! p)\<lparr>acQueue := acQueue (hHeap h ! p) @ [m']\<rparr>]"
    by (simp add: Send_def Let_def) (metis hub.select_convs(1) hub.surjective hub.update_convs(1))
  then have "acQueue (hHeap h ! p) @ [m] = acQueue (hHeap h ! p) @ [m']"
    using len by (metis agent_conn.select_convs(2) agent_conn.surjective agent_conn.update_convs(2) nth_list_update_eq)
  then show ?thesis by simp
qed

section \<open>Sequences of sessions\<close>

text \<open>
  What else the server does meanwhile: it hears of other deployments, loses and accepts
  connections, moves the queues of the hub, pushes playbooks to any agent, deletes another
  deployment, stores anything outside the table of deployments, and runs commands.
\<close>

inductive meanwhile :: "string \<Rightarrow> world \<Rightarrow> world \<Rightarrow> bool" for i where
  message: "carries env m \<Longrightarrow> subject m \<noteq> Some i \<Longrightarrow> meanwhile i w (handleWSMessage okDrv clk a (Some env) w)"
| close: "meanwhile i w (closeWS okDrv a w)"
| hub: "hub_step (wHub w) h \<Longrightarrow> meanwhile i w (w\<lparr>wHub := h\<rparr>)"
| push: "NewID (clk 0) rnd \<noteq> i \<Longrightarrow> meanwhile i w (PushPlaybookIfAssigned okDrv clk rnd url a f w)"
| delete: "j \<noteq> i \<Longrightarrow> meanwhile i w (withDB w (snd (DeleteDeployment okDrv j (wDB w))))"
| store: "tDeployments d = tDeployments (wDB w) \<Longrightarrow> db_inv d \<Longrightarrow> meanwhile i w (withDB w d)"
| command: "meanwhile i w (w\<lparr>wCmds := c\<rparr>)"

lemma meanwhile_keeps:
  assumes "meanwhile i w w'" "world_inv w"
  shows "world_inv w' \<and> map_option pResume (progressIn (wDB w') i) = map_option pResume (progressIn (wDB w) i)"
  using assms
proof (induction rule: meanwhile.induct)
  case (message env m w clk a)
  then show ?case by (simp add: handle_progress handleWSMessage_inv)
next
  case (close w a)
  then show ?case using closeWS_inv [OF close] by (simp add: closeWS_def Let_def progressIn_SaveAgent split: option.split)
next
  case (hub w h)
  then show ?case by (auto simp: world_inv_def hub_step_inv)
next
  case (push clk rnd w url a f)
  then show ?case
    using PushPlaybookIfAssigned_inv [OF push(2)] push_resume [of clk rnd i w url a f] by (simp add: world_inv_def db_inv_def)
next
  case (delete j w)
  moreover have "tDeployments (snd (DeleteDeployment okDrv j (wDB w))) = without dID j (tDeployments (wDB w))"
    by (simp add: DeleteDeployment_def transaction_def okDrv_def)
  ultimately show ?case
    using DeleteDeployment_inv [of "wDB w" okDrv j] by (simp add: world_inv_def progressIn_def store_simps)
next
  case (store d w)
  then show ?case by (auto simp: world_inv_def progressIn_def)
next
  case (command w c)
  then show ?case by (simp add: world_inv_def)
qed

text \<open>
  The message that was pushed is the one that the hub has queued. The identifier the server
  draws for a new deployment is not that of the one at hand. What arrives are the messages
  \<open>ms\<close>, of which those about the deployment are a prefix of its run.
\<close>

inductive sessions :: "string \<Rightarrow> string \<Rightarrow> playbook \<Rightarrow> world \<Rightarrow> int list \<Rightarrow> world \<Rightarrow> bool" for k i pb where
  none: "sessions k i pb w [] w"
| other: "sessions k i pb w rs w1 \<Longrightarrow> meanwhile i w1 w2 \<Longrightarrow> sessions k i pb w rs w2"
| more: "sessions k i pb w rs w1 \<Longrightarrow>
    w2 = PushPlaybookIfAssigned okDrv clk rnd url k False w1 \<Longrightarrow>
    wHub w2 = snd (Send k (MsgPlaybook t pd) (wHub w1)) \<Longrightarrow> wHub w2 \<noteq> wHub w1 \<Longrightarrow>
    wpDeploymentID pd = i \<Longrightarrow> wpPlaybook pd = Some pb \<Longrightarrow> NewID (clk 0) rnd \<noteq> i \<Longrightarrow>
    prefix (about (Inl i) ms) (fst (runPlaybook osAt token pd)) \<Longrightarrow>
    list_all2 (\<lambda>(clk, env) m. carries env m) xs ms \<Longrightarrow>
    sessions k i pb w (rs @ reports (about (Inl i) ms)) (receive okDrv k xs w2)"

text \<open>Only the messages about a deployment move it.\<close>

lemma subject_origin: "subject m = Some i \<Longrightarrow> origin m = Inl i"
  by (cases m) auto

lemma advances_about: "advances i (about (Inl i) ms) p = advances i ms p"
  by (induction ms arbitrary: p) (auto dest: subject_origin)

text \<open>What a push of the deployment at hand carries: the resume index the server has for it.\<close>

lemma pushed_resume:
  assumes "world_inv w1" "progressIn (wDB w1) i = Some p"
    "w2 = PushPlaybookIfAssigned okDrv clk rnd url k False w1"
    "wHub w2 = snd (Send k (MsgPlaybook t pd) (wHub w1))" "wHub w2 \<noteq> wHub w1"
    "wpDeploymentID pd = i" "NewID (clk 0) rnd \<noteq> i"
  obtains p2 where "world_inv w2" "progressIn (wDB w2) i = Some p2" "pResume p2 = pResume p"
    "wpResumeStepIndex pd = pResume p"
proof -
  have inv2: "world_inv w2" using PushPlaybookIfAssigned_inv [OF assms(1)] assms(3) by blast
  have "distinct (map dID (tDeployments (wDB w1)))" using assms(1) by (simp add: world_inv_def db_inv_def)
  with push_resume [of clk rnd i w1 url k False] assms(2,3,7)
  obtain p2 where p2: "progressIn (wDB w2) i = Some p2" "pResume p2 = pResume p" by auto
  obtain t' pd' r and a :: "gotime agent" where sent: "wHub w2 = snd (Send k (MsgPlaybook t' pd') (wHub w1))"
      "row dID (wpDeploymentID pd') (tDeployments (wDB w2)) = Some r"
      "row_of r k (aPlaybookID a) DeploymentStatusRunning (wpResumeStepIndex pd')"
    using push_stored [of okDrv clk rnd url k False w1] assms(5)
    unfolding Let_def assms(3) [symmetric] by blast
  have "MsgPlaybook t pd = MsgPlaybook t' pd'"
    using Send_inj [of k "MsgPlaybook t pd" "wHub w1" "MsgPlaybook t' pd'"] assms(1,4,5) sent by (simp add: world_inv_def)
  then have "wpResumeStepIndex pd = pResume p"
    using sent(2,3) p2 assms(6) by (auto simp: progressIn_def progressOf_def row_of_def)
  with inv2 p2 show thesis by (rule that)
qed

lemma sessions_exact:
  assumes "sessions k i pb w rs w'" "world_inv w" "progressIn (wDB w) i = Some p0" "pResume p0 = 0"
  shows "world_inv w' \<and> (\<exists>p. progressIn (wDB w') i = Some p \<and> 0 \<le> pResume p \<and>
    pResume p \<le> int (length (FlattenPlaybook pb)) \<and> rs = [0 .. pResume p - 1])"
  using assms
proof (induction rule: sessions.induct)
  case (none w)
  then show ?case by simp
next
  case (other w rs w1 w2)
  then obtain p where "world_inv w1" "progressIn (wDB w1) i = Some p" "0 \<le> pResume p"
      "pResume p \<le> int (length (FlattenPlaybook pb))" "rs = [0 .. pResume p - 1]" by blast
  with meanwhile_keeps [OF other.hyps(2)] show ?case by auto
next
  case (more w rs w1 w2 clk rnd url t pd ms osAt token xs)
  then obtain p where inv: "world_inv w1" and p: "progressIn (wDB w1) i = Some p" "0 \<le> pResume p"
      "pResume p \<le> int (length (FlattenPlaybook pb))" "rs = [0 .. pResume p - 1]" by blast
  obtain p2 where inv2: "world_inv w2" and p2: "progressIn (wDB w2) i = Some p2" "pResume p2 = pResume p"
      and resume: "wpResumeStepIndex pd = pResume p"
    using pushed_resume [OF inv p(1) more.hyps(2-5) more.hyps(7)] by metis
  obtain g' where g': "tracks i (pResume p) (fst (runPlaybook osAt token pd)) g'"
      "g' \<le> int (length (FlattenPlaybook pb))"
    using runPlaybook_tracks [OF \<open>wpPlaybook pd = Some pb\<close>, of osAt token] p resume more by auto
  let ?ms = "about (Inl i) ms"
  note track = tracks_prefix [OF g'(1) \<open>prefix ?ms (fst (runPlaybook osAt token pd))\<close> p2(2)]
  have "progressIn (wDB (receive okDrv k xs w2)) i = Some (advances i ?ms p2)"
    using receive_progress [OF \<open>list_all2 _ xs ms\<close>, of k w2 i] p2(1) by (simp add: advances_about)
  moreover have "rs @ reports ?ms = [0 .. pResume (advances i ?ms p2) - 1]"
    using upto_glue [OF p(2) track(1)] p(4) track(3) by simp
  ultimately show ?case using receive_inv [OF inv2] track g'(2) p(2) by auto
qed

text \<open>
  A run that ends as completed and arrives whole closes the deployment, with every step of the
  playbook reported once over all the sessions.
\<close>

lemma sessions_complete:
  assumes "sessions k i pb w rs w1" "world_inv w" "progressIn (wDB w) i = Some p0" "pResume p0 = 0"
    "w2 = PushPlaybookIfAssigned okDrv clk rnd url k False w1"
    "wHub w2 = snd (Send k (MsgPlaybook t pd) (wHub w1))" "wHub w2 \<noteq> wHub w1"
    "wpDeploymentID pd = i" "wpPlaybook pd = Some pb" "NewID (clk 0) rnd \<noteq> i"
    "runPlaybook osAt token pd = (run, Completed)" "about (Inl i) ms = run"
    "list_all2 (\<lambda>(clk, env) m. carries env m) xs ms"
  shows "\<exists>p. progressIn (wDB (receive okDrv k xs w2)) i = Some p \<and> pStatus p = DeploymentStatusCompleted \<and> pFinished p \<and>
    rs @ reports run = [0 .. int (length (FlattenPlaybook pb)) - 1]"
proof -
  obtain p where inv: "world_inv w1" and p: "progressIn (wDB w1) i = Some p" "0 \<le> pResume p"
      "pResume p \<le> int (length (FlattenPlaybook pb))"
    using sessions_exact [OF assms(1-4)] by blast
  obtain p2 where p2: "progressIn (wDB w2) i = Some p2" "pResume p2 = pResume p" and resume: "wpResumeStepIndex pd = pResume p"
    using pushed_resume [OF inv p(1) assms(5-8,10)] by metis
  have final: "progressIn (wDB (receive okDrv k xs w2)) i = Some (advances i run p2)"
    using receive_progress [OF assms(13), of k w2 i] p2(1) advances_about [of i ms p2] assms(12) by simp
  obtain g' where "tracks i (pResume p) run g'" "g' = int (length (FlattenPlaybook pb))"
    using runPlaybook_tracks [OF assms(9), of osAt token] p resume assms(8,11) by auto
  then have "pResume (advances i run p2) = int (length (FlattenPlaybook pb))" using p2(2) by (simp add: tracks_def)
  moreover have "prefix (about (Inl i) ms) (fst (runPlaybook osAt token pd))" by (simp add: assms(11,12))
  ultimately have "rs @ reports run = [0 .. int (length (FlattenPlaybook pb)) - 1]"
    using sessions_exact [OF sessions.more [OF assms(1,5-10) _ assms(13)] assms(2-4)] final assms(12) by auto
  moreover obtain ms' d where "run = ms' @ [MsgDeployDone d]" "wsDeploymentID d = i"
    using runSteps_last [of osAt token pd "FlattenPlaybook pb"] assms(8,9,11) by (auto simp: runPlaybook_def)
  ultimately show ?thesis using final by (auto simp: advances_append)
qed

text \<open>The envelope the agent puts a message in.\<close>

definition noPayload :: raw_data where
  "noPayload = \<lparr>asLog = None, asStep = None, asReboot = None, asChunk = None, asStatus = None\<rparr>"

fun envelopeOf :: "agent_msg \<Rightarrow> envelope" where
  "envelopeOf (MsgLog d) = \<lparr>evType = WSMsgLog, evData = noPayload\<lparr>asLog := Some d\<rparr>\<rparr>"
| "envelopeOf (MsgStepStart d) = \<lparr>evType = WSMsgStepStart, evData = noPayload\<lparr>asStep := Some d\<rparr>\<rparr>"
| "envelopeOf (MsgStepComplete d) = \<lparr>evType = WSMsgStepComplete, evData = noPayload\<lparr>asStep := Some d\<rparr>\<rparr>"
| "envelopeOf (MsgReboot d) = \<lparr>evType = WSMsgReboot, evData = noPayload\<lparr>asReboot := Some d\<rparr>\<rparr>"
| "envelopeOf (MsgDeployDone d) = \<lparr>evType = WSMsgDeployDone, evData = noPayload\<lparr>asStep := Some d\<rparr>\<rparr>"
| "envelopeOf (MsgDeployFailed d) = \<lparr>evType = WSMsgDeployFailed, evData = noPayload\<lparr>asStep := Some d\<rparr>\<rparr>"
| "envelopeOf (MsgCommandStream d) = \<lparr>evType = WSMsgCommandStream, evData = noPayload\<lparr>asChunk := Some d\<rparr>\<rparr>"
| "envelopeOf (MsgCommandCompleted d) = \<lparr>evType = WSMsgCommandCompleted, evData = noPayload\<lparr>asStatus := Some d\<rparr>\<rparr>"

lemma carries_envelopeOf [simp]: "carries (envelopeOf m) m"
  by (cases m) simp_all

lemma deliver: "list_all2 (\<lambda>(clk, env) m. carries env m) (map (\<lambda>m. (clk, envelopeOf m)) ms) ms"
  by (simp add: list_all2_map1 list.rel_refl)

section \<open>Commands\<close>

text \<open>What the session of a command becomes by a message about it.\<close>

fun hear :: "agent_msg \<Rightarrow> command_session \<Rightarrow> command_session" where
  "hear (MsgCommandStream d) c = c\<lparr>csOutput := csOutput c @ [wkOutput d]\<rparr>"
| "hear (MsgCommandCompleted d) c = c\<lparr>csDone := True, csExitCode := wtExitCode d, csErrMsg := wtError d\<rparr>"
| "hear _ c = c"

lemma handle_command:
  assumes "carries env m"
  shows "Get (wCmds (handleWSMessage drv clk k (Some env) w)) i =
    (if origin m = Inr i then map_option (hear m) (Get (wCmds w) i) else Get (wCmds w) i)"
  using assms
  by (cases m) (auto simp: handleWSMessage_def whenParsed_def Let_def Get_def AppendOutput_def SetDone_def split: option.splits)

lemma receive_command:
  "list_all2 (\<lambda>(clk, env) m. carries env m) xs ms \<Longrightarrow>
   Get (wCmds (receive drv k xs w)) i = map_option (fold hear (about (Inr i) ms)) (Get (wCmds w) i)"
proof (induction xs ms arbitrary: w rule: list_all2_induct)
  case Nil
  then show ?case by (simp add: option.map_ident)
next
  case (Cons x xs m ms)
  obtain clk env where "x = (clk, env)" by fastforce
  with Cons show ?case by (auto simp: handle_command option.map_comp comp_def)
qed

lemma hear_stream: "fold hear (streamLines cd lines) c = c\<lparr>csOutput := csOutput c @ map SanitizeLine lines\<rparr>"
  unfolding streamLines_def by (induction lines arbitrary: c) auto

lemma drainOpen_lines: "drainOpen [] chunks = butlast (Split (concat chunks) newline)"
  using drainOpen_concat [of "[]" chunks] by simp

text \<open>
  What the administrator sees of a command, given what becomes of it: the output, whether it is
  done, the exit code and the error.
\<close>

lemma run_heard:
  "Snapshot (fold hear (finishCommand cd out) c) = (case out of
      CmdTempFailed e \<Rightarrow> (csOutput c, True, 1, ''temp file: '' @ e)
    | CmdPipeFailed e \<Rightarrow> (csOutput c, True, 1, ''pipe: '' @ e)
    | CmdStartFailed e \<Rightarrow> (csOutput c, True, 1, ''start: '' @ e)
    | CmdRan chunks ex \<Rightarrow>
       (let ls = Split (concat chunks) newline;
            lines = csOutput c @ map SanitizeLine (butlast ls @ (if last ls = [] then [] else [last ls]))
        in case ex of ExitOk \<Rightarrow> (lines, True, 0, []) | ExitCode n \<Rightarrow> (lines, True, n, []) | WaitError e \<Rightarrow> (lines, True, 1, e)
           | StillRuns \<Rightarrow> (lines, csDone c, csExitCode c, csErrMsg c))
    | CmdOpen chunks \<Rightarrow> (csOutput c @ map SanitizeLine (butlast (Split (concat chunks) newline)), csDone c, csExitCode c, csErrMsg c))"
proof -
  have drain: "DrainPipeLines chunks = (let ls = Split (concat chunks) newline in butlast ls @ (if last ls = [] then [] else [last ls]))" for chunks
    unfolding DrainPipeLines_def using drain_concat [of "[]" chunks] by simp
  show ?thesis
    by (simp add: finishCommand_def sendDone_def Snapshot_def hear_stream drainOpen_lines drain Let_def
        split: cmd_outcome.split cmd_exit.split)
qed

end
