(* ===== verification/Reboot.thy ===== *)
theory Reboot
  imports Sessions Identity
begin

text \<open>
  The three systems the agent runs on: \<^verbatim>\<open>agent/platform_linux.go\<close>,
  \<^verbatim>\<open>platform_darwin.go\<close> and \<^verbatim>\<open>platform_windows.go\<close>, the shell of a command that names
  none and the calls that reboot the machine, with the end of \<^verbatim>\<open>runPlaybook\<close> that makes them.
  The system is the record \<open>reboot_os\<close>: where a program is found and the error of running
  one. A reboot gives its error and the command lines that were run. The lemmas show when a
  reboot is attempted, what the server knows by then, and that it learns nothing of a failure.
\<close>

definition defaultShell :: "goos \<Rightarrow> string" where
  "defaultShell os = (case os of Windows \<Rightarrow> ''cmd'' | _ \<Rightarrow> ''bash'')"

record reboot_os =
  roLookPath :: "string \<Rightarrow> string + string"
  roRun :: "string list \<Rightarrow> err"

definition rebootOS_linux :: "reboot_os \<Rightarrow> err \<times> string list list" where
  "rebootOS_linux ro =
     (let fallback = (\<lambda>ran. case roLookPath ro ''reboot'' of
            Inr path \<Rightarrow> (roRun ro [path], ran @ [[path]])
          | Inl e \<Rightarrow> (Some ''could not find systemctl or reboot in PATH'', ran))
      in case roLookPath ro ''systemctl'' of
           Inl e \<Rightarrow> fallback []
         | Inr path \<Rightarrow> if roRun ro [path, ''reboot''] = None then (None, [[path, ''reboot'']])
                      else fallback [[path, ''reboot'']])"

definition rebootOS_darwin :: "reboot_os \<Rightarrow> err \<times> string list list" where
  "rebootOS_darwin ro = (case roLookPath ro ''shutdown'' of
      Inr path \<Rightarrow> (roRun ro [path, ''-r'', ''now''], [[path, ''-r'', ''now'']])
    | Inl e \<Rightarrow> (Some ''could not find shutdown in PATH'', []))"

definition rebootOS_windows :: "reboot_os \<Rightarrow> err \<times> string list list" where
  "rebootOS_windows ro =
     (let argv = [''shutdown'', ''/r'', ''/t'', ''5'', ''/c'', ''kompakt deployment reboot''] in (roRun ro argv, [argv]))"

definition rebootOS :: "goos \<Rightarrow> reboot_os \<Rightarrow> err \<times> string list list" where
  "rebootOS os ro = (case os of Linux \<Rightarrow> rebootOS_linux ro | Darwin \<Rightarrow> rebootOS_darwin ro | Windows \<Rightarrow> rebootOS_windows ro)"

text \<open>A run with its last act: the messages, how it ended, and the reboot if there was one.\<close>

definition runAndReboot ::
  "goos \<Rightarrow> reboot_os \<Rightarrow> (int \<Rightarrow> os) \<Rightarrow> string \<Rightarrow> ws_playbook_data \<Rightarrow> agent_msg list \<times> run_end \<times> (err \<times> string list list) option" where
  "runAndReboot sys ro osAt token pd =
     (let (ms, e) = runPlaybook osAt token pd in (ms, e, if e = Rebooting then Some (rebootOS sys ro) else None))"

section \<open>Which commands run\<close>

text \<open>On Linux a reboot fails only when neither program is found and works.\<close>

lemma rebootOS_linux_works:
  "fst (rebootOS Linux ro) = None \<longleftrightarrow>
     (\<exists>p. roLookPath ro ''systemctl'' = Inr p \<and> roRun ro [p, ''reboot''] = None) \<or>
     (\<exists>p. roLookPath ro ''reboot'' = Inr p \<and> roRun ro [p] = None)"
  by (auto simp: rebootOS_def rebootOS_linux_def Let_def split: sum.splits)

text \<open>Without an error the last command line run is one that worked, on every system.\<close>

lemma rebootOS_ran: "fst (rebootOS os ro) = None \<Longrightarrow> snd (rebootOS os ro) \<noteq> [] \<and> roRun ro (last (snd (rebootOS os ro))) = None"
  by (auto simp: rebootOS_def rebootOS_linux_def rebootOS_darwin_def rebootOS_windows_def Let_def
      split: goos.splits sum.splits if_splits)

lemma rebootOS_at_most_two: "length (snd (rebootOS os ro)) \<le> 2"
  by (auto simp: rebootOS_def rebootOS_linux_def rebootOS_darwin_def rebootOS_windows_def Let_def
      split: goos.splits sum.splits)

text \<open>A command that names no shell runs in one its system has a command line for.\<close>

lemma defaultShell_argv:
  "commandArgv (defaultShell os) c = (case os of Windows \<Rightarrow> [''cmd.exe'', ''/C'', c] | _ \<Rightarrow> [''bash'', ''-c'', c])"
  by (cases os) (simp_all add: defaultShell_def commandArgv_def)

lemma defaultShell_candidate: "defaultShell os \<in> fst ` set (shellCandidates os)"
  by (cases os) (simp_all add: defaultShell_def shellCandidates_def)

section \<open>What the server knows of a reboot\<close>

text \<open>
  The machine is rebooted only after a message that says so was handed to the writer as the last
  of the run, and when that message arrives the server has the deployment as rebooting.
\<close>

lemma reboot_announced:
  assumes "runAndReboot sys ro osAt token pd = (ms, e, Some r)" "wpDeploymentID pd = i"
  shows "e = Rebooting \<and> (\<exists>ms' d. ms = ms' @ [MsgReboot d] \<and> wrDeploymentID d = i \<and>
    pStatus (advances i ms p) = DeploymentStatusRebooting \<and> pResume (advances i ms p) = wrResumeStepIndex d)"
proof -
  have e: "e = Rebooting" and run: "runPlaybook osAt token pd = (ms, Rebooting)"
    using assms(1) by (auto simp: runAndReboot_def Let_def split: prod.splits if_splits)
  then obtain pb where "wpPlaybook pd = Some pb" and steps: "runSteps osAt token pd (FlattenPlaybook pb) = (ms, Rebooting)"
    by (auto simp: runPlaybook_def split: option.splits)
  from runSteps_last [of osAt token pd "FlattenPlaybook pb"] steps obtain ms' d where
    "ms = ms' @ [MsgReboot d]" "wrDeploymentID d = i" using assms(2) by auto
  then show ?thesis using e by (auto simp: advances_append)
qed

text \<open>
  A reboot that fails leaves no trace on the server: the messages and their effect are those of
  a reboot that works, so the deployment stays rebooting while the agent stays connected, and
  the next connection resumes it behind a reboot that never was.
\<close>

lemma failed_reboot_unnoticed:
  assumes "list_all2 (\<lambda>(clk, env) m. carries env m) xs (fst (runAndReboot sys ro osAt token pd))"
    "progressIn (wDB w) (wpDeploymentID pd) = Some p" "runPlaybook osAt token pd = (ms, Rebooting)"
  shows "fst (runAndReboot sys ro osAt token pd) = fst (runAndReboot sys ro' osAt token pd) \<and>
    map_option pStatus (progressIn (wDB (receive okDrv k xs w)) (wpDeploymentID pd)) = Some DeploymentStatusRebooting"
proof -
  have r: "runAndReboot sys ro osAt token pd = (ms, Rebooting, Some (rebootOS sys ro))" for ro
    by (simp add: runAndReboot_def assms(3))
  from assms(1) have xs: "list_all2 (\<lambda>(clk, env) m. carries env m) xs ms" by (simp add: r)
  show ?thesis
    using receive_progress [OF xs, of k w "wpDeploymentID pd"] assms(2) reboot_announced [OF r refl] by (auto simp: r)
qed

definition noTools :: reboot_os where
  "noTools = \<lparr>roLookPath = (\<lambda>p. Inl ''not found''), roRun = (\<lambda>a. None)\<rparr>"

lemma failed_reboot_sample:
  "snd (runAndReboot Linux noTools sampleOs [] (samplePd 0)) =
     (Rebooting, Some (Some ''could not find systemctl or reboot in PATH'', []))"
  by code_simp

end
