(* ===== verification/Display.thy ===== *)
theory Display
  imports Ui
begin

text \<open>
  How the web interface shows times and sizes: \<^verbatim>\<open>formatTime\<close>, \<^verbatim>\<open>formatTimePtr\<close> and
  \<^verbatim>\<open>formatSize\<close> of \<^verbatim>\<open>handlers/ui_templates.go\<close>. The local time zone is a parameter, its
  offset from UTC in seconds at an instant. A size becomes a 64-bit float, is divided by a
  power of two, which is exact, and printed with one decimal, rounded to even from the exact
  value. The lemmas give the error of what is shown, its order, and that the text of a time
  determines the second.
\<close>

section \<open>Sizes\<close>

text \<open>The quotient of two integers, rounded to the nearest one and from the middle to the even one.\<close>

definition roundEven :: "int \<Rightarrow> int \<Rightarrow> int" where
  "roundEven a b = (let q = a div b; r = a mod b
     in if 2 * r < b then q else if 2 * r > b then q + 1 else if even q then q else q + 1)"

text \<open>The bits of a positive integer below its leading 53, and the nearest float.\<close>

fun excess :: "nat \<Rightarrow> nat" where
  "excess n = (if n < 2 ^ 53 then 0 else Suc (excess (n div 2)))"

declare excess.simps [simp del]

definition float64 :: "int \<Rightarrow> int" where
  "float64 n = (let u = 2 ^ excess (nat \<bar>n\<bar>) in sgn n * (roundEven \<bar>n\<bar> u * u))"

text \<open>\<^verbatim>\<open>strconv.FormatFloat(a / b, 'f', 1, 64)\<close>, for a quotient that is not negative.\<close>

definition oneDecimal :: "int \<Rightarrow> int \<Rightarrow> string" where
  "oneDecimal a b = (let t = roundEven (10 * a) b in Itoa (t div 10) @ ''.'' @ Itoa (t mod 10))"

definition formatSize :: "int \<Rightarrow> string" where
  "formatSize n =
     (if n \<ge> 1024 * 1024 then oneDecimal (float64 n) (1024 * 1024) @ '' MB''
      else if n \<ge> 1024 then oneDecimal (float64 n) 1024 @ '' KB''
      else Itoa n @ '' B'')"

lemma roundEven_error:
  assumes "0 < b"
  shows "2 * \<bar>a - b * roundEven a b\<bar> \<le> b"
proof -
  define q r where "q = a div b" and "r = a mod b"
  have a: "a = b * q + r" and r: "0 \<le> r" "r < b" using assms by (simp_all add: q_def r_def)
  have "roundEven a b = (if 2 * r < b then q else if 2 * r > b then q + 1 else if even q then q else q + 1)"
    by (simp add: roundEven_def Let_def q_def r_def)
  then show ?thesis using r by (auto simp: a distrib_left)
qed

lemma roundEven_mono:
  assumes "0 < b" "a \<le> a'"
  shows "roundEven a b \<le> roundEven a' b"
proof (cases "a div b = a' div b")
  case True
  then have "a mod b \<le> a' mod b"
    using assms(2) mult_div_mod_eq [of b a] mult_div_mod_eq [of b a'] by (metis add_le_cancel_left)
  with True show ?thesis by (auto simp: roundEven_def Let_def)
next
  case False
  then have "a div b + 1 \<le> a' div b" using zdiv_mono1 [OF assms(2,1)] by linarith
  then show ?thesis by (auto simp: roundEven_def Let_def)
qed

lemma roundEven_exact: "0 < b \<Longrightarrow> roundEven (b * q) b = q"
  by (simp add: roundEven_def)

lemma float64_small: "\<bar>n\<bar> < 2 ^ 53 \<Longrightarrow> float64 n = n"
  by (simp add: float64_def excess.simps roundEven_def sgn_mult_abs nat_less_iff)

text \<open>
  Up to 8 pebibytes the size shown is off by at most half a unit of its last digit; \<open>t\<close> is
  the number of tenths.
\<close>

lemma formatSize_error:
  assumes "1024 \<le> n" "n < 2 ^ 53"
  shows "\<exists>t u. formatSize n = Itoa (t div 10) @ ''.'' @ Itoa (t mod 10) @ (if u = 1024 then '' KB'' else '' MB'') \<and>
    u = (if n < 1048576 then 1024 else 1048576) \<and> 2 * \<bar>10 * n - u * t\<bar> \<le> u"
proof -
  have f: "float64 n = n" using assms by (intro float64_small) simp
  let ?u = "if n < 1048576 then 1024 else 1048576 :: int"
  have "2 * \<bar>10 * n - ?u * roundEven (10 * n) ?u\<bar> \<le> ?u" by (rule roundEven_error) simp
  then show ?thesis
    using assms(1) by (intro exI [of _ "roundEven (10 * n) ?u"] exI [of _ ?u]) (auto simp: formatSize_def f oneDecimal_def Let_def)
qed

lemma formatSize_samples:
  "formatSize 0 = ''0 B''" "formatSize 1023 = ''1023 B''" "formatSize 1536 = ''1.5 KB''"
  "formatSize 1126 = ''1.1 KB''" "formatSize 5242880 = ''5.0 MB''" "formatSize (-1) = ''-1 B''"
  unfolding formatSize_def by (simp_all add: float64_small, code_simp+)

text \<open>The unit is chosen before the rounding: the sizes just below a megabyte show 1024 kilobytes.\<close>

lemma formatSize_1024: "formatSize 1048575 = ''1024.0 KB''"
  unfolding formatSize_def by (simp add: float64_small, code_simp)

section \<open>Times\<close>

definition monthName :: "int \<Rightarrow> string" where
  "monthName m = [''Jan'', ''Feb'', ''Mar'', ''Apr'', ''May'', ''Jun'', ''Jul'', ''Aug'', ''Sep'', ''Oct'', ''Nov'', ''Dec''] ! nat (m - 1)"

text \<open>The layout \<^verbatim>\<open>Jan 2, 2006 15:04:05\<close> of a second on the local clock.\<close>

definition displayText :: "int \<Rightarrow> string" where
  "displayText s = (case civil (s div 86400 + epoch_days) of (y, m, d) \<Rightarrow>
     monthName m @ '' '' @ Itoa d @ '', '' @ append_int 4 y @ '' '' @ clock_text (s mod 86400))"

definition formatTime :: "(gotime \<Rightarrow> int) \<Rightarrow> gotime \<Rightarrow> string" where
  "formatTime zone t = (if t = zero_time then ''-'' else displayText (unix_sec t + zone t))"

definition formatTimePtr :: "(gotime \<Rightarrow> int) \<Rightarrow> gotime option \<Rightarrow> string" where
  "formatTimePtr zone t = (case t of None \<Rightarrow> ''-'' | Some t \<Rightarrow> displayText (unix_sec t + zone t))"

text \<open>Two instants with the same text and offset lie in the same second.\<close>

definition fourDigitYear :: "int \<Rightarrow> bool" where
  "fourDigitYear s \<longleftrightarrow> (case civil (s div 86400 + epoch_days) of (y, m, d) \<Rightarrow> 0 \<le> y \<and> y \<le> 9999)"

lemma length_two: "0 \<le> n \<Longrightarrow> n < 100 \<Longrightarrow> length (append_int 2 n) = 2"
  by (simp add: append_int_def)

lemma length_clock:
  assumes "0 \<le> s" "s < 86400"
  shows "length (clock_text s) = 8"
proof -
  have "length (append_int 2 (s div 3600)) = 2" using assms by (intro length_two) simp_all
  moreover have "length (append_int 2 (n mod 60)) = 2" for n
    using pos_mod_bound [of 60 n] by (intro length_two) simp_all
  ultimately show ?thesis by (simp only: clock_text_def length_append list.size)
qed

lemma monthName_inj: "1 \<le> m \<Longrightarrow> m \<le> 12 \<Longrightarrow> 1 \<le> m' \<Longrightarrow> m' \<le> 12 \<Longrightarrow> monthName m = monthName m' \<Longrightarrow> m = m'"
  unfolding monthName_def by (subst (asm) nth_eq_iff_index_eq) auto

lemma length_monthName:
  assumes "1 \<le> m" "m \<le> 12"
  shows "length (monthName m) = 3"
proof -
  have "m \<in> {1, 2, 3, 4, 5, 6, 7, 8, 9, 10, 11, 12}" using assms by simp arith
  then show ?thesis unfolding monthName_def by (elim insertE emptyE) simp_all
qed

lemma Itoa_day_inj:
  assumes "1 \<le> d" "d \<le> 31" "1 \<le> d'" "d' \<le> 31" "Itoa d = Itoa d'"
  shows "d = d'"
proof -
  have "distinct (map Itoa [1 .. 31])" by code_simp
  then have "inj_on Itoa {1 .. 31}" by (simp only: distinct_map set_upto)
  then show ?thesis using assms by (auto dest: inj_onD)
qed

lemma displayText_second:
  assumes "displayText s = displayText s'" "fourDigitYear s" "fourDigitYear s'"
  shows "second_text s = second_text s'"
proof -
  obtain y m d where c: "civil (s div 86400 + epoch_days) = (y, m, d)" by (cases "civil (s div 86400 + epoch_days)")
  obtain y' m' d' where c': "civil (s' div 86400 + epoch_days) = (y', m', d')" by (cases "civil (s' div 86400 + epoch_days)")
  let ?t = "'', '' @ append_int 4 y @ '' '' @ clock_text (s mod 86400)"
  let ?t' = "'', '' @ append_int 4 y' @ '' '' @ clock_text (s' mod 86400)"
  have y: "0 \<le> y" "y \<le> 9999" "0 \<le> y'" "y' \<le> 9999" using assms(2,3) by (simp_all add: fourDigitYear_def c c')
  have len: "length (append_int 4 y) = 4" "length (append_int 4 y') = 4" using y by (simp_all add: append_int_def)
  note m = civil_month [OF c] civil_month [OF c']
  have d: "1 \<le> d \<and> d \<le> 31" "1 \<le> d' \<and> d' \<le> 31"
    using civil_day [OF c] civil_day [OF c'] by (auto simp: days_in_def split: if_splits)
  have "monthName m @ '' '' @ Itoa d @ ?t = monthName m' @ '' '' @ Itoa d' @ ?t'"
    using assms(1) by (simp add: displayText_def c c')
  then have "monthName m = monthName m'" and rest: "Itoa d @ ?t = Itoa d' @ ?t'"
    using m by (simp_all add: append_eq_append_conv length_monthName)
  then have "m = m'" using m monthName_inj by blast
  have "length ?t = length ?t'" using len by (simp add: length_clock)
  with rest have "Itoa d = Itoa d'" and t: "?t = ?t'"
    by (metis append_eq_append_conv)+
  then have "d = d'" using d Itoa_day_inj by blast
  have "append_int 4 y = append_int 4 y'" "clock_text (s mod 86400) = clock_text (s' mod 86400)"
    using t len by (simp_all add: append_eq_append_conv)
  with \<open>m = m'\<close> \<open>d = d'\<close> show ?thesis by (simp add: second_text_def date_text_def c c')
qed

lemma displayText_inj:
  assumes "displayText s = displayText s'" "fourDigitYear s" "fourDigitYear s'"
  shows "s = s'"
proof -
  have ok: "time_ok (s * nanos_per_sec)" "unix_sec (s * nanos_per_sec) = s" if "fourDigitYear s" for s
    using that by (simp_all add: fourDigitYear_def time_ok_def unix_sec_def nanos_per_sec_def)
  show ?thesis
    using parse_second_text [OF ok(1) [OF assms(2)], of "[]"] parse_second_text [OF ok(1) [OF assms(3)], of "[]"]
      displayText_second [OF assms] ok(2) assms(2,3) by simp
qed

lemma formatTime_samples:
  "formatTime (\<lambda>_. 0) 0 = ''Jan 1, 1970 00:00:00''"
  "formatTime (\<lambda>_. 7200) (1753142399 * 1000000000) = ''Jul 22, 2025 01:59:59''"
  "formatTime (\<lambda>_. 0) zero_time = ''-''" "formatTimePtr (\<lambda>_. 0) (Some zero_time) = ''Jan 1, 0001 00:00:00''"
  by code_simp+

end
