(* ===== verification/Typing.thy ===== *)
theory Typing
  imports Server
begin

text \<open>
  The types behind the strings of the database. Go declares \<^verbatim>\<open>PlatformType\<close> and
  \<^verbatim>\<open>DeploymentStatus\<close> as strings with a list of constants, and neither Go nor SQLite checks
  them; \<open>typed\<close> says that the rows hold only these constants, that a stored playbook has a job
  and that a token has an expiry. Every step of the server keeps it.
\<close>

named_theorems typed_intros \<open>preservation of well-typed rows\<close>

section \<open>Well-typed rows\<close>

definition deploymentStatuses :: "string list" where
  "deploymentStatuses = [DeploymentStatusPending, DeploymentStatusRunning, DeploymentStatusRebooting,
     DeploymentStatusCompleted, DeploymentStatusFailed]"

definition platformTypes :: "string list" where
  "platformTypes = [PlatformLinux, PlatformMac, PlatformWindows]"

definition hasJobs :: "playbook option \<Rightarrow> bool" where
  "hasJobs pb \<longleftrightarrow> (case pb of None \<Rightarrow> False | Some pb \<Rightarrow> pbJobs pb \<noteq> [])"

definition typed :: "db \<Rightarrow> bool" where
  "typed db \<longleftrightarrow> (\<forall>a\<in>set (tAgents db). aPlatform a \<in> set platformTypes) \<and>
     (\<forall>d\<in>set (tDeployments db). dStatus d \<in> set deploymentStatuses) \<and>
     (\<forall>p\<in>set (tPlaybooks db). hasJobs (prPlaybook p)) \<and>
     (\<forall>t\<in>set (tTokens db). tkExpiresAt t \<noteq> None)"

lemma statuses [simp]:
  "DeploymentStatusPending \<in> set deploymentStatuses" "DeploymentStatusRunning \<in> set deploymentStatuses"
  "DeploymentStatusRebooting \<in> set deploymentStatuses" "DeploymentStatusCompleted \<in> set deploymentStatuses"
  "DeploymentStatusFailed \<in> set deploymentStatuses"
  by (simp_all add: deploymentStatuses_def)

lemma typed_emptyDB: "typed emptyDB"
  by (simp add: typed_def emptyDB_def)

lemma set_upsert: "x \<in> set (upsert key merge r xs) \<Longrightarrow> x \<in> set xs \<or> x = r \<or> (\<exists>y\<in>set xs. x = merge y r)"
  by (induction xs) (auto split: if_splits)

section \<open>Reading and writing rows\<close>

lemma GetAgent_typed: "GetAgent drv db k = Some a \<Longrightarrow> typed db \<Longrightarrow> aPlatform a \<in> set platformTypes"
  by (auto simp: GetAgent_def typed_def scanAgent_def dest!: queryRow_SomeD row_SomeD)

lemma ListAgents_typed: "a \<in> set (ListAgents drv db) \<Longrightarrow> typed db \<Longrightarrow> aPlatform a \<in> set platformTypes"
  by (auto simp: ListAgents_def query_def typed_def scanAgent_def split: option.splits)

lemma GetDeployment_typed: "GetDeployment drv db k = Some d \<Longrightarrow> typed db \<Longrightarrow> dStatus d \<in> set deploymentStatuses"
  by (auto simp: GetDeployment_def typed_def dest!: queryRow_SomeD row_SomeD)

lemma SaveAgent_typed [typed_intros]:
  "typed db \<Longrightarrow> aPlatform a \<in> set platformTypes \<Longrightarrow> typed (snd (SaveAgent drv a db))"
  unfolding SaveAgent_def by (rule exec_inv) (auto simp: typed_def agentRow_def mergeAgent_def dest!: set_upsert)

lemma SaveDeployment_typed [typed_intros]:
  "typed db \<Longrightarrow> dStatus d \<in> set deploymentStatuses \<Longrightarrow> typed (snd (SaveDeployment drv d db))"
  unfolding SaveDeployment_def
  by (rule exec_inv) (auto simp: typed_def deploymentRow_def mergeDeployment_def dest!: set_upsert)

lemma SavePlaybook_typed [typed_intros]:
  "typed db \<Longrightarrow> hasJobs (prPlaybook p) \<Longrightarrow> typed (snd (SavePlaybook drv p db))"
  unfolding SavePlaybook_def by (rule exec_inv) (auto simp: typed_def playbookRow_def mergePlaybook_def dest!: set_upsert)

lemma CreateAgentToken_typed [typed_intros]:
  "typed db \<Longrightarrow> tkExpiresAt t \<noteq> None \<Longrightarrow> typed (snd (CreateAgentToken drv t db))"
  unfolding CreateAgentToken_def
  by (auto simp: typed_def exec_def tokenRow_def encodeTimePtr_def split: option.splits)

text \<open>The other operations remove rows, or change what \<open>typed\<close> does not look at.\<close>

lemma deletes_typed [typed_intros]:
  "typed db \<Longrightarrow> typed (snd (DeleteAgent drv k db))" "typed db \<Longrightarrow> typed (snd (DeletePlaybook drv k db))"
  "typed db \<Longrightarrow> typed (snd (DeleteArtifact drv k db))" "typed db \<Longrightarrow> typed (snd (DeleteSecret drv k db))"
  unfolding DeleteAgent_def DeletePlaybook_def DeleteArtifact_def DeleteSecret_def
  by (rule exec_inv; simp add: typed_def set_without)+

lemma DeleteDeployment_typed [typed_intros]: "typed db \<Longrightarrow> typed (snd (DeleteDeployment drv k db))"
  unfolding DeleteDeployment_def
  by (rule transaction_inv) (auto simp: typed_def exec_def set_without split: option.splits)

lemma artifacts_secrets_typed [typed_intros]:
  "typed db \<Longrightarrow> typed (snd (SaveArtifact drv a db))" "typed db \<Longrightarrow> typed (snd (SetSecret drv k v db))"
  unfolding SaveArtifact_def SetSecret_def by (rule exec_inv; simp add: typed_def)+

lemma revoke_typed [typed_intros]:
  "typed db \<Longrightarrow> typed (snd (RevokeAgentToken drv now k db))" "typed db \<Longrightarrow> typed (snd (RevokeAllAgentTokens drv now k db))"
  unfolding RevokeAgentToken_def RevokeAllAgentTokens_def by (rule exec_inv; auto simp: typed_def)+

lemma AppendLogs_artifacts_only: "typed (snd (AppendLogs drv es db)) = typed db"
  by (simp add: typed_def AppendLogs_tables)

section \<open>The service and the tokens\<close>

lemma AppendDeploymentLog_typed [simp]: "typed (AppendDeploymentLog drv now d j i l m db) = typed db"
  by (simp add: typed_def)

lemma snd_saved [simp]: "snd (case p of (Some e, db') \<Rightarrow> (None, db') | (None, db') \<Rightarrow> (Some x, db')) = snd p"
  by (cases p; cases "fst p") auto

lemma chooseDeployment_typed [typed_intros]:
  "typed db \<Longrightarrow> typed (snd (chooseDeployment drv clk rnd a pb dep k f db))"
  by (simp add: chooseDeployment_def Let_def SaveDeployment_typed)

lemma PushPlaybookIfAssigned_typed [typed_intros]:
  assumes "typed (wDB w)"
  shows "typed (wDB (PushPlaybookIfAssigned drv clk rnd url k f w))"
proof (cases "GetAgent drv (wDB w) k")
  case (Some a)
  note a = GetAgent_typed [OF Some assms]
  show ?thesis
  proof (cases "aPlaybookID a = [] \<or> GetPlaybook drv (wDB w) (aPlaybookID a) = None")
    case False
    then obtain pb where pb: "GetPlaybook drv (wDB w) (aPlaybookID a) = Some pb" by auto
    obtain r db1 where ch: "chooseDeployment drv clk rnd a pb (GetActiveDeploymentForAgent drv (wDB w) k) k f (wDB w) = (r, db1)"
      by fastforce
    have db1: "typed db1" using chooseDeployment_typed [OF assms] ch by (metis snd_conv)
    obtain e db2 where sv: "SaveAgent drv (a\<lparr>aStatus := AgentStatusDeploying\<rparr>) db1 = (e, db2)" by fastforce
    have "typed db2" using SaveAgent_typed [OF db1, of "a\<lparr>aStatus := AgentStatusDeploying\<rparr>" drv] a sv by simp
    then show ?thesis
      using db1 False by (auto simp: PushPlaybookIfAssigned_def Some pb ch sv Let_def split: option.splits prod.splits)
  qed (auto simp: PushPlaybookIfAssigned_def Some assms)
qed (simp add: PushPlaybookIfAssigned_def assms)

lemma AssignPlaybookToAgent_typed [typed_intros]:
  assumes "typed (wDB w)"
  shows "typed (wDB (snd (AssignPlaybookToAgent drv clk rnd url p k w)))"
proof (cases "GetAgent drv (wDB w) k")
  case (Some a)
  obtain e db' where sv: "SaveAgent drv (a\<lparr>aPlaybookID := p\<rparr>) (wDB w) = (e, db')" by fastforce
  have db': "typed db'" using SaveAgent_typed [OF assms, of "a\<lparr>aPlaybookID := p\<rparr>" drv] GetAgent_typed [OF Some assms] sv by simp
  then have "typed (wDB (withDB w db'))" by simp
  note db' [simp] PushPlaybookIfAssigned_typed [OF this, simp]
  show ?thesis
    unfolding AssignPlaybookToAgent_def Some sv option.case prod.case
    by (cases "GetPlaybook drv (wDB w) p"; cases e) (simp_all add: assms)
qed (simp add: AssignPlaybookToAgent_def assms)

lemma issueAgentToken_typed [typed_intros]: "typed db \<Longrightarrow> typed (snd (issueAgentToken sha drv clk b rnd e k db))"
  using CreateAgentToken_typed [of db _ drv]
  by (simp add: issueAgentToken_def Let_def case_prod_beta split: option.split)

lemma HandleTokenRefresh_typed [typed_intros]:
  assumes "typed db"
  shows "typed (snd (HandleTokenRefresh sha drv clk b rnd e r db))"
proof -
  obtain x db1 where i: "issueAgentToken sha drv clk b rnd e (rXAgentID r) db = (x, db1)" by fastforce
  have "typed db1" using issueAgentToken_typed [OF assms] i by (metis snd_conv)
  then show ?thesis
    using assms by (auto simp: HandleTokenRefresh_def Let_def i revoke_typed split: sum.split option.split)
qed

lemma HandleAgentRegister_typed [typed_intros]:
  assumes "typed db"
  shows "typed (snd (HandleAgentRegister sha drv clk rndA rndT b e r body db))"
proof (cases body)
  case (Inr req)
  show ?thesis
  proof (cases "rMethod r = ''POST'' \<and> rqHostname req \<noteq> [] \<and> validPlatform (rqPlatform req) \<and>
      validRegistrationSecret e (rqRegistrationSecret req)")
    case True
    define found where "found = findMachine drv db req"
    define a where "a = fillAgent r req (clk 2) (case found of Some a \<Rightarrow> a | None \<Rightarrow> freshAgent (NewID (clk 0) rndA) (clk 1))"
    obtain er db1 where sv: "SaveAgent drv a db = (er, db1)" by fastforce
    have "aPlatform a \<in> set platformTypes"
      using True by (auto simp: a_def fillAgent_def validPlatform_def platformTypes_def)
    then have db1: "typed db1" using SaveAgent_typed [OF assms, of a drv] sv by simp
    define db2 where "db2 = (if found \<noteq> None then snd (RevokeAllAgentTokens drv (clk 3) (aID a) db1) else db1)"
    obtain x db3 where i: "issueAgentToken sha drv (\<lambda>i. clk (4 + i)) b rndT e (aID a) db2 = (x, db3)" by fastforce
    have "typed db2" using db1 by (simp add: db2_def revoke_typed)
    then have "typed db3" using issueAgentToken_typed i by (metis snd_conv)
    then show ?thesis
      using db1 True unfolding HandleAgentRegister_def Inr Let_def sum.case
      unfolding found_def [symmetric] unfolding a_def [symmetric] sv prod.case unfolding db2_def [symmetric] i
      by (auto split: option.split sum.split)
  next
    case False
    then show ?thesis by (auto simp: HandleAgentRegister_def Inr assms)
  qed
qed (simp add: HandleAgentRegister_def assms)

lemma touchAgent_typed [typed_intros]: "typed (wDB w) \<Longrightarrow> typed (wDB (touchAgent drv now k w))"
  by (auto simp: touchAgent_def intro!: SaveAgent_typed dest: GetAgent_typed split: option.split)

section \<open>The socket\<close>

lemma updateDeploy_typed [typed_intros]:
  assumes "typed db" "\<And>d. dStatus d \<in> set deploymentStatuses \<Longrightarrow> dStatus (f d) \<in> set deploymentStatuses"
  shows "typed (updateDeploy drv now k f db)"
  using assms GetDeployment_typed [OF _ assms(1)]
  by (auto simp: updateDeploy_def intro!: SaveDeployment_typed split: option.split)

lemma setAgentStatus_typed [typed_intros]: "typed db \<Longrightarrow> typed (setAgentStatus drv k s db)"
  by (auto simp: setAgentStatus_def intro!: SaveAgent_typed dest: GetAgent_typed split: option.split)

lemma messages_typed:
  assumes "typed db"
  shows "typed (onLog drv clk l db)" "typed (onStepStart drv clk d db)" "typed (onStepComplete drv clk d db)"
    "typed (onStepFailed drv clk d db)" "typed (onReboot drv clk x db)" "typed (onDeployDone drv clk k d db)"
    "typed (onDeployFailed drv clk k d db)"
  by (simp_all add: onLog_def onStepStart_def onStepComplete_def onStepFailed_def onReboot_def onDeployDone_def
      onDeployFailed_def Let_def AppendLogs_artifacts_only updateDeploy_typed setAgentStatus_typed assms)

lemma handleWSMessage_typed [typed_intros]:
  "typed (wDB w) \<Longrightarrow> typed (wDB (handleWSMessage drv clk k env w))"
  by (simp add: handleWSMessage_def whenParsed_def Let_def messages_typed split: option.split)

lemma openWS_typed:
  assumes "typed (wDB w)" "openWS sha drv clk rnd e r acc w = Opened k w'"
  shows "typed (wDB w')"
proof -
  obtain agent hub2 where a: "GetAgent drv (wDB w) k = Some agent"
    and w': "w' = PushPlaybookIfAssigned drv (\<lambda>i. clk (2 + i)) rnd (eServerURL e) k False
        (w\<lparr>wDB := snd (SaveAgent drv (agent\<lparr>aStatus := AgentStatusConnected, aIPAddress := requestIP r,
                              aLastActivityAt := clk 1\<rparr>) (wDB w)), wHub := hub2\<rparr>)"
    using assms(2) by (auto simp: openWS_def Let_def split: sum.splits option.splits if_splits prod.splits)
  show ?thesis
    unfolding w' using assms(1) GetAgent_typed [OF a assms(1)]
    by (auto intro!: PushPlaybookIfAssigned_typed SaveAgent_typed)
qed

lemma closeWS_typed [typed_intros]: "typed (wDB w) \<Longrightarrow> typed (wDB (closeWS drv k w))"
  by (auto simp: closeWS_def Let_def intro!: SaveAgent_typed dest: GetAgent_typed split: option.split)

section \<open>The handlers\<close>

lemma commit_typed [typed_intros]:
  "typed (wDB w) \<Longrightarrow> typed (snd (f (wDB w))) \<Longrightarrow> typed (wDB (snd (commit f failed ok w)))"
  by (auto simp: commit_def split: prod.splits option.splits)

lemma assignPlaybook_typed [typed_intros]:
  "typed (wDB w) \<Longrightarrow> typed (wDB (snd (assignPlaybook drv clk rnd e body p w)))"
  using AssignPlaybookToAgent_typed [of w drv clk rnd "eServerURL e" p]
  by (auto simp: assignPlaybook_def split: sum.split prod.split option.split) (metis snd_conv)+

lemma checkPayload_jobs: "checkPayload p = Inr rec \<Longrightarrow> hasJobs (prPlaybook rec)"
  by (auto simp: checkPayload_def hasJobs_def split: sum.splits option.splits if_splits)

lemma HandleRootPlaybooks_typed [typed_intros]:
  "typed (wDB w) \<Longrightarrow> typed (wDB (snd (HandleRootPlaybooks drv clk rnd y e r payload ab w)))"
  by (auto simp: HandleRootPlaybooks_def Let_def dest: checkPayload_jobs
      intro!: assignPlaybook_typed commit_typed SavePlaybook_typed deletes_typed split: option.split sum.split)

lemma HandleCommand_db [simp]: "wDB (snd (HandleCommand drv clk rnd r body k sub w)) = wDB w"
  by (simp add: HandleCommand_def Let_def case_prod_beta split: option.split sum.split)

lemma HandleRootAgents_typed [typed_intros]:
  "typed (wDB w) \<Longrightarrow> typed (wDB (snd (HandleRootAgents drv clk rnd r pbody cbody w)))"
  by (auto simp: HandleRootAgents_def Let_def dest: GetAgent_typed
      intro!: commit_typed SaveAgent_typed deletes_typed split: option.split sum.split prod.split)

lemma HandleRootDeployments_typed [typed_intros]:
  "typed (wDB w) \<Longrightarrow> typed (wDB (snd (HandleRootDeployments drv r w)))"
  by (auto simp: HandleRootDeployments_def Let_def intro!: commit_typed DeleteDeployment_typed split: option.split)

lemma HandleSecrets_typed [typed_intros]:
  "typed (wDB w) \<Longrightarrow> typed (wDB (snd (HandleSecrets drv r body w)))"
  by (auto simp: HandleSecrets_def Let_def intro!: commit_typed artifacts_secrets_typed deletes_typed split: option.split sum.split)

lemma uploadArtifact_typed:
  assumes "typed (wDB w)"
  shows "typed (wDB (snd (snd (uploadArtifact sha jwt drv f clk rnd e r q d w))))"
proof -
  have "typed (wDB (withDB w (snd (SaveArtifact drv a (wDB w)))))" for a
    using assms by (simp add: artifacts_secrets_typed)
  then have saved: "typed (wDB (snd (snd (case fst (SaveArtifact drv a (wDB w)) of
      None \<Rightarrow> (r2, d1, withDB w (snd (SaveArtifact drv a (wDB w))))
    | Some err \<Rightarrow> (r1, d1, withDB w (snd (SaveArtifact drv a (wDB w))))))))" for a r1 r2 d1
    by (auto split: option.split)
  show ?thesis
    by (simp only: uploadArtifact_def Let_def case_prod_beta if_distrib [of snd] snd_conv assms saved split: if_split) blast
qed

lemma HandleArtifacts_typed [typed_intros]:
  "typed (wDB w) \<Longrightarrow> typed (wDB (snd (snd (HandleArtifacts sha jwt drv f clk rnd e r q d w))))"
  by (auto simp: HandleArtifacts_def patchArtifact_def removeArtifact_def Let_def case_prod_beta
      intro!: uploadArtifact_typed commit_typed artifacts_secrets_typed deletes_typed split: option.split)

section \<open>The server\<close>

lemma rootHandler_typed: "typed (wDB w) \<Longrightarrow> typed (wDB (snd (rootHandler v e rt inp r w)))"
  by (cases rt) (simp_all add: rootHandler_def Let_def typed_intros)

text \<open>Both middlewares keep it: their contract for the invariant \<open>typed\<close>.\<close>

interpretation root_typed: middleware "RequireRootAuth jwt now e" "\<lambda>r w. isRootRequest jwt now e r"
  "\<lambda>r w. (writeError 401 ''invalid root credentials'')
     \<lparr>rspChallenge := rHXRequest r \<noteq> ''true'' \<and> \<not> HasPrefix (rAuthorization r) ''Bearer ''\<rparr>"
  "\<lambda>r w. r" "\<lambda>r w. w" "\<lambda>w. typed (wDB w)"
  for jwt now e
  by unfold_locales (simp_all add: RequireRootAuth_root RequireRootAuth_other)

interpretation agent_typed: middleware "RequireAgentAuth sha drv clk"
  "\<lambda>r w. \<not> isl (agentIDFromToken sha drv (clk 0) r (wDB w))"
  "\<lambda>r w. writeError 401 (projl (agentIDFromToken sha drv (clk 0) r (wDB w)))"
  "\<lambda>r w. r\<lparr>rXAgentID := projr (agentIDFromToken sha drv (clk 0) r (wDB w))\<rparr>"
  "\<lambda>r w. touchAgent drv (clk 1) (projr (agentIDFromToken sha drv (clk 0) r (wDB w))) w" "\<lambda>w. typed (wDB w)"
  for sha drv clk
  by unfold_locales (auto simp: RequireAgentAuth_def touchAgent_typed split: sum.splits)

lemma serveRoute_typed:
  assumes "typed (wDB (svWorld s))"
  shows "typed (wDB (svWorld (snd (serveRoute v e rt inp r s))))"
proof -
  let ?w = "svWorld s"
  have "typed (wDB (snd (serveRegister v e inp r ?w)))" using assms by (simp add: serveRegister_def HandleAgentRegister_typed)
  moreover have "typed (wDB (snd (serveRefresh v e r ?w)))"
    unfolding serveRefresh_def by (rule agent_typed.guard_inv) (simp_all add: assms HandleTokenRefresh_typed)
  moreover have "typed (wDB (snd (serveWS v e inp r ?w)))"
    using assms by (auto simp: serveWS_def intro: openWS_typed split: ws_open.split)
  moreover have "typed (wDB (snd (RequireRootAuth (vJwt v) (vClk v 0) e (rootHandler v e rt inp) r ?w)))"
    by (rule root_typed.guard_inv) (simp_all add: assms rootHandler_typed)
  ultimately show ?thesis
    using HandleArtifacts_typed [OF assms] by (cases rt) (simp_all add: serveRoute_def Let_def case_prod_beta assms)
qed

lemma server_step_typed: "server_step s s' \<Longrightarrow> typed (wDB (svWorld s)) \<Longrightarrow> typed (wDB (svWorld s'))"
  by (induction rule: server_step.induct)
    (simp_all add: serve_def serveRoute_typed handleWSMessage_typed closeWS_typed split: routed.split)

interpretation typed_server: transition_system "initialServer emptyDB d" server_step "\<lambda>s. typed (wDB (svWorld s))" for d
  by unfold_locales (simp add: initialServer_def typed_emptyDB, rule server_step_typed)

section \<open>Properties\<close>

text \<open>
  C12. What the server reads from its store is of its declared type, for the platform of an
  agent, the status of a deployment, the playbook and the expiry of a token: after any requests,
  agent messages, disconnects and failures of the database every agent has one of the three
  platforms, every deployment one of the five statuses, every playbook at least one job, and
  every token an expiry. The status of an agent is not among them.
\<close>

theorem stored_values_typed:
  assumes "server_reach d s"
  shows "(\<forall>a\<in>set (ListAgents drv (wDB (svWorld s))). aPlatform a \<in> {PlatformLinux, PlatformMac, PlatformWindows}) \<and>
    (\<forall>x\<in>set (ListDeployments drv (wDB (svWorld s))). dStatus x \<in> {DeploymentStatusPending, DeploymentStatusRunning,
       DeploymentStatusRebooting, DeploymentStatusCompleted, DeploymentStatusFailed}) \<and>
    (\<forall>p\<in>set (ListPlaybooks drv (wDB (svWorld s))). \<exists>pb. prPlaybook p = Some pb \<and> pbJobs pb \<noteq> []) \<and>
    (\<forall>h t. GetAgentTokenByHash drv (wDB (svWorld s)) h = Some t \<longrightarrow> tkExpiresAt t \<noteq> None)"
proof -
  have t: "typed (wDB (svWorld s))" using typed_server.inv_reach [OF assms [unfolded server_reach_def]] .
  have "dStatus x \<in> set deploymentStatuses" if "x \<in> set (ListDeployments drv (wDB (svWorld s)))" for x
    using t that by (auto simp: ListDeployments_def query_def typed_def split: option.splits)
  moreover have "\<exists>pb. prPlaybook p = Some pb \<and> pbJobs pb \<noteq> []" if "p \<in> set (ListPlaybooks drv (wDB (svWorld s)))" for p
    using t that by (auto simp: ListPlaybooks_def query_def typed_def hasJobs_def scanPlaybook_def split: option.splits)
  moreover have "tkExpiresAt k \<noteq> None" if "GetAgentTokenByHash drv (wDB (svWorld s)) h = Some k" for h k
    using t that by (auto simp: GetAgentTokenByHash_def typed_def scanToken_def decodeTimePtr_def
        dest!: queryRow_SomeD row_SomeD split: option.splits)
  ultimately show ?thesis using ListAgents_typed [OF _ t] by (auto simp: platformTypes_def deploymentStatuses_def)
qed

definition registeredServer :: server where
  "registeredServer = snd (serve sampleEnv sampleHandler (sampleInput []) (sampleRequest\<lparr>rPath := ''/api/v1/register''\<rparr>)
     (initialServer emptyDB Map.empty))"

lemma registeredServer_agents: "map aPlatform (ListAgents okDrv (wDB (svWorld registeredServer))) = [PlatformLinux]"
  by code_simp

theorem stored_values_typed_witness:
  "\<exists>a\<in>set (ListAgents okDrv (wDB (svWorld registeredServer))). aPlatform a \<in> {PlatformLinux, PlatformMac, PlatformWindows}"
proof -
  have "server_reach Map.empty registeredServer"
    unfolding server_reach_def registeredServer_def by (rule r_into_rtranclp) (rule server_step.request)
  note typed = stored_values_typed [OF this, of okDrv]
  obtain a where "a \<in> set (ListAgents okDrv (wDB (svWorld registeredServer)))"
    using registeredServer_agents by (metis list.set_intros(1) map_is_Nil_conv neq_Nil_conv)
  with typed show ?thesis by blast
qed

text \<open>
  An administrator's update of an agent stores whatever status it holds.
\<close>

lemma any_agent_status:
  assumes "GetAgent okDrv (wDB w) ''a'' = Some a" "agent_ok a" "rMethod r = ''PUT''" "rPath r = ''/api/v1/agents/a''"
  shows "\<exists>a'. GetAgent okDrv (wDB (snd (HandleRootAgents okDrv clk rnd r (Inr ([], ''asleep'')) cmd w))) ''a'' = Some a' \<and>
    aStatus a' = ''asleep''"
proof -
  have p: "pathID ''/api/v1/agents/a'' ''/api/v1/agents'' = ''a''" "pathSub ''/api/v1/agents/a'' ''/api/v1/agents'' = []"
    by code_simp+
  have ident: "aID a = ''a''" using assms(1) by (auto simp: GetAgent_def scanAgent_def dest!: row_SomeD)
  let ?a = "a\<lparr>aStatus := ''asleep''\<rparr>"
  have "agent_ok ?a" using assms(2) by (simp add: agent_ok_def)
  from agent_store.save_done [where drv = okDrv and e = ?a and db = "wDB w" and k = "''a''", OF _ this] ident
  have "\<exists>a'. GetAgent okDrv (snd (SaveAgent okDrv ?a (wDB w))) ''a'' = Some a' \<and> aStatus a' = ''asleep''"
    by (auto simp: SaveAgent_def keepAgent_def split: option.split)
  then show ?thesis
    using assms by (simp add: HandleRootAgents_def p HasPrefix_def commit_def case_prod_beta Let_def split: option.split)
qed

end
