(* ===== verification/Spec2Isabelle.thy ===== *)
theory Spec2Isabelle
  imports Boot Enrolment Reboot Display Typing
begin

text \<open>
  \<^bold>\<open>Kompakt\<close> deploys playbooks to machines. A server keeps agents, playbooks, deployments, logs,
  secrets and artifacts in SQLite, serves a REST API, a web interface and a WebSocket endpoint,
  and pushes a playbook to an agent when the agent connects or an administrator assigns one. An
  agent registers its machine, connects, runs the steps of the playbook it is pushed, reports
  every step, and resumes at the stored step after a lost connection or a reboot. Administrators
  also run single commands on a connected agent.

  \<^bold>\<open>The parts and the theories that model them\<close> (paths below \<^verbatim>\<open>src/internal\<close> unless they
  start with \<^verbatim>\<open>cmd\<close>). The order is that of the imports.

  \<^item> \<open>Prelude\<close>, \<open>Go_Strings\<close>, \<open>Go_Paths\<close>, \<open>Go_Time\<close>, \<open>Go_Url\<close>: what the sources use of Go: maps
    of strings as association lists, \<^verbatim>\<open>strings\<close>, \<^verbatim>\<open>strconv\<close>, \<^verbatim>\<open>path/filepath\<close>, times as
    integers in nanoseconds with the RFC 3339 text the store keeps and the round trip of the
    two, and the query of a URL with the round trip of escaping.
  \<^item> \<open>Ulid\<close>: \<^verbatim>\<open>common/id.go\<close>, the identifiers at their machine width; they sort by time and
    determine their random bytes.
  \<^item> \<open>Common_Types\<close>, \<open>Secret_Refs\<close>: \<^verbatim>\<open>common/types.go\<close>, one record per struct, the flat order
    of the steps of a playbook, and the rewriting loop of secret references, a
    \<open>partial_function\<close> whose value \<open>None\<close> is a loop that never ends. Resolution ends when no
    value holds a dollar sign, and a secret that refers to itself makes it run forever.
  \<^item> \<open>Tables\<close>, \<open>Store\<close>, \<open>Store_Inv\<close>: \<^verbatim>\<open>server/store\<close> and the interface in
    \<^verbatim>\<open>server/ports\<close>. A table is the list of its rows, every operation of the store is a
    definition over the driver, which may fail any statement. The locales \<open>table\<close> and
    \<open>entity_store\<close> are what clients rely on; they are interpreted on the tables and on the
    operations for agents, deployments, playbooks and artifacts. Whatever the driver does, keys
    stay distinct, every token has its agent, and an operation that returns an error has changed
    nothing.
  \<^item> \<open>Hub\<close>, \<open>Command_Store\<close>: \<^verbatim>\<open>server/handlers/handler.go\<close>. Connections live on a heap, so
    that the registry, a handler and a write pump can share one; the step relation interleaves
    registration, sending, pump turns and disconnects in any order. No stop channel is closed
    twice, and a pump writes what was queued, in order.
  \<^item> \<open>Service\<close>: \<^verbatim>\<open>server/service/manager.go\<close>, which deployment a push resumes, starts or skips.
  \<^item> \<open>Auth\<close>: \<^verbatim>\<open>handlers/auth.go\<close> and \<^verbatim>\<open>token.go\<close>, agent tokens, both middlewares, UI login,
    registration, rotation.
  \<^item> \<open>Ws_Handler\<close>: \<^verbatim>\<open>handlers/ws.go\<close>, opening, every inbound message, closing; the handler
    refines an abstract machine that keeps the progress of a deployment.
  \<^item> \<open>Executor\<close>, \<open>Agent\<close>: \<^verbatim>\<open>agent/executor\<close> and the run of playbooks and commands in
    \<^verbatim>\<open>agent/agent.go\<close>, with its message writer. \<open>Agent_Process\<close> puts the goroutines side by
    side: the writers of all connections and the runs of all playbooks and commands, in any
    interleaving. What a deployment or a command has put on a connection is a prefix of its run
    (\<open>socket_run\<close>), and a run on a connection that lives can get all its messages out
    (\<open>run_delivered\<close>).
  \<^item> \<open>Sessions\<close>: one agent and the server over many connections, each cut anywhere and shared
    with commands and other deployments.
  \<^item> \<open>Api\<close>, \<open>Artifacts\<close>, \<open>Ui\<close>: \<^verbatim>\<open>handlers/admin.go\<close>, \<^verbatim>\<open>command.go\<close>, \<^verbatim>\<open>secrets.go\<close>,
    \<^verbatim>\<open>artifacts.go\<close>, \<^verbatim>\<open>ui_templates.go\<close>, \<^verbatim>\<open>ui_assets.go\<close>, every branch of every handler;
    \<open>Display\<close> adds the times and sizes the pages show.
  \<^item> \<open>Server\<close>: \<^verbatim>\<open>server/server.go\<close>, the routes, what \<^verbatim>\<open>http.ServeMux\<close> makes of them, and the
    life of the server as a transition system with the invariant of all its parts. \<open>Typing\<close>
    shows over the same system that the strings in the store are constants of their Go types.
  \<^item> \<open>Config\<close>, \<open>Tls\<close>, \<open>Terminal\<close>, \<open>Boot\<close>: \<^verbatim>\<open>common/config.go\<close>; \<^verbatim>\<open>server/tls.go\<close> and
    \<^verbatim>\<open>agent/tls.go\<close>; what is printed, \<^verbatim>\<open>terminal\<close>, \<^verbatim>\<open>common/console.go\<close> and the logging
    wrapper of \<^verbatim>\<open>server/server.go\<close>; and \<^verbatim>\<open>cmd/kompakt/main.go\<close> from the files it reads to
    its end on a signal.
  \<^item> \<open>Identity\<close>, \<open>Connection\<close>: \<^verbatim>\<open>agent/identity\<close> on its three systems, and the registration,
    the connection and the reconnect loop of \<^verbatim>\<open>agent/agent.go\<close> with \<^verbatim>\<open>cmd/kompakt-agent\<close>;
    two runs of one deployment can overlap (\<open>overlapping_runs\<close>). When the earlier one belongs to
    a lost connection its messages are dropped and the reports of \<open>Sessions\<close> do not show it; two
    runs on one connection, after an assignment repeated while the first run goes on, are outside
    of \<open>sessions\<close>, which has one run of the deployment per connection.
  \<^item> \<open>Reboot\<close>: \<^verbatim>\<open>agent/platform_*.go\<close>, the end of a run that reboots the machine.
  \<^item> \<open>Enrolment\<close>: the agent's registration request, the agent the server files it under, and
    the socket the agent opens with the token it got.
  \<^item> this theory: a playbook over its sessions, first with what arrives given as messages and
    then with the process of the agent behind it, and a command from the administrator to the
    process and back.

  \<^bold>\<open>Conventions.\<close> A handler is one function from the request and the state to the response
  and the next state, with every early return a branch. Errors are values: \<open>err\<close>, sums and
  options. The clock is a function from the number of the reading to a time, random bytes are
  arguments, and so are the parts that are not in the repository: the SQLite driver, SHA-256,
  JWT, JSON and YAML decoding, the operating system, the file system, HTTP between agent and
  server, the template engine. Nothing is assumed of them except where a property says so. A
  handler is one atomic step: the store serialises its statements, the hub and the command store
  take their mutexes, and interleavings are those of whole handlers, messages, disconnects and
  pump turns. Machine integers wrap where the sources multiply or add without a check (token
  lifetimes, page offsets, reconnect intervals, identifiers); indices of steps are unbounded.

  \<^bold>\<open>Idealised.\<close> A statement of the driver succeeds or fails as a whole: a query that fails
  returns no rows, where the loops over \<^verbatim>\<open>rows.Next\<close> would keep those read before the error, and a
  failed commit has rolled back. \<open>decodeTime\<close> reads the layout the store writes and no other.
  \<open>muxHandler\<close> matches the decoded path, \<^verbatim>\<open>http.ServeMux\<close> the escaped one segment by segment, so paths
  with escaped slashes or dots may be routed differently. \<open>totalPages\<close> rounds up exactly; the
  \<^verbatim>\<open>float64\<close> of the source differs only for lists that no memory holds. A download is the
  whole file, without ranges and preconditions.

  \<^bold>\<open>What may not end.\<close> A process may run forever, and so may one that it leaves behind with
  the output pipe open: a step is then \<open>Hung\<close>, a command is never done. The deadline of a step
  kills its process as \<^verbatim>\<open>exec.CommandContext\<close> does. Calls of the file system and of HTTP, which
  has a timeout of its own, return.

  \<^bold>\<open>Loops.\<close> No theory uses fuel. Loops over data are structural; the loops with no bound
  of their own are the secret references (\<open>partial_function (option)\<close>, with a proof that it
  returns) and the agent's \<^verbatim>\<open>Run\<close>, which takes the turns its environment grants it.

  \<^bold>\<open>Not modelled.\<close> The parts outside the repository named above are parameters: in
  \<^verbatim>\<open>wsEndpoint\<close> the parser and printer of \<^verbatim>\<open>net/url\<close> around its query, in
  \<^verbatim>\<open>server/tls.go\<close> the cryptography, in \<^verbatim>\<open>agent/platform_*.go\<close> the programs run. Left out
  are the HTML templates and the browser's scripts, the text and colours of the log, the
  keepalive pings of the socket, closing the database, flag parsing, and the timeouts and
  range requests of \<^verbatim>\<open>net/http\<close>. Case mapping and quoting follow Go on ASCII and leave other
  bytes alone. Paths follow the Unix rules.
\<close>

section \<open>A playbook over its sessions\<close>

text \<open>
  C1. A deployment over any number of connections, each with one run of it: however often the
  connection breaks or the machine reboots, wherever the stream of messages is cut, whatever
  messages of commands and other deployments come between, and whatever the server does
  meanwhile with other deployments, other tables and its connections, the steps the agent has
  reported as done over all sessions are exactly the steps before the server's resume index,
  each once and in order, and the index never leaves the playbook.
\<close>

theorem steps_reported_once:
  assumes "sessions k i pb w rs w'" "world_inv w" "progressIn (wDB w) i = Some p0" "pResume p0 = 0"
  shows "\<exists>p. progressIn (wDB w') i = Some p \<and> rs = [0 .. pResume p - 1] \<and>
    0 \<le> pResume p \<and> pResume p \<le> int (length (FlattenPlaybook pb))"
  using sessions_exact [OF assms] by blast

text \<open>A sample connection: what is pushed, and the first \<open>n\<close> messages of the run that arrive.\<close>

definition samplePush :: "int \<Rightarrow> ws_playbook_data" where
  "samplePush r = \<lparr>wpDeploymentID = ''d'', wpPlaybook = Some samplePb, wpResumeStepIndex = r,
      wpSecrets = [(''KEY'', ''v'')], wpArtifactsBaseURL = ''http://s/artifacts''\<rparr>"

definition sampleRun :: "nat \<Rightarrow> int \<Rightarrow> agent_msg list" where
  "sampleRun n r = take n (fst (runPlaybook sampleOs [] (samplePush r)))"

definition sampleSession :: "nat \<Rightarrow> int \<Rightarrow> world \<Rightarrow> world" where
  "sampleSession n r w = receive okDrv ''a'' (map (\<lambda>m. (int, envelopeOf m)) (sampleRun n r))
     (PushPlaybookIfAssigned okDrv int (replicate 10 0) ''http://s'' ''a'' False w)"

definition sampleReady :: "world \<Rightarrow> int \<Rightarrow> bool" where
  "sampleReady w r \<longleftrightarrow> map_option aPlaybookID (GetAgent okDrv (wDB w) ''a'') = Some ''p'' \<and>
     map_option prPlaybook (GetPlaybook okDrv (wDB w) ''p'') = Some (Some samplePb) \<and>
     map_option (\<lambda>d. (dID d, dPlaybookID d, dResumeStepIndex d, unfinished d))
       (GetActiveDeploymentForAgent okDrv (wDB w) ''a'') = Some (''d'', ''p'', r, True) \<and>
     tSecrets (wDB w) = [(''KEY'', ''v'')] \<and>
     (case hConns (wHub w) ''a'' of None \<Rightarrow> False
      | Some p \<Rightarrow> p < length (hHeap (wHub w)) \<and> buffered (hHeap (wHub w) ! p) < outboxCap)"

definition samplePushed :: "world \<Rightarrow> world" where
  "samplePushed w = PushPlaybookIfAssigned okDrv int (replicate 10 0) ''http://s'' ''a'' False w"

lemma samplePushed_sent:
  assumes "sampleReady v r"
  shows "wHub (samplePushed v) = snd (Send ''a'' (MsgPlaybook 4 (samplePush r)) (wHub v))" "wHub (samplePushed v) \<noteq> wHub v"
proof -
  obtain a pb d where a: "GetAgent okDrv (wDB v) ''a'' = Some a" "aPlaybookID a \<noteq> []"
      and pb: "GetPlaybook okDrv (wDB v) (aPlaybookID a) = Some pb" "prPlaybook pb = Some samplePb"
      and d: "GetActiveDeploymentForAgent okDrv (wDB v) ''a'' = Some d" "dPlaybookID d = aPlaybookID a" "unfinished d"
        "dID d = ''d''" "dResumeStepIndex d = r"
    using assms by (auto simp: sampleReady_def)
  have "tSecrets (wDB v) = [(''KEY'', ''v'')]" using assms by (simp add: sampleReady_def)
  with resumed_push [OF a pb(1) d(1-3), of int "replicate 10 0" "''http://s''" False]
  show sent: "wHub (samplePushed v) = snd (Send ''a'' (MsgPlaybook 4 (samplePush r)) (wHub v))"
    by (simp add: Let_def pb d samplePush_def samplePushed_def)
  show "wHub (samplePushed v) \<noteq> wHub v"
    unfolding sent using assms
    by (auto simp: sampleReady_def Send_def Let_def hub.defs list_update_same_conv split: option.splits
        dest!: arg_cong [of _ _ hHeap] arg_cong [of _ _ acQueue])
qed

lemma sample_fresh_id: "NewID (int 0) (replicate 10 0) \<noteq> ''d''"
  using newULID_length [of "word_of_int (UnixMilli 0)" "replicate 10 0"] by (auto simp: NewID_def)

lemma sampleSession_more:
  assumes "sessions ''a'' ''d'' samplePb w rs v" "sampleReady v r"
  shows "sessions ''a'' ''d'' samplePb w (rs @ reports (sampleRun n r)) (sampleSession n r v)"
proof -
  have pre: "prefix (sampleRun n r) (fst (runPlaybook sampleOs [] (samplePush r)))"
    by (simp add: sampleRun_def take_is_prefix)
  then have all: "about (Inl ''d'') (sampleRun n r) = sampleRun n r"
    by (intro about_all) (auto dest!: set_mono_prefix runPlaybook_origin simp: samplePush_def)
  have "sessions ''a'' ''d'' samplePb w (rs @ reports (about (Inl ''d'') (sampleRun n r))) (sampleSession n r v)"
    unfolding sampleSession_def
  proof (rule sessions.more [OF assms(1) refl samplePushed_sent [OF assms(2), unfolded samplePushed_def]])
    show "prefix (about (Inl ''d'') (sampleRun n r)) (fst (runPlaybook sampleOs [] (samplePush r)))"
      unfolding all by (rule pre)
  qed (simp_all add: samplePush_def [of r] sample_fresh_id [simplified] deliver)
  then show ?thesis by (simp only: all)
qed

text \<open>
  The first connection ends with the reboot, the second one sees the end.
\<close>

definition rebooted :: world where
  "rebooted = sampleSession 9 0 (sampleWorld [sampleDeployment ''d'' 0])"

lemma sampleRun_reports: "reports (sampleRun 9 0) = [0, 1]" "reports (sampleRun 9 2) = [2]"
  by code_simp+

lemma sampleReady_first: "sampleReady (sampleWorld [sampleDeployment ''d'' 0]) 0"
proof -
  let ?d = "sampleDeployment ''d'' 0"
  have "dAgentID ?d = ''a''" by (simp add: sampleDeployment_def)
  note active = sampleWorld_active [of ?d, unfolded this]
  have hub: "case hConns onceConnected ''a'' of None \<Rightarrow> False
      | Some p \<Rightarrow> p < length (hHeap onceConnected) \<and> buffered (hHeap onceConnected ! p) < outboxCap" by code_simp
  then show ?thesis
    unfolding sampleReady_def sampleWorld_select
    by (simp add: active) (simp add: deploymentRow_def sampleDeployment_def unfinished_def)
qed

lemma sampleReady_second: "sampleReady rebooted 2"
  by code_simp

lemma sampleWorld_inv: "world_inv (sampleWorld [sampleDeployment ''d'' 0])"
proof -
  have "hub_inv onceConnected"
    by (auto simp: hub_inv_def onceConnected_def conn_inv_def buffered_def split: if_splits)
  then show ?thesis by (simp add: world_inv_def sampleWorld_def db_inv_def)
qed

lemma sampleWorld_progress: "\<exists>p. progressIn (wDB (sampleWorld [sampleDeployment ''d'' 0])) ''d'' = Some p \<and> pResume p = 0"
  by (simp add: progressIn_def row_Cons progressOf_def deploymentRow_def) (simp add: sampleDeployment_def)

theorem steps_reported_once_witness:
  "\<exists>w' p. sessions ''a'' ''d'' samplePb (sampleWorld [sampleDeployment ''d'' 0]) [0, 1, 2] w' \<and>
     progressIn (wDB w') ''d'' = Some p \<and> pResume p = int (length (FlattenPlaybook samplePb))"
proof -
  let ?w = "sampleWorld [sampleDeployment ''d'' 0]"
  let ?w' = "sampleSession 9 2 rebooted"
  note one = sampleSession_more [OF sessions.none sampleReady_first, where n = 9, folded rebooted_def]
  have s: "sessions ''a'' ''d'' samplePb ?w [0, 1, 2] ?w'"
    using sampleSession_more [OF one sampleReady_second, where n = 9] by (simp add: sampleRun_reports)
  obtain p0 where "progressIn (wDB ?w) ''d'' = Some p0" "pResume p0 = 0" using sampleWorld_progress by blast
  from steps_reported_once [OF s sampleWorld_inv this] obtain p where
    p: "progressIn (wDB ?w') ''d'' = Some p" "[0, 1, 2] = [0 .. pResume p - 1]" "0 \<le> pResume p" by blast
  have "pResume p = 3" using arg_cong [OF p(2), of length] p(3) by simp
  moreover have "length (FlattenPlaybook samplePb) = 3" by code_simp
  ultimately show ?thesis using s p(1) by auto
qed

text \<open>
  C2. The end of a deployment, over all its sessions: when a run that ends as completed has
  arrived whole, the deployment is stored as completed and finished, and every step of the
  playbook has been reported as done, each once and in order, whatever interruptions there
  were before.
\<close>

theorem completed_exactly_once:
  assumes "sessions k i pb w rs w1" "world_inv w" "progressIn (wDB w) i = Some p0" "pResume p0 = 0"
    "w2 = PushPlaybookIfAssigned okDrv clk rnd url k False w1"
    "wHub w2 = snd (Send k (MsgPlaybook t pd) (wHub w1))" "wHub w2 \<noteq> wHub w1"
    "wpDeploymentID pd = i" "wpPlaybook pd = Some pb" "NewID (clk 0) rnd \<noteq> i"
    "runPlaybook osAt token pd = (run, Completed)" "about (Inl i) ms = run"
    "list_all2 (\<lambda>(clk, env) m. carries env m) xs ms"
  shows "\<exists>p. progressIn (wDB (receive okDrv k xs w2)) i = Some p \<and> pStatus p = DeploymentStatusCompleted \<and> pFinished p \<and>
    rs @ reports run = [0 .. int (length (FlattenPlaybook pb)) - 1]"
  using assms by (rule sessions_complete)

theorem completed_exactly_once_witness:
  "\<exists>p. progressIn (wDB (receive okDrv ''a'' (map (\<lambda>m. (int, envelopeOf m)) (fst (runPlaybook sampleOs [] (samplePush 2))))
       (samplePushed rebooted))) ''d'' = Some p \<and> pStatus p = DeploymentStatusCompleted \<and> pFinished p"
proof -
  let ?w = "sampleWorld [sampleDeployment ''d'' 0]"
  obtain p0 where start: "progressIn (wDB ?w) ''d'' = Some p0" "pResume p0 = 0" using sampleWorld_progress by blast
  have "snd (runPlaybook sampleOs [] (samplePush 2)) = Completed" by code_simp
  then have run: "runPlaybook sampleOs [] (samplePush 2) = (fst (runPlaybook sampleOs [] (samplePush 2)), Completed)"
    by (metis prod.collapse)
  have all: "about (Inl ''d'') (fst (runPlaybook sampleOs [] (samplePush 2))) = fst (runPlaybook sampleOs [] (samplePush 2))"
    by (rule about_all) (auto dest: runPlaybook_origin simp: samplePush_def)
  note one = sampleSession_more [OF sessions.none sampleReady_first, where n = 9, folded rebooted_def]
  have pd: "wpDeploymentID (samplePush 2) = ''d''" "wpPlaybook (samplePush 2) = Some samplePb" by (simp_all add: samplePush_def)
  from completed_exactly_once [OF one sampleWorld_inv start samplePushed_def samplePushed_sent [OF sampleReady_second]
      pd sample_fresh_id run all deliver] show ?thesis
    by blast
qed

text \<open>
  C3. The deployment over its sessions, with the agent as the process it is, for a run that is
  the only one of its deployment on its connection: the run that a push started may share its connection, and the agent, with any number of commands and other runs,
  its messages wait in the writer and some are never written, and the server may have seen only
  a beginning of what the socket carried. Whatever of it has arrived, the steps reported as
  done over all sessions are those before the server's resume index, each once and in order.
  Nothing is claimed of two runs of one deployment on one connection, which an assignment that is
  repeated while the first run goes on can start (\<open>reassigned_runs_twice\<close>).
\<close>

theorem busy_agent_reports_once:
  assumes "sessions k i pb w rs w1" "world_inv w" "progressIn (wDB w) i = Some p0" "pResume p0 = 0"
    "w2 = PushPlaybookIfAssigned okDrv clk rnd url k False w1"
    "wHub w2 = snd (Send k (MsgPlaybook t pd) (wHub w1))" "wHub w2 \<noteq> wHub w1"
    "wpDeploymentID pd = i" "wpPlaybook pd = Some pb" "NewID (clk 0) rnd \<noteq> i"
    "process_reach s" "only_run s j" "prRuns s ! j = r" "rnOrigin r = Inl i" "rnAll r = fst (runPlaybook osAt token pd)"
    "prefix ms (mwWritten (prWriters s ! rnWriter r))" "list_all2 (\<lambda>(clk, env) m. carries env m) xs ms"
  shows "\<exists>p. progressIn (wDB (receive okDrv k xs w2)) i = Some p \<and> rs @ reports (about (Inl i) ms) = [0 .. pResume p - 1] \<and>
    0 \<le> pResume p \<and> pResume p \<le> int (length (FlattenPlaybook pb))"
proof -
  have "prefix (about (Inl i) (mwWritten (prWriters s ! rnWriter r))) (fst (runPlaybook osAt token pd))"
    using socket_run [OF assms(11,12) assms(13) [symmetric]] by (simp add: assms(14,15))
  then have "prefix (about (Inl i) ms) (fst (runPlaybook osAt token pd))"
    using about_prefix [OF assms(16)] prefix_order.trans by blast
  from sessions_exact [OF sessions.more [OF assms(1,5-10) this assms(17)] assms(2-4)] show ?thesis by blast
qed

text \<open>The first connection again, now with a command running beside the playbook.\<close>

definition busyAgent :: process where
  "busyAgent = fold deliverOne [0, 0, 1, 0, 0, 1, 0, 0] (busy (samplePush 0))"

theorem busy_agent_reports_once_witness:
  "\<exists>p. progressIn (wDB (receive okDrv ''a'' (map (\<lambda>m. (int, envelopeOf m)) (mwWritten (prWriters busyAgent ! 0)))
       (samplePushed (sampleWorld [sampleDeployment ''d'' 0])))) ''d'' = Some p \<and> pResume p = 2"
proof -
  let ?w = "sampleWorld [sampleDeployment ''d'' 0]"
  obtain p0 where start: "progressIn (wDB ?w) ''d'' = Some p0" "pResume p0 = 0" using sampleWorld_progress by blast
  have reach: "process_reach busyAgent" unfolding busyAgent_def by (rule deliver_reach [OF busy_reach]) code_simp
  have s: "length (prRuns busyAgent) = 2" "rnOrigin (prRuns busyAgent ! 0) = Inl ''d''" "rnOrigin (prRuns busyAgent ! 1) = Inr ''c''"
    "rnWriter (prRuns busyAgent ! 0) = 0" "rnAll (prRuns busyAgent ! 0) = fst (runPlaybook sampleOs [] (samplePush 0))"
    "reports (about (Inl ''d'') (mwWritten (prWriters busyAgent ! 0))) = [0, 1]"
    by code_simp+
  have "j = 0" if "j < 2" "rnOrigin (prRuns busyAgent ! j) = Inl ''d''" for j
    using that s(3) by (cases j) (auto simp: less_Suc_eq numeral_2_eq_2)
  then have only: "only_run busyAgent 0" unfolding only_run_def s(1,2) by simp
  have pd: "wpDeploymentID (samplePush 0) = ''d''" "wpPlaybook (samplePush 0) = Some samplePb" by (simp_all add: samplePush_def)
  note once = busy_agent_reports_once [OF sessions.none sampleWorld_inv start samplePushed_def samplePushed_sent [OF sampleReady_first]
      pd sample_fresh_id reach only refl s(2) s(5), unfolded s(4), OF prefix_order.order_refl deliver]
  then obtain p where p: "progressIn (wDB (receive okDrv ''a'' (map (\<lambda>m. (int, envelopeOf m)) (mwWritten (prWriters busyAgent ! 0)))
       (samplePushed ?w))) ''d'' = Some p" "[0, 1] = [0 .. pResume p - 1]" "0 \<le> pResume p"
    unfolding s(6) append_Nil by blast
  have "pResume p = 2" using arg_cong [OF p(2), of length] p(3) by simp
  with p(1) show ?thesis by blast
qed

section \<open>A command from the administrator to the process and back\<close>

text \<open>
  C17. A remote command end to end: when the messages of the agent's run of the command have
  arrived, among those of any deployments and other commands, the session the administrator polls
  shows what became of the process. It holds the lines of the whole output, however it was cut,
  sanitised and in order. After the exit it is done, with exit code 0, the code of the process, or
  1 and the error of waiting for it; a command that could not be started is done with code 1 and
  the reason; one whose process or output goes on forever is not done.
\<close>

theorem command_end_to_end:
  assumes "Get (wCmds w) (wcCmdID cd) = Some c" "csOutput c = []"
    "list_all2 (\<lambda>(clk, env) m. carries env m) xs ms" "about (Inr (wcCmdID cd)) ms = runCommand co workDir cd"
  shows "map_option Snapshot (Get (wCmds (receive drv k xs w)) (wcCmdID cd)) = Some (case commandOutcome co workDir cd of
      CmdTempFailed e \<Rightarrow> ([], True, 1, ''temp file: '' @ e)
    | CmdPipeFailed e \<Rightarrow> ([], True, 1, ''pipe: '' @ e)
    | CmdStartFailed e \<Rightarrow> ([], True, 1, ''start: '' @ e)
    | CmdRan chunks ex \<Rightarrow>
       (let ls = Split (concat chunks) newline;
            lines = map SanitizeLine (butlast ls @ (if last ls = [] then [] else [last ls]))
        in case ex of ExitOk \<Rightarrow> (lines, True, 0, []) | ExitCode n \<Rightarrow> (lines, True, n, []) | WaitError e \<Rightarrow> (lines, True, 1, e)
           | StillRuns \<Rightarrow> (lines, csDone c, csExitCode c, csErrMsg c))
    | CmdOpen chunks \<Rightarrow> (map SanitizeLine (butlast (Split (concat chunks) newline)), csDone c, csExitCode c, csErrMsg c))"
  using run_heard [of cd "commandOutcome co workDir cd" c, unfolded assms(2) append_Nil] receive_command [OF assms(3), of drv k w "wcCmdID cd"]
  by (simp add: assms(1,4) runCommand_def)

definition echoTraffic :: "agent_msg list" where
  "echoTraffic = [MsgStepStart (sampleStep 0), MsgCommandStream \<lparr>wkCmdID = ''c'', wkOutput = ''hi''\<rparr>,
     MsgCommandStream \<lparr>wkCmdID = ''other'', wkOutput = ''lo''\<rparr>, MsgStepComplete (sampleStep 0),
     MsgCommandCompleted \<lparr>wtCmdID = ''c'', wtExitCode = 0, wtError = []\<rparr>]"

theorem command_end_to_end_witness:
  "map_option Snapshot (Get (wCmds (receive okDrv ''a'' (map (\<lambda>m. (int, envelopeOf m)) echoTraffic)
      ((sampleWorld [])\<lparr>wCmds := Create ''c'' ''a'' ''echo hi'' NewCommandStore\<rparr>))) ''c'') = Some ([''hi''], True, 0, [])"
proof -
  have id: "wcCmdID echoCommand = ''c''" by (simp add: echoCommand_def)
  let ?w = "(sampleWorld [])\<lparr>wCmds := Create ''c'' ''a'' ''echo hi'' NewCommandStore\<rparr>"
  have w: "Get (wCmds ?w) (wcCmdID echoCommand) = Some \<lparr>csAgentID = ''a'', csCommand = ''echo hi'', csOutput = [],
      csExitCode = 0, csErrMsg = [], csDone = False\<rparr>"
    by (simp add: Get_def Create_def id)
  have "about (Inr (wcCmdID echoCommand)) echoTraffic = runCommand echoOs [] echoCommand"
    by (simp add: echo_run id echoTraffic_def)
  moreover have "commandOutcome echoOs [] echoCommand = CmdRan [''h'', ''i'' @ [newline]] ExitOk" by code_simp
  moreover have "map SanitizeLine (butlast (Split (''hi'' @ [newline]) newline)) = [''hi'']"
    "last (Split (''hi'' @ [newline]) newline) = []" by code_simp+
  ultimately show ?thesis
    using command_end_to_end [OF w _ deliver, of echoTraffic echoOs "[]" okDrv "''a''" int]
    by (simp add: id del: receive.simps Split.simps)
qed

end
